(* ===== verification/Nfc_Prelude.thy ===== *)
theory Nfc_Prelude
  imports Main "HOL-Library.Word"
begin

text \<open>
  Shared vocabulary of the development: machine integers at their C widths, the negative
  errno codes as values, byte buffers with \<open>memcpy\<close>/\<open>memset\<close>, and the big- and
  little-endian 16-bit encodings that every protocol of \<open>src/src/nfc\<close> uses.

  A C buffer \<open>uint8_t b[N]\<close> is a list of length \<open>N\<close>.  A copy that would run past the
  end of its destination makes the list longer, so an invariant \<open>length b = N\<close> that every
  operation keeps is a proof that no operation writes out of bounds.
\<close>

unbundle bit_operations_syntax

section \<open>Types\<close>

type_synonym u8 = "8 word"
type_synonym u16 = "16 word"
type_synonym u32 = "32 word"
type_synonym u64 = "64 word"
type_synonym bytes = "8 word list"

text \<open>The errno values the sources return (negated) and a code a driver may return.\<close>

datatype errno =
    EIO | ENODEV | EINVAL | ENOENT | ENOMEM | ENOSPC | EBUSY | EALREADY
  | EBADMSG | ENOTSUP | ENODATA | ETIMEDOUT | EACCES | EOther nat

text \<open>A C \<open>int\<close> return with its out-parameters: \<open>Inl e\<close> is \<open>-e\<close>, \<open>Inr x\<close> is 0.\<close>

type_synonym 'a result = "errno + 'a"

section \<open>Collections of facts\<close>

named_theorems byte_simps \<open>endian encodings and buffer copies\<close>
named_theorems geom_simps \<open>lengths of fixed buffers\<close>

section \<open>Buffers\<close>

definition memcpy_at :: "'a list \<Rightarrow> nat \<Rightarrow> 'a list \<Rightarrow> 'a list" where
  "memcpy_at dst off src = take off dst @ src @ drop (off + length src) dst"

definition memset_at :: "bytes \<Rightarrow> nat \<Rightarrow> u8 \<Rightarrow> nat \<Rightarrow> bytes" where
  "memset_at dst off v n = memcpy_at dst off (replicate n v)"

text \<open>\<open>sub_bytes off n xs\<close> is what \<open>memcpy (_, &xs[off], n)\<close> reads.\<close>

definition sub_bytes :: "nat \<Rightarrow> nat \<Rightarrow> 'a list \<Rightarrow> 'a list" where
  "sub_bytes off n xs = take n (drop off xs)"

lemma length_memcpy_at [geom_simps]:
  "off + length src \<le> length dst \<Longrightarrow> length (memcpy_at dst off src) = length dst"
  by (simp add: memcpy_at_def)

lemma length_memset_at [geom_simps]:
  "off + n \<le> length dst \<Longrightarrow> length (memset_at dst off v n) = length dst"
  by (simp add: memset_at_def length_memcpy_at)

text \<open>The converse: an out-of-bounds copy is visible in the length.\<close>

lemma memcpy_at_overflow:
  "off \<le> length dst \<Longrightarrow> length dst < off + length src
    \<Longrightarrow> length dst < length (memcpy_at dst off src)"
  by (simp add: memcpy_at_def)

lemma nth_memcpy_at:
  "off + length src \<le> length dst \<Longrightarrow> i < length dst \<Longrightarrow>
    memcpy_at dst off src ! i = (if off \<le> i \<and> i < off + length src then src ! (i - off) else dst ! i)"
  by (auto simp: memcpy_at_def nth_append min_def)

lemma sub_bytes_memcpy_at [byte_simps]:
  "off + length src \<le> length dst \<Longrightarrow> sub_bytes off (length src) (memcpy_at dst off src) = src"
  by (simp add: sub_bytes_def memcpy_at_def)

lemma take_memcpy_at_before:
  "n \<le> off \<Longrightarrow> off \<le> length dst \<Longrightarrow> take n (memcpy_at dst off src) = take n dst"
  by (simp add: memcpy_at_def min_def)

lemma memcpy_at_0 [byte_simps]: "memcpy_at dst 0 src = src @ drop (length src) dst"
  by (simp add: memcpy_at_def)

lemma length_sub_bytes [geom_simps]: "off + n \<le> length xs \<Longrightarrow> length (sub_bytes off n xs) = n"
  by (simp add: sub_bytes_def)

lemma sub_bytes_0 [byte_simps]: "sub_bytes 0 n xs = take n xs"
  by (simp add: sub_bytes_def)

lemma nth_sub_bytes: "off + n \<le> length xs \<Longrightarrow> i < n \<Longrightarrow> sub_bytes off n xs ! i = xs ! (off + i)"
  by (simp add: sub_bytes_def)

text \<open>Rows of equal length.\<close>

lemma length_concat_eq: "list_all (\<lambda>x. length x = m) xs \<Longrightarrow> length (concat xs) = m * length xs"
  by (induction xs) simp_all

lemma drop_concat_eq:
  "list_all (\<lambda>x. length x = m) xs \<Longrightarrow> k \<le> length xs \<Longrightarrow> drop (m * k) (concat xs) = concat (drop k xs)"
proof (induction xs arbitrary: k)
  case (Cons x xs)
  then show ?case by (cases k) simp_all
qed simp

lemma sub_concat_eq:
  assumes "list_all (\<lambda>x. length x = m) xs" "k < length xs"
  shows "sub_bytes (m * k) m (concat xs) = xs ! k"
proof -
  have "length (xs ! k) = m" using assms by (simp add: list_all_length)
  moreover have "drop k xs = xs ! k # drop (Suc k) xs" using Cons_nth_drop_Suc [OF assms(2)] by simp
  ultimately show ?thesis
    using drop_concat_eq [OF assms(1), of k] assms(2) by (simp add: sub_bytes_def)
qed

text \<open>Reading rows of equal length back from the bytes of a structure.\<close>

lemma sub_bytes_rows:
  assumes "list_all (\<lambda>x. length x = n) rows" "off = length pre"
  shows "map (\<lambda>k. sub_bytes (off + k * n) n (pre @ concat rows @ post)) [0..<length rows] = rows"
proof (rule nth_equalityI; clarsimp)
  fix k assume k: "k < length rows"
  have "n * Suc k \<le> n * length rows" using k by (intro mult_left_mono) auto
  then have "k * n + n \<le> length (concat rows)" using length_concat_eq [OF assms(1)] by (simp add: ac_simps)
  then have "sub_bytes (off + k * n) n (pre @ concat rows @ post) = sub_bytes (n * k) n (concat rows)"
    using assms(2) by (simp add: sub_bytes_def mult.commute)
  then show "sub_bytes (off + k * n) n (pre @ concat rows @ post) = rows ! k"
    using sub_concat_eq [OF assms(1) k] by simp
qed

lemma length_sub_bytes_rows:
  assumes "off + n * k \<le> length i" "p \<in> set (map (\<lambda>k. sub_bytes (off + k * n) n i) [0..<k])"
  shows "length p = n"
proof -
  obtain j where j: "j < k" "p = sub_bytes (off + j * n) n i" using assms(2) by auto
  have "Suc j * n \<le> k * n" using j(1) by (intro mult_right_mono) auto
  then have "off + j * n + n \<le> length i" using assms(1) by (simp add: mult.commute)
  then show ?thesis unfolding j(2) by (rule length_sub_bytes)
qed

lemma memcpy_at_rows:
  assumes "\<forall>p \<in> set dst. length p = n" "\<forall>p \<in> set src. length p = n"
  shows "\<forall>p \<in> set (memcpy_at dst off src). length p = n"
  using assms by (auto simp: memcpy_at_def dest: in_set_takeD in_set_dropD)

section \<open>Endian encodings\<close>

text \<open>\<open>(uint8_t)(n & 0xFF)\<close> and \<open>(uint8_t)((n >> 8) & 0xFF)\<close> of a size.\<close>

definition lo8 :: "nat \<Rightarrow> u8" where
  "lo8 n = word_of_nat n"

definition hi8 :: "nat \<Rightarrow> u8" where
  "hi8 n = word_of_nat (n div 256)"

text \<open>\<open>((uint16_t)a << 8) | b\<close>.\<close>

definition be16 :: "u8 \<Rightarrow> u8 \<Rightarrow> u16" where
  "be16 a b = push_bit 8 (ucast a) OR ucast b"

definition le16 :: "u8 \<Rightarrow> u8 \<Rightarrow> u16" where
  "le16 a b = ucast a OR push_bit 8 (ucast b)"

lemma le16_be16: "le16 a b = be16 b a"
  by (simp add: le16_def be16_def or.commute)

lemma unat_u8_lt [simp]: "unat (x :: u8) < 256"
  using unsigned_less [of x] by simp

lemma unat_u16_lt [simp]: "unat (x :: u16) < 65536"
  using unsigned_less [of x] by simp

lemma unat_lo8 [byte_simps]: "unat (lo8 n) = n mod 256"
  by (simp add: lo8_def unat_of_nat)

lemma unat_hi8 [byte_simps]: "unat (hi8 n) = n div 256 mod 256"
  by (simp add: hi8_def unat_of_nat)

lemma of_nat_unat_word [simp]: "(of_nat (unat x) :: 'a::len word) = x"
  by (simp add: word_eq_iff_unsigned unsigned_of_nat take_bit_nat_eq_self)

lemma lo8_unat [simp]: "lo8 (unat (x :: u8)) = x"
  by (simp add: lo8_def)

lemma ucast_u8_u16_u8 [simp]: "(ucast (ucast (x :: u8) :: u16) :: u8) = x"
  by (rule bit_word_eqI) (auto simp: bit_simps)

lemma unat_ucast_u8_u16 [simp]: "unat (ucast (b :: u8) :: u16) = unat b"
proof -
  have "unat b < 2 ^ 16"
    using unat_u8_lt [of b] by (simp del: unat_u8_lt)
  then show ?thesis
    by (simp add: unsigned_ucast_eq take_bit_nat_eq_self)
qed

lemma unat_be16 [byte_simps]: "unat (be16 a b) = unat a * 256 + unat b"
proof -
  have "be16 a b = push_bit 8 (ucast a) + ucast b"
    unfolding be16_def
    by (rule disjunctive_add_eq_or [symmetric], rule bit_word_eqI)
       (auto simp: bit_simps dest: bit_imp_le_length)
  moreover have "unat a * 256 + unat b < 65536"
    using unat_u8_lt [of a] unat_u8_lt [of b] by linarith
  ultimately show ?thesis
    by (simp add: unat_word_ariths push_bit_eq_mult mult.commute)
qed

lemma unat_be16_hi_lo [byte_simps]: "n < 65536 \<Longrightarrow> unat (be16 (hi8 n) (lo8 n)) = n"
  by (simp add: byte_simps)

lemma unat_le16_lo_hi [byte_simps]: "n < 65536 \<Longrightarrow> unat (le16 (lo8 n) (hi8 n)) = n"
  by (simp add: le16_be16 unat_be16_hi_lo)

lemma lo8_hi8_le16 [byte_simps]: "lo8 (unat (le16 a b)) = a" "hi8 (unat (le16 a b)) = b"
proof -
  have "unat (lo8 (unat (le16 a b))) = unat a" "unat (hi8 (unat (le16 a b))) = unat b"
    using unat_u8_lt [of a] unat_u8_lt [of b]
    by (simp_all add: le16_be16 unat_be16 unat_lo8 unat_hi8)
  then show "lo8 (unat (le16 a b)) = a" "hi8 (unat (le16 a b)) = b"
    by (simp_all add: unsigned_word_eqI)
qed

lemma unat_le16 [byte_simps]: "unat (le16 a b) = unat a + unat b * 256"
  by (simp add: le16_be16 unat_be16)

lemma ucast_and_FF [simp]: "(ucast (c AND 0xFF) :: u8) = ucast (c :: u16)"
proof -
  have m: "(0xFF :: u16) = mask 8" by (simp add: mask_eq_exp_minus_1)
  show ?thesis unfolding m
    by (intro bit_word_eqI) (simp add: bit_and_iff bit_ucast_iff bit_mask_iff)
qed

lemma u8_bits_eqI:
  fixes x y :: u8
  assumes "\<And>j. j < 8 \<Longrightarrow> bit x j = bit y j"
  shows "x = y"
  using assms by (intro bit_word_eqI) simp

lemma le16_halves: "c = le16 a b \<longleftrightarrow> a = ucast c \<and> b = ucast (drop_bit 8 c)"
proof
  have u: "\<not> bit a (8 + j)" for j using bit_imp_le_length [of a "8 + j"] by auto
  assume "c = le16 a b"
  with u show "a = ucast c \<and> b = ucast (drop_bit 8 c)"
    by (auto simp: le16_def bit_or_iff bit_push_bit_iff bit_ucast_iff bit_drop_bit_eq intro!: u8_bits_eqI)
next
  assume "a = ucast c \<and> b = ucast (drop_bit 8 c)"
  then show "c = le16 a b"
    by (auto simp: le16_def bit_or_iff bit_push_bit_iff bit_ucast_iff bit_drop_bit_eq intro!: bit_word_eqI)
qed

text \<open>Words of 32 bits, most significant byte first.\<close>

definition be32 :: "bytes \<Rightarrow> u32" where
  "be32 b = push_bit 24 (ucast (b ! 0)) OR push_bit 16 (ucast (b ! 1)) OR push_bit 8 (ucast (b ! 2)) OR ucast (b ! 3)"

definition be32_bytes :: "u32 \<Rightarrow> bytes" where
  "be32_bytes w = [ucast (drop_bit 24 w AND 0xFF), ucast (drop_bit 16 w AND 0xFF), ucast (drop_bit 8 w AND 0xFF),
     ucast (w AND 0xFF)]"

lemma be32_bit:
  assumes "length b = 4"
  shows "bit (be32 b) j \<longleftrightarrow> j < 32 \<and> bit (b ! (3 - j div 8)) (j mod 8)"
proof -
  have "j < 8 \<or> (8 \<le> j \<and> j < 16) \<or> (16 \<le> j \<and> j < 24) \<or> (24 \<le> j \<and> j < 32) \<or> 32 \<le> j" by linarith
  then show ?thesis
    by (elim disjE) (auto simp: be32_def bit_or_iff bit_push_bit_iff bit_ucast_iff div_if mod_if
        dest: bit_imp_le_length)
qed

lemma bit_eq_lanesI:
  fixes v w :: u32
  assumes "\<And>k i. k < 4 \<Longrightarrow> i < 8 \<Longrightarrow> bit v (8 * k + i) = bit w (8 * k + i)"
  shows "v = w"
proof (rule bit_word_eqI)
  fix j assume "j < LENGTH(32)"
  then have "j div 8 < 4" "j mod 8 < 8" "8 * (j div 8) + j mod 8 = j" by auto
  with assms [of "j div 8" "j mod 8"] show "bit v j = bit w j" by simp
qed

lemma ucast_u32_and_FF [simp]: "(ucast (w AND 0xFF) :: u8) = ucast (w :: u32)"
proof -
  have m: "(0xFF :: u32) = mask 8" by (simp add: mask_eq_exp_minus_1)
  show ?thesis unfolding m by (intro bit_word_eqI) (simp add: bit_and_iff bit_ucast_iff bit_mask_iff)
qed

lemma be32_be32_bytes: "be32 (be32_bytes n) = n"
proof (rule bit_eq_lanesI)
  fix k i :: nat assume k: "k < 4" and i: "i < 8"
  have kd: "k = 0 \<or> k = 1 \<or> k = 2 \<or> k = 3" using k by linarith
  have p: "8 * k + i < 32" "(8 * k + i) div 8 = k" "(8 * k + i) mod 8 = i" using k i by auto
  have "bit (be32 (be32_bytes n)) (8 * k + i) \<longleftrightarrow> bit (be32_bytes n ! (3 - k)) i"
    using be32_bit [of "be32_bytes n" "8 * k + i"] p by (simp add: be32_bytes_def)
  then show "bit (be32 (be32_bytes n)) (8 * k + i) = bit n (8 * k + i)"
    using kd i by (elim disjE) (simp_all add: be32_bytes_def bit_ucast_iff bit_drop_bit_eq)
qed

lemma be32_bytes_be32:
  assumes "length b = 4"
  shows "be32_bytes (be32 b) = b"
proof (rule nth_equalityI)
  show "length (be32_bytes (be32 b)) = length b" using assms by (simp add: be32_bytes_def)
  fix k assume "k < length (be32_bytes (be32 b))"
  then have "k = 0 \<or> k = 1 \<or> k = 2 \<or> k = 3" by (auto simp: be32_bytes_def)
  then have n: "be32_bytes (be32 b) ! k = ucast (drop_bit (8 * (3 - k)) (be32 b))" and k: "k < 4"
    by (auto simp: be32_bytes_def)
  show "be32_bytes (be32 b) ! k = b ! k"
    unfolding n
  proof (rule bit_word_eqI)
    fix i assume "i < LENGTH(8)"
    then have "i < 8" by simp
    then have "(8 * (3 - k) + i) div 8 = 3 - k" "(8 * (3 - k) + i) mod 8 = i" "8 * (3 - k) + i < 32" by auto
    with \<open>i < 8\<close> k show "bit (ucast (drop_bit (8 * (3 - k)) (be32 b)) :: u8) i = bit (b ! k) i"
      by (simp add: bit_ucast_iff bit_drop_bit_eq be32_bit [OF assms])
  qed
qed

end
