(* ===== verification/Apdu_Framing.thy ===== *)
theory Apdu_Framing
  imports Nfc_Prelude
begin

text \<open>
  Parsed command APDUs (\<open>framing/apdu_types.h\<close>) and the ISO 7816-4 parser \<open>apdu_parse\<close> of
  \<open>framing/apdu_assembler.c\<close>.  The parser is proved to be the inverse of an independent
  encoder of the four short APDU cases, to hand out only data that lies inside the received
  frame, and to accept no other frame than those (and the seven-byte extended case 2).
\<close>

section \<open>Types and constants\<close>

record nfc_apdu =
  apdu_cla :: u8
  apdu_ins :: u8
  apdu_p1 :: u8
  apdu_p2 :: u8
  apdu_data :: "bytes option"
  apdu_lc :: u16
  apdu_le :: u16
  apdu_has_le :: bool
  apdu_extended :: bool

text \<open>\<open>apdu_data\<close> is the C pointer: \<open>None\<close> is NULL, \<open>Some xs\<close> points at the rest of the frame.\<close>

abbreviation (input) NFC_SW_OK :: nat where "NFC_SW_OK \<equiv> 0x9000"
abbreviation (input) NFC_SW_WRONG_LENGTH :: nat where "NFC_SW_WRONG_LENGTH \<equiv> 0x6700"
abbreviation (input) NFC_SW_CLA_NOT_SUPPORTED :: nat where "NFC_SW_CLA_NOT_SUPPORTED \<equiv> 0x6E00"
abbreviation (input) NFC_SW_INS_NOT_SUPPORTED :: nat where "NFC_SW_INS_NOT_SUPPORTED \<equiv> 0x6D00"
abbreviation (input) NFC_SW_WRONG_P1P2 :: nat where "NFC_SW_WRONG_P1P2 \<equiv> 0x6A86"
abbreviation (input) NFC_SW_FILE_NOT_FOUND :: nat where "NFC_SW_FILE_NOT_FOUND \<equiv> 0x6A82"
abbreviation (input) NFC_SW_WRONG_OFFSET :: nat where "NFC_SW_WRONG_OFFSET \<equiv> 0x6B00"
abbreviation (input) NFC_SW_NO_EF :: nat where "NFC_SW_NO_EF \<equiv> 0x6986"
abbreviation (input) NFC_SW_CONDITIONS_NOT_SAT :: nat where "NFC_SW_CONDITIONS_NOT_SAT \<equiv> 0x6985"

abbreviation (input) NFC_CLA_ISO7816 :: u8 where "NFC_CLA_ISO7816 \<equiv> 0x00"
abbreviation (input) NFC_INS_SELECT :: u8 where "NFC_INS_SELECT \<equiv> 0xA4"
abbreviation (input) NFC_INS_READ_BINARY :: u8 where "NFC_INS_READ_BINARY \<equiv> 0xB0"
abbreviation (input) NFC_INS_UPDATE_BINARY :: u8 where "NFC_INS_UPDATE_BINARY \<equiv> 0xD6"
abbreviation (input) NFC_SELECT_P1_BY_FILE_ID :: u8 where "NFC_SELECT_P1_BY_FILE_ID \<equiv> 0x00"
abbreviation (input) NFC_SELECT_P1_BY_AID :: u8 where "NFC_SELECT_P1_BY_AID \<equiv> 0x04"
abbreviation (input) NFC_AID_MAX_LEN :: nat where "NFC_AID_MAX_LEN \<equiv> 16"
abbreviation (input) NFC_TRANSPORT_MAX_RESPONSE_LEN :: nat where "NFC_TRANSPORT_MAX_RESPONSE_LEN \<equiv> 255"

text \<open>The two bytes of a status word as the modules put them on the wire.\<close>

definition sw_bytes :: "nat \<Rightarrow> bytes" where
  "sw_bytes sw = [hi8 sw, lo8 sw]"

lemma length_sw_bytes [simp]: "length (sw_bytes sw) = 2"
  by (simp add: sw_bytes_def)

section \<open>The parser\<close>

datatype apdu_reject =
    APDU_PARSE_REJECT_TOO_SHORT
  | APDU_PARSE_REJECT_LENGTH_MISMATCH
  | APDU_PARSE_REJECT_EXTENDED_DISABLED

definition apdu_header :: "bytes \<Rightarrow> nfc_apdu" where
  "apdu_header d = \<lparr>apdu_cla = d ! 0, apdu_ins = d ! 1, apdu_p1 = d ! 2, apdu_p2 = d ! 3,
     apdu_data = None, apdu_lc = 0, apdu_le = 0, apdu_has_le = False, apdu_extended = False\<rparr>"

definition apdu_parse :: "bytes option \<Rightarrow> bool \<Rightarrow> apdu_reject + nfc_apdu" where
  "apdu_parse data extended_ok = (case data of
     None \<Rightarrow> Inl APDU_PARSE_REJECT_TOO_SHORT
   | Some d \<Rightarrow>
       let len = length d; out = apdu_header d in
       if len < 4 then Inl APDU_PARSE_REJECT_TOO_SHORT
       else if len = 4 then Inr out
       else if len = 5 then Inr (out\<lparr>apdu_has_le := True, apdu_le := ucast (d ! 4)\<rparr>)
       else if d ! 4 \<noteq> 0 then
         (let lc_s = unat (d ! 4) in
          if len = 5 + lc_s then
            Inr (out\<lparr>apdu_lc := ucast (d ! 4), apdu_data := Some (drop 5 d)\<rparr>)
          else if len = 6 + lc_s then
            Inr (out\<lparr>apdu_lc := ucast (d ! 4), apdu_data := Some (drop 5 d),
                     apdu_has_le := True, apdu_le := ucast (d ! (5 + lc_s))\<rparr>)
          else Inl APDU_PARSE_REJECT_LENGTH_MISMATCH)
       else if \<not> extended_ok then Inl APDU_PARSE_REJECT_EXTENDED_DISABLED
       else if len = 7 then
         Inr (out\<lparr>apdu_extended := True, apdu_has_le := True, apdu_le := be16 (d ! 5) (d ! 6)\<rparr>)
       else Inl APDU_PARSE_REJECT_LENGTH_MISMATCH)"

section \<open>The command body a consumer may read\<close>

text \<open>
  Consumers read \<open>apdu_lc\<close> bytes through \<open>apdu_data\<close>.  \<open>apdu_in_frame\<close> says these bytes lie
  inside the received frame.
\<close>

definition apdu_body :: "nfc_apdu \<Rightarrow> bytes" where
  "apdu_body a = (case apdu_data a of None \<Rightarrow> [] | Some xs \<Rightarrow> take (unat (apdu_lc a)) xs)"

definition apdu_in_frame :: "nfc_apdu \<Rightarrow> bool" where
  "apdu_in_frame a \<longleftrightarrow> (case apdu_data a of
     None \<Rightarrow> apdu_lc a = 0
   | Some xs \<Rightarrow> 0 < apdu_lc a \<and> unat (apdu_lc a) \<le> length xs \<and> unat (apdu_lc a) < 256)"

section \<open>An independent encoder\<close>

text \<open>ISO 7816-4 short APDUs: header, optional Lc and body, optional Le.\<close>

definition apdu_encode :: "u8 \<Rightarrow> u8 \<Rightarrow> u8 \<Rightarrow> u8 \<Rightarrow> bytes \<Rightarrow> u8 option \<Rightarrow> bytes" where
  "apdu_encode c i a b body le =
     [c, i, a, b] @ (if body = [] then [] else lo8 (length body) # body)
       @ (case le of None \<Rightarrow> [] | Some l \<Rightarrow> [l])"

section \<open>Correctness\<close>

lemma ucast_u8_u16_eq_0 [simp]: "(ucast (x :: u8) :: u16) = 0 \<longleftrightarrow> x = 0"
  by (metis unat_ucast_u8_u16 unat_eq_zero)

lemma lo8_eq_0: "n < 256 \<Longrightarrow> lo8 n = 0 \<longleftrightarrow> n = 0"
  by (metis mod_less unat_eq_zero unat_lo8)

lemma apdu_parse_short_body:
  assumes "body \<noteq> []" "length body < 256"
  shows "apdu_parse (Some (apdu_encode c i a b body le)) ext =
     Inr \<lparr>apdu_cla = c, apdu_ins = i, apdu_p1 = a, apdu_p2 = b,
          apdu_data = Some (body @ (case le of None \<Rightarrow> [] | Some l \<Rightarrow> [l])),
          apdu_lc = of_nat (length body),
          apdu_le = (case le of None \<Rightarrow> 0 | Some l \<Rightarrow> ucast l), apdu_has_le = (le \<noteq> None),
          apdu_extended = False\<rparr>"
proof -
  have "lo8 (length body) \<noteq> 0"
    using assms lo8_eq_0 by blast
  moreover have "unat (lo8 (length body)) = length body"
    using assms by (simp add: byte_simps)
  moreover from this have "(ucast (lo8 (length body)) :: u16) = of_nat (length body)"
    by (metis unat_ucast_u8_u16 of_nat_unat_word)
  ultimately show ?thesis
    using assms
    by (cases le; cases body)
      (simp_all add: apdu_parse_def apdu_header_def apdu_encode_def Let_def nth_append)
qed

lemma apdu_parse_no_body:
  "apdu_parse (Some (apdu_encode c i a b [] le)) ext =
     Inr \<lparr>apdu_cla = c, apdu_ins = i, apdu_p1 = a, apdu_p2 = b, apdu_data = None, apdu_lc = 0,
          apdu_le = (case le of None \<Rightarrow> 0 | Some l \<Rightarrow> ucast l), apdu_has_le = (le \<noteq> None),
          apdu_extended = False\<rparr>"
  by (cases le) (simp_all add: apdu_parse_def apdu_header_def apdu_encode_def Let_def)

text \<open>What an accepted frame looks like.\<close>

lemma apdu_parse_InrD:
  assumes "apdu_parse (Some d) ext = Inr a"
  shows "4 \<le> length d \<and>
    ((\<not> apdu_extended a \<and> length (apdu_body a) = unat (apdu_lc a) \<and> length (apdu_body a) < 256 \<and>
      d = apdu_encode (apdu_cla a) (apdu_ins a) (apdu_p1 a) (apdu_p2 a) (apdu_body a)
            (if apdu_has_le a then Some (ucast (apdu_le a)) else None)) \<or>
     (apdu_extended a \<and> ext \<and> length d = 7 \<and> d ! 4 = 0 \<and> apdu_lc a = 0 \<and> apdu_data a = None))"
proof -
  from assms have len: "4 \<le> length d"
    by (auto simp: apdu_parse_def Let_def split: if_splits)
  then obtain c i p q rest where d: "d = c # i # p # q # rest"
    by (metis Suc_le_length_iff eval_nat_numeral(2) eval_nat_numeral(3) numeral_1_eq_Suc_0
        numerals(1) semiring_norm(26) semiring_norm(27))
  consider "rest = []" | l where "rest = [l]" | x y zs where "rest = x # y # zs"
    by (metis neq_Nil_conv)
  then show ?thesis
  proof cases
    case 1
    with assms d show ?thesis
      by (auto simp: apdu_parse_def Let_def apdu_header_def apdu_body_def apdu_encode_def)
  next
    case (2 l)
    with assms d show ?thesis
      by (auto simp: apdu_parse_def Let_def apdu_header_def apdu_body_def apdu_encode_def)
  next
    case (3 x y zs)
    have x0: "unat x = 0 \<longleftrightarrow> x = 0"
      by (simp add: unat_eq_zero)
    have last: "length (y # zs) = Suc (unat x) \<Longrightarrow>
        take (unat x) (y # zs) @ [(y # zs) ! unat x] = y # zs"
      by (metis Suc_leI lessI take_Suc_conv_app_nth take_all_iff)
    show ?thesis
      using assms x0 last unat_u8_lt [of x] unfolding d 3
      by (auto simp: apdu_parse_def Let_def apdu_header_def apdu_body_def apdu_encode_def
          split: if_splits)
  qed
qed

lemma apdu_parse_in_frame: "apdu_parse (Some d) ext = Inr a \<Longrightarrow> apdu_in_frame a"
proof -
  assume p: "apdu_parse (Some d) ext = Inr a"
  have "unat (d ! 4) < 256" by simp
  then show ?thesis
    using p
    by (auto simp: apdu_parse_def Let_def apdu_header_def apdu_in_frame_def word_less_nat_alt
        simp del: unat_u8_lt split: if_splits)
      (metis neq0_conv unat_eq_zero)+
qed

section \<open>Properties\<close>

text \<open>C12. Parsing inverts encoding: every short command APDU, with or without body and Le, is parsed
  back to its header, exactly its body, and its Le.\<close>

theorem apdu_parse_encode:
  assumes "length body < 256"
  shows "\<exists>a. apdu_parse (Some (apdu_encode c i p q body le)) ext = Inr a \<and>
    apdu_cla a = c \<and> apdu_ins a = i \<and> apdu_p1 a = p \<and> apdu_p2 a = q \<and> apdu_body a = body \<and>
    apdu_has_le a = (le \<noteq> None) \<and> apdu_le a = (case le of None \<Rightarrow> 0 | Some l \<Rightarrow> ucast l) \<and>
    \<not> apdu_extended a"
proof (cases "body = []")
  case True
  then show ?thesis by (simp add: apdu_parse_no_body apdu_body_def)
next
  case False
  have "unat (of_nat (length body) :: u16) = length body"
    using assms by (simp add: unat_of_nat)
  with False assms show ?thesis by (simp add: apdu_parse_short_body apdu_body_def)
qed

theorem apdu_parse_encode_witness:
  "\<exists>a. apdu_parse (Some (apdu_encode 0x00 0xA4 0x04 0x00 [0xD2, 0x76] (Some 0))) False = Inr a \<and>
     apdu_body a = [0xD2, 0x76]"
  using apdu_parse_encode [of "[0xD2, 0x76]" "0x00" "0xA4" "0x04" "0x00" "Some 0" False] by auto

text \<open>Nothing else is accepted, and a consumer never reads outside the frame: an accepted frame is
  the short encoding of what the parser returns, or the seven-byte extended case 2 with extended APDUs
  enabled; the command data lies inside the received frame.\<close>

theorem apdu_parse_sound:
  assumes "apdu_parse (Some d) ext = Inr a"
  shows "apdu_in_frame a \<and>
    (d = apdu_encode (apdu_cla a) (apdu_ins a) (apdu_p1 a) (apdu_p2 a) (apdu_body a)
           (if apdu_has_le a then Some (ucast (apdu_le a)) else None) \<or>
     (ext \<and> length d = 7 \<and> d ! 4 = 0 \<and> apdu_extended a \<and> apdu_data a = None))"
  using apdu_parse_InrD [OF assms] apdu_parse_in_frame [OF assms] by blast

theorem apdu_parse_sound_witness:
  "apdu_in_frame (apdu_header [0, 0xB0, 0, 0])"
  using apdu_parse_sound [of "[0, 0xB0, 0, 0]" False "apdu_header [0, 0xB0, 0, 0]"]
  by (simp add: apdu_parse_def Let_def)

end
