(* ===== verification/Aid_Router.thy ===== *)
theory Aid_Router
  imports Apdu_Framing
begin

text \<open>
  The service vtable (\<open>router/service.h\<close>) and the SELECT-by-AID router (\<open>router/aid_router.c\<close>).
  A service pointer is a value of a type \<open>'p\<close> (the router compares pointers); \<open>sv\<close> maps it to
  its vtable, whose callbacks act on the state \<open>'w\<close> of everything outside the router.
  \<open>send\<close> is \<open>nfc_transport_send_response\<close> of the HAL, a parameter.

  The router is proved to refine an abstract contract (\<open>route_spec\<close>): a finite map from AIDs to
  services, the currently selected service, and the list of callbacks each APDU causes.
\<close>

section \<open>Service vtable\<close>

record 'w nfc_service =
  svc_on_select :: "(bytes \<Rightarrow> 'w \<Rightarrow> 'w) option"
  svc_on_apdu :: "(nfc_apdu \<Rightarrow> 'w \<Rightarrow> 'w) option"
  svc_on_tag_cmd :: "(bytes \<Rightarrow> 'w \<Rightarrow> 'w) option"
  svc_on_deselect :: "('w \<Rightarrow> 'w) option"
  svc_on_field_off :: "('w \<Rightarrow> 'w) option"
  svc_serialize :: "(nat \<Rightarrow> 'w \<Rightarrow> bytes result \<times> 'w) option"
  svc_deserialize :: "(bytes \<Rightarrow> 'w \<Rightarrow> unit result \<times> 'w) option"
  svc_persist_id :: u8

abbreviation (input) NFC_PERSIST_ID_NDEF :: u8 where "NFC_PERSIST_ID_NDEF \<equiv> 0x01"
abbreviation (input) NFC_PERSIST_ID_DESFIRE :: u8 where "NFC_PERSIST_ID_DESFIRE \<equiv> 0x02"
abbreviation (input) NFC_PERSIST_ID_ULTRALIGHT :: u8 where "NFC_PERSIST_ID_ULTRALIGHT \<equiv> 0x03"
abbreviation (input) NFC_PERSIST_ID_EMV :: u8 where "NFC_PERSIST_ID_EMV \<equiv> 0x04"
abbreviation (input) NFC_PERSIST_ID_ALIRO :: u8 where "NFC_PERSIST_ID_ALIRO \<equiv> 0x05"
abbreviation (input) NFC_PERSIST_ID_CLASSIC :: u8 where "NFC_PERSIST_ID_CLASSIC \<equiv> 0x06"
abbreviation (input) NFC_PERSIST_ID_FELICA :: u8 where "NFC_PERSIST_ID_FELICA \<equiv> 0x07"
abbreviation (input) NFC_PERSIST_ID_ISO15693 :: u8 where "NFC_PERSIST_ID_ISO15693 \<equiv> 0x08"
abbreviation (input) NFC_PERSIST_ID_SLIX :: u8 where "NFC_PERSIST_ID_SLIX \<equiv> 0x09"
abbreviation (input) NFC_PERSIST_ID_ST25TB :: u8 where "NFC_PERSIST_ID_ST25TB \<equiv> 0x0A"
abbreviation (input) NFC_PERSIST_ID_MAX :: u8 where "NFC_PERSIST_ID_MAX \<equiv> 0x0A"

section \<open>Router state\<close>

datatype module_state = UNINITIALIZED | INITIALIZED

record 'p aid_router_entry =
  ent_aid :: bytes
  ent_aid_len :: u8
  ent_svc :: "'p option"

record aid_router_stats =
  rs_error_count :: u32
  rs_last_error_code :: "errno option"
  rs_select_matched_count :: u32
  rs_select_unmatched_count :: u32
  rs_apdu_routed_count :: u32
  rs_apdu_no_service_count :: u32
  rs_field_off_count :: u32
  rs_register_table_full_count :: u32

record 'p aid_router =
  rt_max_aids :: u8
  rt_stats :: aid_router_stats
  rt_state :: module_state
  rt_table :: "'p aid_router_entry list"
  rt_table_count :: u8
  rt_active :: "'p option"

definition CONFIG_NFC_ROUTER_MAX_AIDS :: nat where
  "CONFIG_NFC_ROUTER_MAX_AIDS = 8"

definition aid_router_stats_zero :: aid_router_stats where
  "aid_router_stats_zero = \<lparr>rs_error_count = 0, rs_last_error_code = None,
     rs_select_matched_count = 0, rs_select_unmatched_count = 0, rs_apdu_routed_count = 0,
     rs_apdu_no_service_count = 0, rs_field_off_count = 0, rs_register_table_full_count = 0\<rparr>"

text \<open>The module's statics at boot.\<close>

definition aid_router_boot :: "'p aid_router" where
  "aid_router_boot = \<lparr>rt_max_aids = 0, rt_stats = aid_router_stats_zero, rt_state = UNINITIALIZED,
     rt_table = replicate CONFIG_NFC_ROUTER_MAX_AIDS
       \<lparr>ent_aid = replicate NFC_AID_MAX_LEN 0, ent_aid_len = 0, ent_svc = None\<rparr>,
     rt_table_count = 0, rt_active = None\<rparr>"

text \<open>\<open>STATS_ERROR\<close> and \<open>STATS_INC\<close> of \<open>src/stats.h\<close> on the router's counters.\<close>

definition aid_stats_error :: "errno \<Rightarrow> 'p aid_router \<Rightarrow> 'p aid_router" where
  "aid_stats_error e r = r\<lparr>rt_stats := (rt_stats r)
     \<lparr>rs_error_count := rs_error_count (rt_stats r) + 1, rs_last_error_code := Some e\<rparr>\<rparr>"

definition aid_stats_upd :: "(aid_router_stats \<Rightarrow> aid_router_stats) \<Rightarrow> 'p aid_router \<Rightarrow> 'p aid_router" where
  "aid_stats_upd f r = r\<lparr>rt_stats := f (rt_stats r)\<rparr>"

abbreviation "inc_select_matched \<equiv> aid_stats_upd (rs_select_matched_count_update (\<lambda>n. n + 1))"
abbreviation "inc_select_unmatched \<equiv> aid_stats_upd (rs_select_unmatched_count_update (\<lambda>n. n + 1))"
abbreviation "inc_apdu_routed \<equiv> aid_stats_upd (rs_apdu_routed_count_update (\<lambda>n. n + 1))"
abbreviation "inc_apdu_no_service \<equiv> aid_stats_upd (rs_apdu_no_service_count_update (\<lambda>n. n + 1))"
abbreviation "inc_field_off \<equiv> aid_stats_upd (rs_field_off_count_update (\<lambda>n. n + 1))"
abbreviation "inc_table_full \<equiv> aid_stats_upd (rs_register_table_full_count_update (\<lambda>n. n + 1))"

section \<open>Operations\<close>

definition apdu_is_select_by_aid :: "nfc_apdu \<Rightarrow> bool" where
  "apdu_is_select_by_aid a \<longleftrightarrow> apdu_cla a = NFC_CLA_ISO7816 \<and> apdu_ins a = NFC_INS_SELECT \<and>
     apdu_p1 a = NFC_SELECT_P1_BY_AID \<and> 0 < apdu_lc a"

definition find_aid :: "'p aid_router \<Rightarrow> bytes \<Rightarrow> u8 \<Rightarrow> 'p aid_router_entry option" where
  "find_aid r aid aid_len = List.find (\<lambda>e. ent_aid_len e = aid_len \<and>
      take (unat aid_len) (ent_aid e) = take (unat aid_len) aid)
    (take (unat (rt_table_count r)) (rt_table r))"

definition aid_router_send_sw ::
  "(bytes \<Rightarrow> 'w \<Rightarrow> unit result \<times> 'w) \<Rightarrow> nat \<Rightarrow> 'p aid_router \<times> 'w \<Rightarrow> 'p aid_router \<times> 'w" where
  "aid_router_send_sw send sw rw = (case rw of (r, w) \<Rightarrow> (case send (sw_bytes sw) w of
      (Inl e, w') \<Rightarrow> (aid_stats_error e r, w')
    | (Inr _, w') \<Rightarrow> (r, w')))"

definition aid_router_init :: "'p aid_router \<Rightarrow> unit result \<times> 'p aid_router" where
  "aid_router_init r = (if rt_state r = INITIALIZED then (Inl EALREADY, r)
     else (Inr (), r\<lparr>rt_stats := aid_router_stats_zero,
            rt_max_aids := of_nat CONFIG_NFC_ROUTER_MAX_AIDS,
            rt_table_count := 0, rt_active := None, rt_state := INITIALIZED\<rparr>))"

definition aid_router_shutdown :: "'p aid_router \<Rightarrow> unit result \<times> 'p aid_router" where
  "aid_router_shutdown r =
     (Inr (), r\<lparr>rt_table_count := 0, rt_active := None, rt_state := UNINITIALIZED\<rparr>)"

definition aid_router_register ::
  "bytes option \<Rightarrow> 'p option \<Rightarrow> 'p aid_router \<Rightarrow> unit result \<times> 'p aid_router" where
  "aid_router_register aid svc r =
    (if rt_state r \<noteq> INITIALIZED then (Inl ENODEV, r)
     else case (aid, svc) of
       (Some a, Some s) \<Rightarrow>
         if a = [] \<or> NFC_AID_MAX_LEN < length a then (Inl EINVAL, r)
         else if rt_max_aids r \<le> rt_table_count r then (Inl ENOMEM, inc_table_full r)
         else
           (let i = unat (rt_table_count r); e = rt_table r ! i in
            (Inr (), r\<lparr>rt_table := (rt_table r)[i := \<lparr>ent_aid = memcpy_at (ent_aid e) 0 a,
                         ent_aid_len = of_nat (length a), ent_svc = Some s\<rparr>],
                       rt_table_count := rt_table_count r + 1\<rparr>))
     | _ \<Rightarrow> (Inl EINVAL, r))"

definition aid_router_clear :: "'p aid_router \<Rightarrow> 'p aid_router" where
  "aid_router_clear r = r\<lparr>rt_table_count := 0, rt_active := None\<rparr>"

text \<open>\<open>if (cb != NULL) cb (\<dots>)\<close>.\<close>

definition call_opt :: "('w \<Rightarrow> 'w) option \<Rightarrow> 'w \<Rightarrow> 'w" where
  "call_opt f w = (case f of None \<Rightarrow> w | Some g \<Rightarrow> g w)"

definition aid_router_field_off ::
  "('p \<Rightarrow> 'w nfc_service) \<Rightarrow> 'p aid_router \<times> 'w \<Rightarrow> 'p aid_router \<times> 'w" where
  "aid_router_field_off sv rw = (case rw of (r, w) \<Rightarrow>
     (inc_field_off (r\<lparr>rt_active := None\<rparr>),
      (case rt_active r of None \<Rightarrow> w | Some p \<Rightarrow> call_opt (svc_on_field_off (sv p)) w)))"

definition aid_router_select ::
  "('p \<Rightarrow> 'w nfc_service) \<Rightarrow> 'p option \<Rightarrow> bytes \<Rightarrow> 'p aid_router \<times> 'w \<Rightarrow> 'p aid_router \<times> 'w" where
  "aid_router_select sv svc aid rw = (case rw of (r, w) \<Rightarrow>
     let w1 = (case rt_active r of
                 Some q \<Rightarrow> if Some q \<noteq> svc then call_opt (svc_on_deselect (sv q)) w else w
               | None \<Rightarrow> w);
         w2 = (case svc of Some p \<Rightarrow> call_opt (map_option (\<lambda>f. f aid) (svc_on_select (sv p))) w1
               | None \<Rightarrow> w1)
     in (inc_select_matched (r\<lparr>rt_active := svc\<rparr>), w2))"

definition aid_router_dispatch ::
  "('p \<Rightarrow> 'w nfc_service) \<Rightarrow> (bytes \<Rightarrow> 'w \<Rightarrow> unit result \<times> 'w) \<Rightarrow> nfc_apdu option
    \<Rightarrow> 'p aid_router \<times> 'w \<Rightarrow> 'p aid_router \<times> 'w" where
  "aid_router_dispatch sv send apdu rw = (case rw of (r, w) \<Rightarrow> (case apdu of
     None \<Rightarrow> (aid_stats_error EINVAL r, w)
   | Some a \<Rightarrow>
     if rt_state r \<noteq> INITIALIZED then (aid_stats_error ENODEV r, w)
     else if apdu_is_select_by_aid a then
       (case apdu_data a of
          None \<Rightarrow> apfst inc_select_unmatched (aid_router_send_sw send NFC_SW_FILE_NOT_FOUND (r, w))
        | Some d \<Rightarrow> (case find_aid r d (ucast (apdu_lc a)) of
            None \<Rightarrow> apfst inc_select_unmatched (aid_router_send_sw send NFC_SW_FILE_NOT_FOUND (r, w))
          | Some e \<Rightarrow> aid_router_select sv (ent_svc e) (take (unat (apdu_lc a)) d) (r, w)))
     else (case rt_active r of
        None \<Rightarrow> apfst inc_apdu_no_service (aid_router_send_sw send NFC_SW_NO_EF (r, w))
      | Some p \<Rightarrow> (inc_apdu_routed r,
                  call_opt (map_option (\<lambda>f. f a) (svc_on_apdu (sv p))) w))))"

section \<open>Invariant\<close>

definition entry_ok :: "'p aid_router_entry \<Rightarrow> bool" where
  "entry_ok e \<longleftrightarrow> 0 < unat (ent_aid_len e) \<and> unat (ent_aid_len e) \<le> NFC_AID_MAX_LEN \<and> ent_svc e \<noteq> None"

definition live_entries :: "'p aid_router \<Rightarrow> 'p aid_router_entry list" where
  "live_entries r = take (unat (rt_table_count r)) (rt_table r)"

definition router_inv :: "'p aid_router \<Rightarrow> bool" where
  "router_inv r \<longleftrightarrow>
     length (rt_table r) = CONFIG_NFC_ROUTER_MAX_AIDS \<and>
     unat (rt_table_count r) \<le> unat (rt_max_aids r) \<and>
     unat (rt_max_aids r) \<le> CONFIG_NFC_ROUTER_MAX_AIDS \<and>
     (\<forall>e \<in> set (rt_table r). length (ent_aid e) = NFC_AID_MAX_LEN) \<and>
     (\<forall>e \<in> set (live_entries r). entry_ok e) \<and>
     (rt_state r = INITIALIZED \<longrightarrow> unat (rt_max_aids r) = CONFIG_NFC_ROUTER_MAX_AIDS) \<and>
     (\<forall>p. rt_active r = Some p \<longrightarrow> Some p \<in> ent_svc ` set (live_entries r))"

lemma router_inv_stats [simp]:
  "router_inv (aid_stats_upd f r) = router_inv r"
  "router_inv (aid_stats_error e r) = router_inv r"
  by (simp_all add: router_inv_def live_entries_def aid_stats_upd_def aid_stats_error_def)

lemma aid_stats_proj [simp]:
  "rt_active (aid_stats_upd f r) = rt_active r" "rt_active (aid_stats_error e r) = rt_active r"
  "rt_state (aid_stats_upd f r) = rt_state r" "rt_state (aid_stats_error e r) = rt_state r"
  "live_entries (aid_stats_upd f r) = live_entries r"
  "live_entries (aid_stats_error e r) = live_entries r"
  by (simp_all add: aid_stats_upd_def aid_stats_error_def live_entries_def)

lemma router_inv_boot: "router_inv aid_router_boot"
  by (auto simp: router_inv_def aid_router_boot_def live_entries_def CONFIG_NFC_ROUTER_MAX_AIDS_def)

lemma router_inv_init: "router_inv r \<Longrightarrow> router_inv (snd (aid_router_init r))"
  by (auto simp: router_inv_def aid_router_init_def live_entries_def CONFIG_NFC_ROUTER_MAX_AIDS_def)

lemma router_inv_shutdown: "router_inv r \<Longrightarrow> router_inv (snd (aid_router_shutdown r))"
  by (auto simp: router_inv_def aid_router_shutdown_def live_entries_def)

lemma router_inv_clear: "router_inv r \<Longrightarrow> router_inv (aid_router_clear r)"
  by (auto simp: router_inv_def aid_router_clear_def live_entries_def)

lemma router_inv_field_off:
  "router_inv r \<Longrightarrow> router_inv (fst (aid_router_field_off sv (r, w)))"
  by (simp add: aid_router_field_off_def) (simp add: router_inv_def live_entries_def)

text \<open>A successful registration writes one free slot and leaves the others alone.\<close>

lemma aid_router_register_live:
  assumes inv: "router_inv r" and st: "rt_state r = INITIALIZED"
    and a: "a \<noteq> []" "length a \<le> NFC_AID_MAX_LEN"
    and room: "length (live_entries r) < CONFIG_NFC_ROUTER_MAX_AIDS"
  obtains r' e where "aid_router_register (Some a) (Some p) r = (Inr (), r')"
    "live_entries r' = live_entries r @ [e]" "router_inv r'" "rt_state r' = INITIALIZED"
    "entry_ok e" "take (unat (ent_aid_len e)) (ent_aid e) = a" "ent_svc e = Some p"
    "rt_active r' = rt_active r"
proof -
  let ?i = "unat (rt_table_count r)"
  let ?e = "\<lparr>ent_aid = memcpy_at (ent_aid (rt_table r ! ?i)) 0 a,
              ent_aid_len = (of_nat (length a) :: u8), ent_svc = Some p\<rparr>"
  let ?r' = "r\<lparr>rt_table := (rt_table r)[?i := ?e], rt_table_count := rt_table_count r + 1\<rparr>"
  from inv st have len: "length (rt_table r) = CONFIG_NFC_ROUTER_MAX_AIDS"
    and mx: "unat (rt_max_aids r) = CONFIG_NFC_ROUTER_MAX_AIDS"
    and le: "?i \<le> CONFIG_NFC_ROUTER_MAX_AIDS"
    by (auto simp: router_inv_def)
  with room have i: "?i < CONFIG_NFC_ROUTER_MAX_AIDS" "?i < length (rt_table r)"
    by (auto simp: live_entries_def)
  have suc: "unat (rt_table_count r + 1) = Suc ?i"
    using i by (simp add: unat_word_ariths CONFIG_NFC_ROUTER_MAX_AIDS_def)
  have al: "unat (of_nat (length a) :: u8) = length a"
    using a by (simp add: unat_of_nat)
  have e16: "length (ent_aid (rt_table r ! ?i)) = NFC_AID_MAX_LEN"
    using inv i by (simp add: router_inv_def)
  have live: "live_entries ?r' = live_entries r @ [?e]"
    using i by (simp add: live_entries_def suc take_Suc_conv_app_nth)
  have e: "entry_ok ?e" "take (unat (ent_aid_len ?e)) (ent_aid ?e) = a"
    using a al e16 by (auto simp: entry_ok_def memcpy_at_0)
  have inv': "router_inv ?r'"
    using inv a al e16 e(1) i mx suc live
    by (auto simp: router_inv_def memcpy_at_0 dest!: set_update_subset_insert [THEN subsetD]
        split: option.splits)
  have "aid_router_register (Some a) (Some p) r = (Inr (), ?r')"
    using st a i mx by (auto simp: aid_router_register_def Let_def word_le_nat_alt)
  with live inv' e st show ?thesis
    by (intro that [of ?r' ?e]) simp_all
qed

lemma router_inv_register: "router_inv r \<Longrightarrow> router_inv (snd (aid_router_register aid svc r))"
proof -
  assume inv: "router_inv r"
  consider (ok) a s where "aid = Some a" "svc = Some s" "rt_state r = INITIALIZED" "a \<noteq> []"
      "length a \<le> NFC_AID_MAX_LEN" "rt_table_count r < rt_max_aids r"
    | (bad) "snd (aid_router_register aid svc r) = r \<or>
             snd (aid_router_register aid svc r) = inc_table_full r"
    by (fastforce simp: aid_router_register_def Let_def split: option.splits)
  then show ?thesis
  proof cases
    case ok
    then have "length (live_entries r) < CONFIG_NFC_ROUTER_MAX_AIDS"
      using inv by (auto simp: router_inv_def live_entries_def word_less_nat_alt)
    then show ?thesis
      using aid_router_register_live [OF inv, of a s] ok by (metis snd_conv)
  next
    case bad
    then show ?thesis using inv by auto
  qed
qed

section \<open>Abstract contract\<close>

text \<open>The registered AIDs as a finite map; the first registration of an AID wins.\<close>

definition aid_map :: "'p aid_router \<Rightarrow> bytes \<Rightarrow> 'p option" where
  "aid_map r = map_of (map (\<lambda>e. (take (unat (ent_aid_len e)) (ent_aid e), the (ent_svc e)))
     (live_entries r))"

datatype 'p route_action =
    Act_Deselect 'p | Act_Select 'p bytes | Act_Deliver 'p nfc_apdu | Act_Status nat

text \<open>What an APDU does, given the map and the selected service.\<close>

definition route_spec ::
  "(bytes \<Rightarrow> 'p option) \<Rightarrow> nfc_apdu \<Rightarrow> 'p option \<Rightarrow> 'p option \<times> 'p route_action list" where
  "route_spec m a cur =
     (if apdu_is_select_by_aid a then
        (case m (apdu_body a) of
           None \<Rightarrow> (cur, [Act_Status NFC_SW_FILE_NOT_FOUND])
         | Some p \<Rightarrow> (Some p, (case cur of None \<Rightarrow> [] | Some q \<Rightarrow> if q = p then [] else [Act_Deselect q])
                             @ [Act_Select p (apdu_body a)]))
      else (case cur of
           None \<Rightarrow> (None, [Act_Status NFC_SW_NO_EF])
         | Some p \<Rightarrow> (Some p, [Act_Deliver p a])))"

fun run_action ::
  "('p \<Rightarrow> 'w nfc_service) \<Rightarrow> (bytes \<Rightarrow> 'w \<Rightarrow> unit result \<times> 'w) \<Rightarrow> 'p route_action \<Rightarrow> 'w \<Rightarrow> 'w" where
  "run_action sv send (Act_Deselect p) w = call_opt (svc_on_deselect (sv p)) w"
| "run_action sv send (Act_Select p aid) w =
     call_opt (map_option (\<lambda>f. f aid) (svc_on_select (sv p))) w"
| "run_action sv send (Act_Deliver p a) w =
     call_opt (map_option (\<lambda>f. f a) (svc_on_apdu (sv p))) w"
| "run_action sv send (Act_Status sw) w = snd (send (sw_bytes sw) w)"

lemma find_aid_map_of:
  assumes "\<forall>e \<in> set es. entry_ok e" "\<forall>e \<in> set es. length (ent_aid e) = NFC_AID_MAX_LEN"
    and d: "unat l \<le> length d"
  shows "map_option ent_svc (List.find (\<lambda>e. ent_aid_len e = l \<and>
            take (unat l) (ent_aid e) = take (unat l) d) es) =
         map_option Some (map_of (map (\<lambda>e. (take (unat (ent_aid_len e)) (ent_aid e), the (ent_svc e))) es)
            (take (unat l) d))"
  using assms(1,2)
proof (induction es)
  case Nil
  then show ?case by simp
next
  case (Cons e es)
  have key: "ent_aid_len e = l" if eq: "take (unat (ent_aid_len e)) (ent_aid e) = take (unat l) d"
  proof -
    have "unat (ent_aid_len e) = unat l"
      using arg_cong [OF eq, of length] Cons.prems d by (auto simp: entry_ok_def)
    then show ?thesis by (rule unsigned_word_eqI)
  qed
  show ?case
  proof (cases "take (unat (ent_aid_len e)) (ent_aid e) = take (unat l) d")
    case True
    with key Cons.prems show ?thesis by (auto simp: entry_ok_def)
  next
    case False
    then have "\<not> (ent_aid_len e = l \<and> take (unat l) (ent_aid e) = take (unat l) d)"
      by metis
    then have "List.find (\<lambda>e. ent_aid_len e = l \<and> take (unat l) (ent_aid e) = take (unat l) d) (e # es)
        = List.find (\<lambda>e. ent_aid_len e = l \<and> take (unat l) (ent_aid e) = take (unat l) d) es"
      by (simp only: find.simps if_False)
    moreover have "(take (unat l) d = take (unat (ent_aid_len e)) (ent_aid e)) = False"
      using False by metis
    ultimately show ?thesis using Cons by (simp del: find.simps)
  qed
qed

text \<open>The linear scan of \<open>find_aid\<close> computes the abstract map.\<close>

lemma find_aid_refines:
  assumes "router_inv r" "unat l \<le> length d"
  shows "map_option ent_svc (find_aid r d l) = map_option Some (aid_map r (take (unat l) d))"
proof -
  have sub: "set (live_entries r) \<subseteq> set (rt_table r)"
    by (simp add: live_entries_def set_take_subset)
  show ?thesis
    unfolding find_aid_def aid_map_def live_entries_def [symmetric]
    by (rule find_aid_map_of) (use assms sub in \<open>auto simp: router_inv_def\<close>)
qed

lemma aid_router_send_sw_state:
  "aid_router_send_sw send sw (r, w) =
     ((case fst (send (sw_bytes sw) w) of Inl e \<Rightarrow> aid_stats_error e r | Inr _ \<Rightarrow> r),
      snd (send (sw_bytes sw) w))"
  by (cases "send (sw_bytes sw) w") (auto simp: aid_router_send_sw_def split: sum.splits)

lemma aid_map_stats [simp]:
  "aid_map (aid_stats_upd f r) = aid_map r" "aid_map (aid_stats_error e r) = aid_map r"
  by (simp_all add: aid_map_def)

lemma aid_map_active [simp]: "aid_map (r\<lparr>rt_active := x\<rparr>) = aid_map r"
  by (simp add: aid_map_def live_entries_def)

lemma ucast_u16_u8_unat: "unat (x :: u16) < 256 \<Longrightarrow> unat (ucast x :: u8) = unat x"
  by (simp add: unsigned_ucast_eq take_bit_nat_eq_self)

lemma aid_router_dispatch_refines:
  assumes inv: "router_inv r" and st: "rt_state r = INITIALIZED" and fr: "apdu_in_frame a"
  shows "case route_spec (aid_map r) a (rt_active r) of (cur', acts) \<Rightarrow>
    (case aid_router_dispatch sv send (Some a) (r, w) of (r', w') \<Rightarrow>
       rt_active r' = cur' \<and> w' = fold (run_action sv send) acts w \<and>
       aid_map r' = aid_map r \<and> rt_state r' = INITIALIZED)"
proof (cases "apdu_is_select_by_aid a")
  case True
  then have "apdu_lc a \<noteq> 0"
    by (auto simp: apdu_is_select_by_aid_def)
  with fr obtain d where d: "apdu_data a = Some d" and l: "unat (apdu_lc a) \<le> length d"
    and l256: "unat (apdu_lc a) < 256"
    by (auto simp: apdu_in_frame_def split: option.splits)
  have l8: "unat (ucast (apdu_lc a) :: u8) = unat (apdu_lc a)"
    using l256 by (rule ucast_u16_u8_unat)
  have f: "map_option ent_svc (find_aid r d (ucast (apdu_lc a))) =
      map_option Some (aid_map r (apdu_body a))"
    using find_aid_refines [OF inv, of "ucast (apdu_lc a)" d] l l8 d by (simp add: apdu_body_def)
  show ?thesis
  proof (cases "aid_map r (apdu_body a)")
    case None
    with f have "find_aid r d (ucast (apdu_lc a)) = None"
      by simp
    with True None d st show ?thesis
      by (simp add: aid_router_dispatch_def route_spec_def aid_router_send_sw_state split: sum.splits)
  next
    case (Some p)
    with f obtain e where "find_aid r d (ucast (apdu_lc a)) = Some e" "ent_svc e = Some p"
      by auto
    with True Some d st show ?thesis
      by (auto simp: aid_router_dispatch_def route_spec_def aid_router_select_def Let_def
          apdu_body_def split: option.splits)
  qed
next
  case False
  with st show ?thesis
    by (auto simp: aid_router_dispatch_def route_spec_def aid_router_send_sw_state
        split: option.splits sum.splits)
qed

lemma router_inv_dispatch:
  assumes inv: "router_inv r"
  shows "router_inv (fst (aid_router_dispatch sv send apdu (r, w)))"
proof -
  have sel: "router_inv (fst (aid_router_select sv (ent_svc e) x (r, w)))"
    if "find_aid r d l = Some e" for e d x l
  proof -
    from that have "e \<in> set (live_entries r)"
      by (auto simp: find_aid_def live_entries_def find_Some_iff in_set_conv_nth)
    with inv show ?thesis
      by (simp add: aid_router_select_def Let_def)
        (auto simp: router_inv_def live_entries_def intro: rev_image_eqI)
  qed
  show ?thesis
    using inv sel
    by (auto simp: aid_router_dispatch_def aid_router_send_sw_state split: option.splits sum.splits)
qed

section \<open>All histories of the module\<close>

inductive aid_router_step ::
  "('p \<Rightarrow> 'w nfc_service) \<Rightarrow> (bytes \<Rightarrow> 'w \<Rightarrow> unit result \<times> 'w)
    \<Rightarrow> 'p aid_router \<times> 'w \<Rightarrow> 'p aid_router \<times> 'w \<Rightarrow> bool"
  for sv send where
  step_init: "aid_router_step sv send (r, w) (snd (aid_router_init r), w)"
| step_shutdown: "aid_router_step sv send (r, w) (snd (aid_router_shutdown r), w)"
| step_register: "aid_router_step sv send (r, w) (snd (aid_router_register aid svc r), w)"
| step_clear: "aid_router_step sv send (r, w) (aid_router_clear r, w)"
| step_field_off: "aid_router_step sv send rw (aid_router_field_off sv rw)"
| step_dispatch: "aid_router_step sv send rw (aid_router_dispatch sv send apdu rw)"
| step_environment: "aid_router_step sv send (r, w) (r, w')"

inductive aid_router_reachable ::
  "('p \<Rightarrow> 'w nfc_service) \<Rightarrow> (bytes \<Rightarrow> 'w \<Rightarrow> unit result \<times> 'w) \<Rightarrow> 'p aid_router \<times> 'w \<Rightarrow> bool"
  for sv send where
  reach_boot: "aid_router_reachable sv send (aid_router_boot, w)"
| reach_step: "aid_router_reachable sv send rw \<Longrightarrow> aid_router_step sv send rw rw'
    \<Longrightarrow> aid_router_reachable sv send rw'"

lemma aid_router_step_inv:
  "aid_router_step sv send rw rw' \<Longrightarrow> router_inv (fst rw) \<Longrightarrow> router_inv (fst rw')"
  by (induction rule: aid_router_step.induct)
    (auto simp: router_inv_init router_inv_shutdown router_inv_register router_inv_clear
      intro: router_inv_field_off router_inv_dispatch)

section \<open>The registration interface\<close>

text \<open>
  What a client that registers services relies on: a registration with room left succeeds, and
  extends the lookup without changing what earlier registrations answer.
\<close>

locale aid_registry =
  fixes register :: "bytes \<Rightarrow> 'p \<Rightarrow> 'r \<Rightarrow> unit result \<times> 'r"
    and lookup :: "'r \<Rightarrow> bytes \<Rightarrow> 'p option"
    and used :: "'r \<Rightarrow> nat"
    and capacity :: nat
    and invar :: "'r \<Rightarrow> bool"
  assumes register_ok: "invar r \<Longrightarrow> a \<noteq> [] \<Longrightarrow> length a \<le> NFC_AID_MAX_LEN \<Longrightarrow> used r < capacity \<Longrightarrow>
     \<exists>r'. register a p r = (Inr (), r') \<and> invar r' \<and> used r' = Suc (used r) \<and>
       lookup r' = (\<lambda>b. case lookup r b of Some q \<Rightarrow> Some q | None \<Rightarrow> if b = a then Some p else None)"

text \<open>A run of registrations that stops at the first error.\<close>

fun register_seq ::
  "('a \<Rightarrow> 'p \<Rightarrow> 'r \<Rightarrow> unit result \<times> 'r) \<Rightarrow> ('a \<times> 'p) list \<Rightarrow> 'r \<Rightarrow> unit result \<times> 'r" where
  "register_seq reg [] r = (Inr (), r)"
| "register_seq reg ((a, p) # xs) r =
     (case reg a p r of (Inl e, r') \<Rightarrow> (Inl e, r') | (Inr _, r') \<Rightarrow> register_seq reg xs r')"

context aid_registry
begin

lemma register_seq_ok:
  assumes "invar r" "\<forall>(a, p) \<in> set xs. a \<noteq> [] \<and> length a \<le> NFC_AID_MAX_LEN"
    "used r + length xs \<le> capacity"
  shows "\<exists>r'. register_seq register xs r = (Inr (), r') \<and> invar r' \<and> used r' = used r + length xs \<and>
     lookup r' = (\<lambda>b. case lookup r b of Some q \<Rightarrow> Some q | None \<Rightarrow> map_of xs b)"
  using assms
proof (induction xs arbitrary: r)
  case Nil
  then show ?case by (auto intro!: ext split: option.splits)
next
  case (Cons x xs)
  obtain a p where x: "x = (a, p)" by (cases x)
  from Cons.prems x register_ok [of r a p] obtain r1 where r1: "register a p r = (Inr (), r1)" "invar r1"
    "used r1 = Suc (used r)"
    "lookup r1 = (\<lambda>b. case lookup r b of Some q \<Rightarrow> Some q | None \<Rightarrow> if b = a then Some p else None)"
    by auto
  with Cons.prems x Cons.IH [of r1] show ?case
    by (auto intro!: ext split: option.splits)
qed

end

interpretation aidreg: aid_registry "\<lambda>a p. aid_router_register (Some a) (Some p)" aid_map
  "\<lambda>r. length (live_entries r)" CONFIG_NFC_ROUTER_MAX_AIDS
  "\<lambda>r. router_inv r \<and> rt_state r = INITIALIZED"
proof (unfold_locales, goal_cases)
  case (1 r a p)
  then have pre: "router_inv r" "rt_state r = INITIALIZED" by simp_all
  show ?case
  proof (rule aid_router_register_live [OF pre 1(2-4), of p])
    fix r' e
    assume r': "aid_router_register (Some a) (Some p) r = (Inr (), r')"
      "live_entries r' = live_entries r @ [e]" "router_inv r'" "rt_state r' = INITIALIZED"
      and e: "take (unat (ent_aid_len e)) (ent_aid e) = a" "ent_svc e = Some p"
    have "aid_map r' = (\<lambda>b. case aid_map r b of Some q \<Rightarrow> Some q | None \<Rightarrow> if b = a then Some p else None)"
      using r'(2) e by (simp add: aid_map_def map_add_def fun_eq_iff split: option.splits)
    with r' show ?thesis by simp
  qed
qed

section \<open>Properties\<close>

text \<open>C13. Whatever sequence of calls is made and however the services and the transport behave, every
  reachable router state is well formed: the live prefix of the table holds valid entries and the
  selected service is registered.\<close>

theorem aid_router_reachable_inv: "aid_router_reachable sv send rw \<Longrightarrow> router_inv (fst rw)"
  by (induction rule: aid_router_reachable.induct) (auto simp: router_inv_boot intro: aid_router_step_inv)

theorem aid_router_reachable_inv_witness:
  "router_inv (snd (aid_router_init (aid_router_boot :: nat aid_router)))"
  using aid_router_reachable_inv [OF reach_step [OF reach_boot step_init]] by fastforce

text \<open>Registering a list of services that fits the table succeeds, and the router then looks an AID
  up exactly as the list does, the first registration of an AID winning.\<close>

theorem aid_router_registers:
  assumes "\<forall>(a, p) \<in> set xs. a \<noteq> [] \<and> length a \<le> NFC_AID_MAX_LEN" "length xs \<le> CONFIG_NFC_ROUTER_MAX_AIDS"
  shows "\<exists>r. register_seq (\<lambda>a p. aid_router_register (Some a) (Some p)) xs
      (snd (aid_router_init aid_router_boot)) = (Inr (), r) \<and> router_inv r \<and> aid_map r = map_of xs"
proof -
  let ?r = "snd (aid_router_init aid_router_boot) :: 'a aid_router"
  have r: "router_inv ?r" "rt_state ?r = INITIALIZED" "live_entries ?r = []"
    using router_inv_init [OF router_inv_boot]
    by (simp_all add: aid_router_init_def aid_router_boot_def live_entries_def)
  have m: "aid_map ?r = Map.empty" using r(3) by (simp add: aid_map_def)
  show ?thesis
    using aidreg.register_seq_ok [of ?r xs] assms r m by (auto simp: fun_eq_iff)
qed

theorem aid_router_registers_witness:
  "\<exists>r. register_seq (\<lambda>a p. aid_router_register (Some a) (Some p)) [([0xD2, 0x76], True), ([0xA0], False)]
      (snd (aid_router_init aid_router_boot)) = (Inr (), r) \<and> aid_map r [0xA0] = Some False"
  using aid_router_registers [of "[([0xD2, 0x76], True), ([0xA0], False)]"]
  by (auto simp: CONFIG_NFC_ROUTER_MAX_AIDS_def)

end
