(* ===== verification/Apdu_Assembler.thy ===== *)
theory Apdu_Assembler
  imports Aid_Router
begin

text \<open>
  The inbound half of the listen path (\<open>framing/apdu_assembler.c\<close>): the transport callbacks that
  parse a received frame and hand it to the router.  The handler owns the \<open>net_buf\<close> it is given;
  the number of \<open>net_buf_unref\<close> calls it makes is part of its result.
\<close>

record apdu_assembler_stats =
  fs_error_count :: u32
  fs_last_error_code :: "errno option"
  fs_apdu_rx_count :: u32
  fs_apdu_parse_ok_count :: u32
  fs_apdu_parse_reject_count :: u32
  fs_field_on_count :: u32
  fs_field_off_count :: u32

record apdu_assembler =
  fa_extended_apdu_support :: bool
  fa_stats :: apdu_assembler_stats
  fa_state :: module_state

definition CONFIG_NFC_APDU_EXTENDED_SUPPORT :: bool where
  "CONFIG_NFC_APDU_EXTENDED_SUPPORT = False"

definition apdu_assembler_stats_zero :: apdu_assembler_stats where
  "apdu_assembler_stats_zero = \<lparr>fs_error_count = 0, fs_last_error_code = None, fs_apdu_rx_count = 0,
     fs_apdu_parse_ok_count = 0, fs_apdu_parse_reject_count = 0, fs_field_on_count = 0,
     fs_field_off_count = 0\<rparr>"

definition apdu_assembler_boot :: apdu_assembler where
  "apdu_assembler_boot = \<lparr>fa_extended_apdu_support = CONFIG_NFC_APDU_EXTENDED_SUPPORT,
     fa_stats = apdu_assembler_stats_zero, fa_state = UNINITIALIZED\<rparr>"

definition fa_upd :: "(apdu_assembler_stats \<Rightarrow> apdu_assembler_stats) \<Rightarrow> apdu_assembler \<Rightarrow> apdu_assembler" where
  "fa_upd f s = s\<lparr>fa_stats := f (fa_stats s)\<rparr>"

abbreviation "inc_apdu_rx \<equiv> fa_upd (fs_apdu_rx_count_update (\<lambda>n. n + 1))"
abbreviation "inc_parse_ok \<equiv> fa_upd (fs_apdu_parse_ok_count_update (\<lambda>n. n + 1))"
abbreviation "inc_parse_reject \<equiv> fa_upd (fs_apdu_parse_reject_count_update (\<lambda>n. n + 1))"
abbreviation "inc_field_on \<equiv> fa_upd (fs_field_on_count_update (\<lambda>n. n + 1))"
abbreviation "inc_asm_field_off \<equiv> fa_upd (fs_field_off_count_update (\<lambda>n. n + 1))"

definition apdu_assembler_init :: "bool option \<Rightarrow> apdu_assembler \<Rightarrow> unit result \<times> apdu_assembler" where
  "apdu_assembler_init cfg s = (if fa_state s = INITIALIZED then (Inl EALREADY, s)
     else (Inr (), s\<lparr>fa_stats := apdu_assembler_stats_zero,
       fa_extended_apdu_support := (case cfg of Some b \<Rightarrow> b | None \<Rightarrow> CONFIG_NFC_APDU_EXTENDED_SUPPORT),
       fa_state := INITIALIZED\<rparr>))"

definition apdu_assembler_shutdown :: "apdu_assembler \<Rightarrow> unit result \<times> apdu_assembler" where
  "apdu_assembler_shutdown s = (Inr (), s\<lparr>fa_state := UNINITIALIZED\<rparr>)"

definition apdu_assembler_on_field_on_handler :: "apdu_assembler \<Rightarrow> apdu_assembler" where
  "apdu_assembler_on_field_on_handler s = inc_field_on s"

definition apdu_assembler_on_field_off_handler ::
  "('p \<Rightarrow> 'w nfc_service) \<Rightarrow> apdu_assembler \<times> 'p aid_router \<times> 'w \<Rightarrow> apdu_assembler \<times> 'p aid_router \<times> 'w" where
  "apdu_assembler_on_field_off_handler sv srw = (case srw of (s, r, w) \<Rightarrow>
     (inc_asm_field_off s, aid_router_field_off sv (r, w)))"

text \<open>The result's second component counts the \<open>net_buf_unref\<close> calls.\<close>

definition apdu_assembler_on_apdu_handler ::
  "('p \<Rightarrow> 'w nfc_service) \<Rightarrow> (bytes \<Rightarrow> 'w \<Rightarrow> unit result \<times> 'w) \<Rightarrow> bytes option
    \<Rightarrow> apdu_assembler \<times> 'p aid_router \<times> 'w \<Rightarrow> (apdu_assembler \<times> 'p aid_router \<times> 'w) \<times> nat" where
  "apdu_assembler_on_apdu_handler sv send apdu srw = (case srw of (s, r, w) \<Rightarrow> (case apdu of
     None \<Rightarrow> ((s, r, w), 0)
   | Some d \<Rightarrow>
     if fa_state s \<noteq> INITIALIZED then ((s, r, w), 1)
     else
       let s1 = inc_apdu_rx s in
       (case apdu_parse (Some d) (fa_extended_apdu_support s1) of
          Inl _ \<Rightarrow> ((inc_parse_reject s1, r, snd (send (sw_bytes NFC_SW_WRONG_LENGTH) w)), 1)
        | Inr a \<Rightarrow> ((inc_parse_ok s1, aid_router_dispatch sv send (Some a) (r, w)), 1))))"

section \<open>Correctness\<close>

text \<open>C5. The framing layer and the router together implement the routing contract: a received frame is
  released exactly once; a frame that does not parse is answered 6700 and leaves the router alone; a
  parsed one changes the selected service and calls the services and the transport as the contract over
  the finite map of registered AIDs says.  The router's narrowing of the 16-bit Lc to an 8-bit AID
  length never loses a bit.\<close>

theorem apdu_assembler_routes:
  assumes "fa_state s = INITIALIZED" "router_inv r" "rt_state r = INITIALIZED"
  shows "case apdu_assembler_on_apdu_handler sv send (Some d) (s, r, w) of ((s', r', w'), n) \<Rightarrow>
    n = 1 \<and> aid_map r' = aid_map r \<and>
    (case apdu_parse (Some d) (fa_extended_apdu_support s) of
       Inl _ \<Rightarrow> r' = r \<and> w' = snd (send (sw_bytes NFC_SW_WRONG_LENGTH) w)
     | Inr a \<Rightarrow> (rt_active r', w') = (case route_spec (aid_map r) a (rt_active r) of
         (cur, acts) \<Rightarrow> (cur, fold (run_action sv send) acts w)))"
proof (cases "apdu_parse (Some d) (fa_extended_apdu_support s)")
  case (Inl e)
  with assms show ?thesis
    by (simp add: apdu_assembler_on_apdu_handler_def Let_def fa_upd_def)
next
  case (Inr a)
  have "apdu_in_frame a"
    using Inr by (rule apdu_parse_in_frame)
  from aid_router_dispatch_refines [OF assms(2,3) this, of sv send w] show ?thesis
    using assms Inr
    by (auto simp: apdu_assembler_on_apdu_handler_def Let_def fa_upd_def split: prod.splits)
qed

theorem apdu_assembler_routes_witness:
  "\<exists>s r w. apdu_assembler_on_apdu_handler (\<lambda>_ :: nat. undefined) (\<lambda>b w. (Inr (), b # w)) (Some [0x00])
     (apdu_assembler_boot\<lparr>fa_state := INITIALIZED\<rparr>, snd (aid_router_init aid_router_boot), []) = ((s, r, w), 1) \<and>
     w = [sw_bytes NFC_SW_WRONG_LENGTH]"
proof -
  let ?s = "apdu_assembler_boot\<lparr>fa_state := INITIALIZED\<rparr>"
  let ?r = "snd (aid_router_init (aid_router_boot :: nat aid_router))"
  have r: "router_inv ?r" "rt_state ?r = INITIALIZED"
    using router_inv_init [OF router_inv_boot] by (simp_all add: aid_router_init_def)
  have p: "apdu_parse (Some [0x00]) (fa_extended_apdu_support ?s) = Inl APDU_PARSE_REJECT_TOO_SHORT"
    by (simp add: apdu_parse_def)
  obtain s' r' w' n where h: "apdu_assembler_on_apdu_handler (\<lambda>_ :: nat. undefined) (\<lambda>b w. (Inr (), b # w)) (Some [0x00])
      (?s, ?r, []) = ((s', r', w'), n)" by (metis surj_pair)
  from apdu_assembler_routes [OF _ r, where s = ?s and sv = "\<lambda>_. undefined" and send = "\<lambda>b w. (Inr (), b # w)"
      and d = "[0x00]" and w = "[]", unfolded h p] show ?thesis
    unfolding h by simp
qed

end
