(* ===== verification/Io_Steps.thy ===== *)
theory Io_Steps
  imports Nfc_Prelude
begin

text \<open>
  Sequences of fallible steps on an explicit state: \<open>io_bind\<close> is the
  \<open>ret = f (); if (ret != 0) return ret;\<close> of the sources, \<open>io_case\<close> the same with a handler for
  the error.  Triples with an error postcondition and their rules serve the safety proofs.
\<close>

section \<open>Fallible steps on a state\<close>

type_synonym ('s, 'a) io = "'s \<Rightarrow> 'a result \<times> 's"

definition io_return :: "'a \<Rightarrow> ('s, 'a) io" where
  "io_return x s = (Inr x, s)"

definition io_fail :: "errno \<Rightarrow> ('s, 'a) io" where
  "io_fail e s = (Inl e, s)"

definition io_bind :: "('s, 'a) io \<Rightarrow> ('a \<Rightarrow> ('s, 'b) io) \<Rightarrow> ('s, 'b) io" where
  "io_bind m f s = (case m s of (Inl e, s') \<Rightarrow> (Inl e, s') | (Inr x, s') \<Rightarrow> f x s')"

definition io_case :: "('s, 'a) io \<Rightarrow> (errno \<Rightarrow> ('s, 'b) io) \<Rightarrow> ('a \<Rightarrow> ('s, 'b) io) \<Rightarrow> ('s, 'b) io" where
  "io_case m h f s = (case m s of (Inl e, s') \<Rightarrow> h e s' | (Inr x, s') \<Rightarrow> f x s')"

text \<open>An update of the state that cannot fail, and \<open>if (!c) return -e;\<close>.\<close>

definition io_modify :: "('s \<Rightarrow> 's) \<Rightarrow> ('s, unit) io" where
  "io_modify f s = (Inr (), f s)"


definition io_check :: "bool \<Rightarrow> errno \<Rightarrow> ('s, unit) io" where
  "io_check c e = (if c then io_return () else io_fail e)"

text \<open>A step on the tag, and an assignment to the output structure, of a pair of both.\<close>

definition on_tag :: "('t, 'a) io \<Rightarrow> ('d \<times> 't, 'a) io" where
  "on_tag m dt = (case m (snd dt) of (r, t') \<Rightarrow> (r, (fst dt, t')))"

definition on_out :: "('d \<Rightarrow> 'd) \<Rightarrow> ('d \<times> 't, unit) io" where
  "on_out f dt = (Inr (), (f (fst dt), snd dt))"

named_theorems io_simps \<open>evaluation of fallible steps\<close>

lemma io_eval [io_simps]:
  "io_return x s = (Inr x, s)" "io_fail e s = (Inl e, s)"
  "io_check True e = io_return ()" "io_check False e = io_fail e"
  "on_out f (d, t) = (Inr (), (f d, t))"
  by (simp_all add: io_return_def io_fail_def io_check_def on_out_def)

lemma io_bind_Inr [io_simps]: "m s = (Inr x, s') \<Longrightarrow> io_bind m f s = f x s'"
  and io_bind_Inl [io_simps]: "m s = (Inl e, s') \<Longrightarrow> io_bind m f s = (Inl e, s')"
  by (simp_all add: io_bind_def)

lemma io_bind_simps [io_simps]:
  "io_bind (io_return x) f s = f x s" "io_bind (io_fail e) f s = (Inl e, s)"
  "io_bind (on_out g) f (d, t) = f () (g d, t)"
  "io_bind (io_check c e) f s = (if c then f () s else (Inl e, s))"
  by (simp_all add: io_bind_def io_return_def io_fail_def io_check_def on_out_def)

lemma io_case_simps [io_simps]:
  "m s = (Inr x, s') \<Longrightarrow> io_case m h f s = f x s'" "m s = (Inl e, s') \<Longrightarrow> io_case m h f s = h e s'"
  "io_bind (io_modify g) k s = k () (g s)" "io_modify g s = (Inr (), g s)"
  by (simp_all add: io_case_def io_bind_def io_modify_def)

lemma on_tag_pair: "on_tag m (d, t) = (fst (m t), (d, snd (m t)))"
  by (simp add: on_tag_def split: prod.split)

lemma io_bind_on_tag [io_simps]:
  "m t = (Inr x, t') \<Longrightarrow> io_bind (on_tag m) f (d, t) = f x (d, t')"
  by (simp add: io_bind_def on_tag_def)

text \<open>
  Partial-correctness triples with an error postcondition: from \<open>P\<close> a step returns a value with
  \<open>Q\<close>, or fails in a state with \<open>E\<close>.  Steps are total functions, so the triples lose nothing.
\<close>

definition io_hoare :: "('s \<Rightarrow> bool) \<Rightarrow> ('s, 'a) io \<Rightarrow> ('a \<Rightarrow> 's \<Rightarrow> bool) \<Rightarrow> ('s \<Rightarrow> bool) \<Rightarrow> bool" where
  "io_hoare P m Q E \<longleftrightarrow> (\<forall>s. P s \<longrightarrow> (case m s of (Inl _, s') \<Rightarrow> E s' | (Inr x, s') \<Rightarrow> Q x s'))"

lemma io_hoareD:
  "io_hoare P m Q E \<Longrightarrow> P s \<Longrightarrow> m s = (Inr x, s') \<Longrightarrow> Q x s'"
  "io_hoare P m Q E \<Longrightarrow> P s \<Longrightarrow> m s = (Inl e, s') \<Longrightarrow> E s'"
  by (auto simp: io_hoare_def)

lemma io_hoare_bind:
  assumes "io_hoare P m R E" "\<And>x. io_hoare (R x) (f x) Q E"
  shows "io_hoare P (io_bind m f) Q E"
  unfolding io_hoare_def io_bind_def
proof (intro allI impI)
  fix s assume "P s"
  obtain r s' where m: "m s = (r, s')" by fastforce
  show "case (case m s of (Inl e, s') \<Rightarrow> (Inl e, s') | (Inr x, s') \<Rightarrow> f x s') of
      (Inl _, s') \<Rightarrow> E s' | (Inr x, s') \<Rightarrow> Q x s'"
    using m io_hoareD [OF assms(1) \<open>P s\<close>] assms(2)
    by (cases r) (simp_all add: io_hoare_def)
qed

lemma io_hoare_basic:
  "(\<And>s. P s \<Longrightarrow> Q x s) \<Longrightarrow> io_hoare P (io_return x) Q E"
  "(\<And>s. P s \<Longrightarrow> E s) \<Longrightarrow> io_hoare P (io_fail e) Q E"
  "(\<And>s. P s \<Longrightarrow> E s) \<Longrightarrow> io_hoare P (io_check c e) (\<lambda>_ s. c \<and> P s) E"
  by (simp_all add: io_hoare_def io_check_def io_return_def io_fail_def)

text \<open>Sequencing rules for pairs of an output structure and a tag, in the shape of the pollers.\<close>

lemma io_hoare_tag_then:
  assumes "\<And>d. P d \<Longrightarrow> E d" "\<And>x. io_hoare (\<lambda>dt. P (fst dt)) (g x) R (\<lambda>dt. E (fst dt))"
  shows "io_hoare (\<lambda>dt. P (fst dt)) (io_bind (on_tag m) g) R (\<lambda>dt. E (fst dt))"
  by (rule io_hoare_bind [OF _ assms(2)])
    (auto simp: io_hoare_def on_tag_def assms(1) split: prod.splits sum.splits)

lemma io_hoare_out_then:
  assumes "\<And>d. P d \<Longrightarrow> Q (f d)" "io_hoare (\<lambda>dt. Q (fst dt)) (g ()) R E"
  shows "io_hoare (\<lambda>dt. P (fst dt)) (io_bind (on_out f) g) R E"
  using assms by (auto simp: io_hoare_def io_bind_simps)

lemma io_hoare_check_then:
  assumes "\<And>s. P s \<Longrightarrow> E s" "c \<Longrightarrow> io_hoare P (g ()) R E"
  shows "io_hoare P (io_bind (io_check c e) g) R E"
  using assms by (cases c) (simp_all add: io_hoare_def io_bind_def io_check_def io_return_def io_fail_def)

lemma io_hoare_if:
  "(c \<Longrightarrow> io_hoare P m Q E) \<Longrightarrow> (\<not> c \<Longrightarrow> io_hoare P n Q E) \<Longrightarrow> io_hoare P (if c then m else n) Q E"
  by simp

lemma io_hoare_out: "(\<And>d. P d \<Longrightarrow> Q (f d)) \<Longrightarrow> io_hoare (\<lambda>dt. P (fst dt)) (on_out f) (\<lambda>_ dt. Q (fst dt)) E"
  by (auto simp: io_hoare_def on_out_def)

lemma io_hoare_weaken:
  "io_hoare P m Q E \<Longrightarrow> (\<And>s. P' s \<Longrightarrow> P s) \<Longrightarrow> (\<And>x s. Q x s \<Longrightarrow> Q' x s) \<Longrightarrow> (\<And>s. E s \<Longrightarrow> E' s)
    \<Longrightarrow> io_hoare P' m Q' E'"
  by (fastforce simp: io_hoare_def split: prod.splits sum.splits)

text \<open>Steps that keep an invariant of the output structure, whatever the tag answers; \<open>gives\<close> bounds a step's value.\<close>

definition keeps :: "('d \<Rightarrow> bool) \<Rightarrow> ('d \<times> 't, 'a) io \<Rightarrow> bool" where
  "keeps I m \<longleftrightarrow> (\<forall>dt. I (fst dt) \<longrightarrow> I (fst (snd (m dt))))"

definition gives :: "('t, 'a) io \<Rightarrow> ('a \<Rightarrow> bool) \<Rightarrow> bool" where
  "gives m V \<longleftrightarrow> (\<forall>t. case fst (m t) of Inl _ \<Rightarrow> True | Inr x \<Rightarrow> V x)"

lemma keeps_basic [intro]: "keeps I (io_return x)" "keeps I (io_fail e)" "keeps I (on_tag m)" "keeps I (io_check c e)"
  by (simp_all add: keeps_def io_return_def io_fail_def on_tag_def io_check_def split: prod.split)

lemma keeps_out [intro]: "(\<And>d. I d \<Longrightarrow> I (f d)) \<Longrightarrow> keeps I (on_out f)"
  by (simp add: keeps_def on_out_def)

lemma keepsI: "(\<And>d t. I d \<Longrightarrow> I (fst (snd (m (d, t))))) \<Longrightarrow> keeps I m"
  by (auto simp: keeps_def)

lemma keepsD: "keeps I m \<Longrightarrow> I (fst dt) \<Longrightarrow> I (fst (snd (m dt)))"
  unfolding keeps_def by blast

lemma keeps_case:
  assumes "keeps I m" "\<And>e. keeps I (h e)" "\<And>x. keeps I (f x)"
  shows "keeps I (io_case m h f)"
proof (rule keepsI)
  fix d t assume "I d"
  obtain r dt' where m: "m (d, t) = (r, dt')" by (metis surj_pair)
  with keepsD [OF assms(1), of "(d, t)"] \<open>I d\<close> have "I (fst dt')" by simp
  with keepsD [OF assms(2)] keepsD [OF assms(3)] m show "I (fst (snd (io_case m h f (d, t))))"
    by (cases r) (simp_all add: io_case_def)
qed

lemma keeps_case_tag:
  assumes "gives m V" "\<And>e. keeps I (h e)" "\<And>x. V x \<Longrightarrow> keeps I (f x)"
  shows "keeps I (io_case (on_tag m) h f)"
proof (unfold keeps_def, intro allI impI)
  fix dt :: "'c \<times> 'a" assume i: "I (fst dt)"
  obtain r t' where m: "m (snd dt) = (r, t')" by fastforce
  show "I (fst (snd (io_case (on_tag m) h f dt)))"
  proof (cases r)
    case (Inr x)
    have "V x" using assms(1) m Inr unfolding gives_def by (metis fst_conv sum.case(2))
    from assms(3) [OF this] i m Inr show ?thesis by (simp add: io_case_def on_tag_def keeps_def)
  qed (use i m assms(2) in \<open>simp add: io_case_def on_tag_def keeps_def\<close>)
qed

lemma io_bind_case: "io_bind m f = io_case m io_fail f"
  by (rule ext) (simp add: io_bind_def io_case_def io_fail_def split: prod.split sum.split)

lemma keeps_bind: "keeps I m \<Longrightarrow> (\<And>x. keeps I (f x)) \<Longrightarrow> keeps I (io_bind m f)"
  unfolding io_bind_case by (intro keeps_case keeps_basic)

lemma keeps_if: "keeps I m \<Longrightarrow> keeps I n \<Longrightarrow> keeps I (if c then m else n)"
  by simp

end
