(* ===== verification/Card_Store.thy ===== *)
theory Card_Store
  imports Aid_Router Io_Steps
begin

text \<open>
  The card store (\<open>store/nfc_store.c\<close>): the \<open>.card\<close> envelope around the serialised models of the
  protocol services, with a CRC, and the save and load of a set of services through the
  registered backend callbacks.  \<open>'w\<close> is the state of everything outside the store: services and
  backend act on it.  \<open>crc\<close> is Zephyr's \<open>crc16_ccitt (0xFFFF, _, _)\<close>, a parameter: no property needs
  to know which function it is.  \<open>started\<close> is \<open>nfc_stack_get_state () == NFC_STACK_STATE_STARTED\<close>.
\<close>

section \<open>State\<close>

definition CONFIG_NFC_STORE_BLOB_SIZE :: nat where "CONFIG_NFC_STORE_BLOB_SIZE = 4096"
definition CONFIG_NFC_STORE_MAX_TAG_LEN :: nat where "CONFIG_NFC_STORE_MAX_TAG_LEN = 16"

abbreviation (input) NFC_STORE_BLOB_MAGIC_0 :: u8 where "NFC_STORE_BLOB_MAGIC_0 \<equiv> 0x4E"
abbreviation (input) NFC_STORE_BLOB_MAGIC_1 :: u8 where "NFC_STORE_BLOB_MAGIC_1 \<equiv> 0x46"
abbreviation (input) NFC_STORE_BLOB_VERSION_V1 :: u8 where "NFC_STORE_BLOB_VERSION_V1 \<equiv> 0x01"
abbreviation (input) NFC_STORE_BLOB_VERSION :: u8 where "NFC_STORE_BLOB_VERSION \<equiv> 0x02"
abbreviation (input) NFC_STORE_BLOB_HDR_SIZE :: nat where "NFC_STORE_BLOB_HDR_SIZE \<equiv> 6"
abbreviation (input) NFC_STORE_BLOB_CRC_SIZE :: nat where "NFC_STORE_BLOB_CRC_SIZE \<equiv> 2"
abbreviation (input) NFC_STORE_ENVELOPE_OVERHEAD :: nat where "NFC_STORE_ENVELOPE_OVERHEAD \<equiv> 8"
abbreviation (input) NFC_STORE_ENTRY_OVERHEAD_V1 :: nat where "NFC_STORE_ENTRY_OVERHEAD_V1 \<equiv> 3"
abbreviation (input) NFC_STORE_ENTRY_OVERHEAD :: nat where "NFC_STORE_ENTRY_OVERHEAD \<equiv> 4"
abbreviation (input) NFC_STORE_ENTRY_FLAG_READER_CAPTURED :: u8 where "NFC_STORE_ENTRY_FLAG_READER_CAPTURED \<equiv> 1"
abbreviation (input) NFC_STORE_ENTRY_FLAG_HAND_AUTHORED :: u8 where "NFC_STORE_ENTRY_FLAG_HAND_AUTHORED \<equiv> 2"
abbreviation (input) NFC_STORE_ENTRY_FLAG_EMULATION_COMPLETE :: u8 where "NFC_STORE_ENTRY_FLAG_EMULATION_COMPLETE \<equiv> 4"

record nfc_store_stats =
  ss_error_count :: u32
  ss_last_error_code :: "errno option"
  ss_save_count :: u32
  ss_load_count :: u32
  ss_serialize_skip_count :: u32
  ss_deserialize_skip_count :: u32
  ss_corrupt_blob_count :: u32
  ss_partial_load_count :: u32
  ss_live_commit_count :: u32

type_synonym 'w save_fn = "string \<Rightarrow> bytes \<Rightarrow> ('w, unit) io"
type_synonym 'w load_fn = "string \<Rightarrow> nat \<Rightarrow> ('w, bytes) io"
type_synonym 'w commit_fn = "'w nfc_service \<Rightarrow> string \<Rightarrow> ('w, unit) io"

record 'w nfc_store =
  so_max_tag_len :: u8
  so_stats :: nfc_store_stats
  so_state :: module_state
  so_staging_buf :: bytes
  so_serialize_buf :: bytes
  so_save_cb :: "'w save_fn option"
  so_load_cb :: "'w load_fn option"
  so_commit_cb :: "'w commit_fn option"
  so_resolved_max_tag_len :: u8

definition nfc_store_stats_zero :: nfc_store_stats where
  "nfc_store_stats_zero = \<lparr>ss_error_count = 0, ss_last_error_code = None, ss_save_count = 0,
     ss_load_count = 0, ss_serialize_skip_count = 0, ss_deserialize_skip_count = 0,
     ss_corrupt_blob_count = 0, ss_partial_load_count = 0, ss_live_commit_count = 0\<rparr>"

definition nfc_store_boot :: "'w nfc_store" where
  "nfc_store_boot = \<lparr>so_max_tag_len = 0, so_stats = nfc_store_stats_zero, so_state = UNINITIALIZED,
     so_staging_buf = replicate CONFIG_NFC_STORE_BLOB_SIZE 0,
     so_serialize_buf = replicate CONFIG_NFC_STORE_BLOB_SIZE 0,
     so_save_cb = None, so_load_cb = None, so_commit_cb = None, so_resolved_max_tag_len = 0\<rparr>"

type_synonym ('w, 'a) store_io = "('w nfc_store \<times> 'w, 'a) io"

text \<open>\<open>STATS_INC\<close> and \<open>STATS_ERROR\<close>.\<close>

definition st_inc :: "(nfc_store_stats \<Rightarrow> nfc_store_stats) \<Rightarrow> ('w, unit) store_io" where
  "st_inc f = io_modify (apfst (\<lambda>s. s\<lparr>so_stats := f (so_stats s)\<rparr>))"

definition st_error :: "errno \<Rightarrow> ('w, unit) store_io" where
  "st_error e = st_inc (\<lambda>t. t\<lparr>ss_error_count := ss_error_count t + 1, ss_last_error_code := Some e\<rparr>)"

abbreviation "inc_corrupt_blob \<equiv> st_inc (ss_corrupt_blob_count_update (\<lambda>n. n + 1))"
abbreviation "inc_serialize_skip \<equiv> st_inc (ss_serialize_skip_count_update (\<lambda>n. n + 1))"
abbreviation "inc_deserialize_skip \<equiv> st_inc (ss_deserialize_skip_count_update (\<lambda>n. n + 1))"
abbreviation "inc_partial_load \<equiv> st_inc (ss_partial_load_count_update (\<lambda>n. n + 1))"
abbreviation "inc_save \<equiv> st_inc (ss_save_count_update (\<lambda>n. n + 1))"
abbreviation "inc_load \<equiv> st_inc (ss_load_count_update (\<lambda>n. n + 1))"
abbreviation "inc_live_commit \<equiv> st_inc (ss_live_commit_count_update (\<lambda>n. n + 1))"

text \<open>A step of the outside world, and the writes to the two static buffers.\<close>

definition outside :: "('w, 'a) io \<Rightarrow> ('w, 'a) store_io" where
  "outside m sw = (case m (snd sw) of (r, w') \<Rightarrow> (r, (fst sw, w')))"

definition stage :: "nat \<Rightarrow> bytes \<Rightarrow> ('w, unit) store_io" where
  "stage pos b = io_modify (apfst (\<lambda>s. s\<lparr>so_staging_buf := memcpy_at (so_staging_buf s) pos b\<rparr>))"

definition stage_ser :: "bytes \<Rightarrow> ('w, unit) store_io" where
  "stage_ser b = io_modify (apfst (\<lambda>s. s\<lparr>so_serialize_buf := memcpy_at (so_serialize_buf s) 0 b\<rparr>))"

section \<open>Operations\<close>

definition nfc_store_default_save :: "'w save_fn" where
  "nfc_store_default_save tag blob = io_fail ENODEV"

definition nfc_store_default_load :: "'w load_fn" where
  "nfc_store_default_load tag mx = io_fail ENOENT"

definition nfc_store_default_commit :: "'w commit_fn" where
  "nfc_store_default_commit svc tag = io_return ()"

definition nfc_store_flags_for_persist_id :: "u8 \<Rightarrow> bool \<Rightarrow> u8" where
  "nfc_store_flags_for_persist_id persist_id reader_capture =
     (let flags = (if persist_id \<le> NFC_PERSIST_ID_MAX \<and>
           persist_id \<in> {NFC_PERSIST_ID_NDEF, NFC_PERSIST_ID_ULTRALIGHT, NFC_PERSIST_ID_EMV,
             NFC_PERSIST_ID_DESFIRE, NFC_PERSIST_ID_ALIRO}
         then NFC_STORE_ENTRY_FLAG_EMULATION_COMPLETE else 0) in
      if reader_capture then flags OR NFC_STORE_ENTRY_FLAG_READER_CAPTURED
      else flags OR NFC_STORE_ENTRY_FLAG_HAND_AUTHORED)"

definition nfc_store_check_quiescent :: "bool \<Rightarrow> ('s, unit) io" where
  "nfc_store_check_quiescent started = io_check (\<not> started) EBUSY"

definition nfc_store_check_initialized :: "('w, unit) store_io" where
  "nfc_store_check_initialized sw =
     (if so_state (fst sw) \<noteq> INITIALIZED then (Inl ENODEV, sw) else (Inr (), sw))"

definition nfc_store_validate_tag :: "string option \<Rightarrow> ('w, string) store_io" where
  "nfc_store_validate_tag tag sw = (case tag of
     None \<Rightarrow> (Inl EINVAL, sw)
   | Some t \<Rightarrow> if length t = 0 \<or> unat (so_resolved_max_tag_len (fst sw)) \<le> length t
              then (Inl EINVAL, sw) else (Inr t, sw))"

definition nfc_store_write_header :: "nat \<Rightarrow> nat \<Rightarrow> ('w, nat) store_io" where
  "nfc_store_write_header buf_max payload_len =
     (if buf_max < NFC_STORE_BLOB_HDR_SIZE then io_fail ENOSPC
      else io_bind (stage 0 [NFC_STORE_BLOB_MAGIC_0, NFC_STORE_BLOB_MAGIC_1, NFC_STORE_BLOB_VERSION, 0,
             lo8 payload_len, hi8 payload_len]) (\<lambda>_. io_return NFC_STORE_BLOB_HDR_SIZE))"

definition crc_bytes :: "u16 \<Rightarrow> bytes" where
  "crc_bytes c = [lo8 (unat c), hi8 (unat c)]"

definition nfc_store_append_crc :: "(bytes \<Rightarrow> u16) \<Rightarrow> nat \<Rightarrow> nat \<Rightarrow> ('w, nat) store_io" where
  "nfc_store_append_crc crc buf_max payload_end sw =
     (if buf_max < payload_end + NFC_STORE_BLOB_CRC_SIZE then (Inl ENOSPC, sw)
      else io_bind (stage payload_end (crc_bytes (crc (take payload_end (so_staging_buf (fst sw))))))
             (\<lambda>_. io_return (payload_end + NFC_STORE_BLOB_CRC_SIZE)) sw)"

definition nfc_store_find_service :: "'w nfc_service option list \<Rightarrow> u8 \<Rightarrow> 'w nfc_service option" where
  "nfc_store_find_service svcs persist_id =
     (case List.find (\<lambda>s. s \<noteq> None \<and> svc_persist_id (the s) = persist_id) svcs of
        Some s \<Rightarrow> s | None \<Rightarrow> None)"

text \<open>The checks on a blob that \<open>nfc_store_read_envelope\<close> and \<open>nfc_store_validate_blob_buf\<close> share
  in the source; the result is the payload length and the version.\<close>

definition nfc_store_validate_blob_buf :: "(bytes \<Rightarrow> u16) \<Rightarrow> bytes option \<Rightarrow> (nat \<times> u8) result" where
  "nfc_store_validate_blob_buf crc blob = (case blob of
     None \<Rightarrow> Inl EINVAL
   | Some b \<Rightarrow>
     if length b < NFC_STORE_ENVELOPE_OVERHEAD then Inl EBADMSG
     else if b ! 0 \<noteq> NFC_STORE_BLOB_MAGIC_0 \<or> b ! 1 \<noteq> NFC_STORE_BLOB_MAGIC_1 then Inl EBADMSG
     else if b ! 2 \<noteq> NFC_STORE_BLOB_VERSION \<and> b ! 2 \<noteq> NFC_STORE_BLOB_VERSION_V1 then Inl EBADMSG
     else
       let payload_len = unat (le16 (b ! 4) (b ! 5)) in
       if NFC_STORE_BLOB_HDR_SIZE + payload_len + NFC_STORE_BLOB_CRC_SIZE \<noteq> length b then Inl EBADMSG
       else if crc (take (NFC_STORE_BLOB_HDR_SIZE + payload_len) b)
          \<noteq> le16 (b ! (NFC_STORE_BLOB_HDR_SIZE + payload_len)) (b ! (NFC_STORE_BLOB_HDR_SIZE + payload_len + 1))
       then Inl EBADMSG
       else Inr (payload_len, b ! 2))"

definition nfc_store_validate_blob :: "(bytes \<Rightarrow> u16) \<Rightarrow> bytes option \<Rightarrow> unit result" where
  "nfc_store_validate_blob crc blob = map_sum id (\<lambda>_. ()) (nfc_store_validate_blob_buf crc blob)"

definition st_get :: "('w nfc_store \<Rightarrow> 'a) \<Rightarrow> ('w, 'a) store_io" where
  "st_get f sw = (Inr (f (fst sw)), sw)"

text \<open>\<open>if (s_cb == NULL) return -ENODEV;\<close>\<close>

definition st_callback :: "('w nfc_store \<Rightarrow> 'f option) \<Rightarrow> ('w, 'f) store_io" where
  "st_callback f sw = (case f (fst sw) of None \<Rightarrow> (Inl ENODEV, sw) | Some cb \<Rightarrow> (Inr cb, sw))"

definition nfc_store_read_envelope :: "(bytes \<Rightarrow> u16) \<Rightarrow> string \<Rightarrow> ('w, nat \<times> u8) store_io" where
  "nfc_store_read_envelope crc tag =
     io_bind (st_callback so_load_cb) (\<lambda>load_cb.
     io_case (outside (load_cb tag CONFIG_NFC_STORE_BLOB_SIZE))
       (\<lambda>e. if e = ENOENT then io_fail ENOENT else io_bind (st_error e) (\<lambda>_. io_fail EIO))
       (\<lambda>b. io_bind (stage 0 b) (\<lambda>_. io_bind (st_get so_staging_buf) (\<lambda>buf.
          case nfc_store_validate_blob_buf crc (Some (take (length b) buf)) of
            Inl e \<Rightarrow> io_bind inc_corrupt_blob (\<lambda>_. io_fail e)
          | Inr x \<Rightarrow> io_return x))))"

definition nfc_store_import_blob ::
  "(bytes \<Rightarrow> u16) \<Rightarrow> string option \<Rightarrow> bytes option \<Rightarrow> ('w, unit) store_io" where
  "nfc_store_import_blob crc tag blob = (case (tag, blob) of
     (Some t, Some b) \<Rightarrow>
       (case nfc_store_validate_blob_buf crc (Some b) of
          Inl e \<Rightarrow> io_bind inc_corrupt_blob (\<lambda>_. io_fail e)
        | Inr _ \<Rightarrow>
            io_bind nfc_store_check_initialized (\<lambda>_.
            io_bind (nfc_store_validate_tag (Some t)) (\<lambda>t.
            io_bind (st_callback so_save_cb) (\<lambda>save_cb.
            io_case (outside (save_cb t b)) (\<lambda>e. io_bind (st_error e) (\<lambda>_. io_fail EIO)) io_return))))
   | _ \<Rightarrow> io_fail EINVAL)"

text \<open>\<open>cfg\<close> is the \<open>max_tag_len\<close> of a given configuration.\<close>

definition nfc_store_init :: "u8 option \<Rightarrow> 'w nfc_store \<Rightarrow> unit result \<times> 'w nfc_store" where
  "nfc_store_init cfg s = (if so_state s = INITIALIZED then (Inl EALREADY, s)
     else let m = (case cfg of None \<Rightarrow> 0 | Some x \<Rightarrow> x) in
       (Inr (), s\<lparr>so_stats := nfc_store_stats_zero, so_max_tag_len := m,
          so_resolved_max_tag_len := (if m = 0 then of_nat CONFIG_NFC_STORE_MAX_TAG_LEN else m),
          so_save_cb := Some nfc_store_default_save, so_load_cb := Some nfc_store_default_load,
          so_commit_cb := Some nfc_store_default_commit, so_state := INITIALIZED\<rparr>))"

definition nfc_store_shutdown :: "'w nfc_store \<Rightarrow> unit result \<times> 'w nfc_store" where
  "nfc_store_shutdown s = (Inr (), s\<lparr>so_save_cb := Some nfc_store_default_save,
     so_load_cb := Some nfc_store_default_load, so_commit_cb := Some nfc_store_default_commit,
     so_state := UNINITIALIZED\<rparr>)"

definition nfc_store_register_save_cb :: "'w save_fn option \<Rightarrow> 'w nfc_store \<Rightarrow> unit result \<times> 'w nfc_store" where
  "nfc_store_register_save_cb fn s = (if so_state s \<noteq> INITIALIZED then (Inl ENODEV, s)
     else (Inr (), s\<lparr>so_save_cb := Some (case fn of Some f \<Rightarrow> f | None \<Rightarrow> nfc_store_default_save)\<rparr>))"

definition nfc_store_register_load_cb :: "'w load_fn option \<Rightarrow> 'w nfc_store \<Rightarrow> unit result \<times> 'w nfc_store" where
  "nfc_store_register_load_cb fn s = (if so_state s \<noteq> INITIALIZED then (Inl ENODEV, s)
     else (Inr (), s\<lparr>so_load_cb := Some (case fn of Some f \<Rightarrow> f | None \<Rightarrow> nfc_store_default_load)\<rparr>))"

definition nfc_store_register_commit_cb :: "'w commit_fn option \<Rightarrow> 'w nfc_store \<Rightarrow> unit result \<times> 'w nfc_store" where
  "nfc_store_register_commit_cb fn s = (if so_state s \<noteq> INITIALIZED then (Inl ENODEV, s)
     else (Inr (), s\<lparr>so_commit_cb := Some (case fn of Some f \<Rightarrow> f | None \<Rightarrow> nfc_store_default_commit)\<rparr>))"

definition nfc_store_on_dirty :: "'w nfc_service option \<Rightarrow> string option \<Rightarrow> ('w, unit) store_io" where
  "nfc_store_on_dirty svc tag =
     io_bind nfc_store_check_initialized (\<lambda>_.
     case (svc, tag) of
       (Some v, Some t) \<Rightarrow>
         if svc_persist_id v = 0 then io_fail EINVAL
         else (case svc_serialize v of
           None \<Rightarrow> io_fail EINVAL
         | Some ser \<Rightarrow>
             io_case (outside (ser CONFIG_NFC_STORE_BLOB_SIZE))
               (\<lambda>e. if e = ENOTSUP then io_return () else io_bind (st_error e) (\<lambda>_. io_fail EIO))
               (\<lambda>body. io_bind (stage 0 body) (\<lambda>_.
                 io_bind (st_callback so_commit_cb) (\<lambda>commit_cb.
                 io_case (outside (commit_cb v t)) (\<lambda>e. io_bind (st_error e) (\<lambda>_. io_fail e))
                   (\<lambda>_. inc_live_commit)))))
     | _ \<Rightarrow> io_fail EINVAL)"

text \<open>The loop of \<open>nfc_store_save\<close> over the services; the result is \<open>payload_len\<close>.  The part that
  copies one serialised body into the envelope comes first.\<close>

definition nfc_store_put_entry :: "u8 \<Rightarrow> nat \<Rightarrow> bytes \<Rightarrow> ('w, unit) store_io" where
  "nfc_store_put_entry persist_id pos body =
     io_bind (stage_ser body) (\<lambda>_.
     let body_len = length body; entry_len = NFC_STORE_ENTRY_OVERHEAD + body_len in
     if CONFIG_NFC_STORE_BLOB_SIZE < pos + entry_len + NFC_STORE_BLOB_CRC_SIZE
     then io_bind (st_error ENOMEM) (\<lambda>_. io_fail ENOMEM)
     else
       io_bind (stage pos [persist_id, nfc_store_flags_for_persist_id persist_id True,
           lo8 body_len, hi8 body_len]) (\<lambda>_.
       io_bind (st_get so_serialize_buf) (\<lambda>buf.
       stage (pos + NFC_STORE_ENTRY_OVERHEAD) (take body_len buf))))"

fun nfc_store_save_loop :: "'w nfc_service option list \<Rightarrow> nat \<Rightarrow> nat \<Rightarrow> ('w, nat) store_io" where
  "nfc_store_save_loop [] pos payload_len = io_return payload_len"
| "nfc_store_save_loop (svc # svcs) pos payload_len =
     (case svc of
        None \<Rightarrow> io_bind inc_serialize_skip (\<lambda>_. nfc_store_save_loop svcs pos payload_len)
      | Some v \<Rightarrow> (case svc_serialize v of
          None \<Rightarrow> io_bind inc_serialize_skip (\<lambda>_. nfc_store_save_loop svcs pos payload_len)
        | Some ser \<Rightarrow>
            if svc_persist_id v = 0
            then io_bind inc_serialize_skip (\<lambda>_. nfc_store_save_loop svcs pos payload_len)
            else
              io_case (outside (ser CONFIG_NFC_STORE_BLOB_SIZE))
                (\<lambda>e. if e = ENOTSUP
                     then io_bind inc_serialize_skip (\<lambda>_. nfc_store_save_loop svcs pos payload_len)
                     else io_bind (st_error e) (\<lambda>_. io_fail EIO))
                (\<lambda>body. io_bind (nfc_store_put_entry (svc_persist_id v) pos body) (\<lambda>_.
                  nfc_store_save_loop svcs (pos + (NFC_STORE_ENTRY_OVERHEAD + length body))
                    (payload_len + (NFC_STORE_ENTRY_OVERHEAD + length body))))))"

text \<open>The rest of \<open>nfc_store_save\<close> after the loop: payload length, CRC and the backend callback.\<close>

definition nfc_store_save_finish :: "(bytes \<Rightarrow> u16) \<Rightarrow> string \<Rightarrow> nat \<Rightarrow> ('w, unit) store_io" where
  "nfc_store_save_finish crc t payload_len =
     io_bind (stage 4 [lo8 payload_len, hi8 payload_len]) (\<lambda>_.
     io_case (nfc_store_append_crc crc CONFIG_NFC_STORE_BLOB_SIZE (NFC_STORE_BLOB_HDR_SIZE + payload_len))
       (\<lambda>e. io_bind (st_error e) (\<lambda>_. io_fail ENOMEM))
       (\<lambda>total.
         io_bind (st_callback so_save_cb) (\<lambda>save_cb.
         io_bind (st_get so_staging_buf) (\<lambda>buf.
         io_case (outside (save_cb t (take total buf))) (\<lambda>e. io_bind (st_error e) (\<lambda>_. io_fail EIO))
           (\<lambda>_. inc_save)))))"

definition nfc_store_save ::
  "(bytes \<Rightarrow> u16) \<Rightarrow> bool \<Rightarrow> string option \<Rightarrow> 'w nfc_service option list \<Rightarrow> ('w, unit) store_io" where
  "nfc_store_save crc started tag svcs =
     io_bind (nfc_store_check_quiescent started) (\<lambda>_.
     io_bind nfc_store_check_initialized (\<lambda>_.
     io_bind (nfc_store_validate_tag tag) (\<lambda>t.
     io_bind (nfc_store_write_header CONFIG_NFC_STORE_BLOB_SIZE 0) (\<lambda>_.
     io_bind (nfc_store_save_loop svcs NFC_STORE_BLOB_HDR_SIZE 0) (\<lambda>payload_len.
     nfc_store_save_finish crc t payload_len)))))"

definition nfc_store_entry_overhead :: "u8 \<Rightarrow> nat" where
  "nfc_store_entry_overhead version =
     (if version = NFC_STORE_BLOB_VERSION_V1 then NFC_STORE_ENTRY_OVERHEAD_V1 else NFC_STORE_ENTRY_OVERHEAD)"

definition nfc_store_peek_entry_meta ::
  "(bytes \<Rightarrow> u16) \<Rightarrow> bool \<Rightarrow> string option \<Rightarrow> ('w, u8 \<times> u8) store_io" where
  "nfc_store_peek_entry_meta crc started tag =
     io_bind (nfc_store_check_quiescent started) (\<lambda>_.
     io_bind nfc_store_check_initialized (\<lambda>_.
     io_bind (nfc_store_validate_tag tag) (\<lambda>t.
     io_bind (nfc_store_read_envelope crc t) (\<lambda>(payload_len, version).
       if payload_len = 0 then io_bind inc_corrupt_blob (\<lambda>_. io_fail EBADMSG)
       else if NFC_STORE_BLOB_HDR_SIZE + payload_len < NFC_STORE_BLOB_HDR_SIZE + nfc_store_entry_overhead version
       then io_bind inc_corrupt_blob (\<lambda>_. io_fail EBADMSG)
       else io_bind (st_get so_staging_buf) (\<lambda>buf.
         io_return (buf ! 6, if version = NFC_STORE_BLOB_VERSION_V1 then 0 else buf ! 7))))))"

text \<open>The entry loop of \<open>nfc_store_load\<close>; \<open>end\<close> is \<open>HDR_SIZE + payload_len\<close>, the result \<open>last_err\<close>.\<close>

function nfc_store_load_loop ::
  "'w nfc_service option list \<Rightarrow> u8 \<Rightarrow> nat \<Rightarrow> nat \<Rightarrow> errno option \<Rightarrow> ('w, errno option) store_io" where
  "nfc_store_load_loop svcs version pend pos last_err sw =
     (if \<not> pos < pend then (Inr last_err, sw)
      else
        let buf = so_staging_buf (fst sw);
            ovh = nfc_store_entry_overhead version in
        if pend < pos + ovh then io_bind inc_corrupt_blob (\<lambda>_. io_fail EBADMSG) sw
        else
          let persist_id = buf ! pos;
              entry_len = unat (le16 (buf ! (pos + ovh - 2)) (buf ! (pos + ovh - 1)));
              pos' = pos + ovh in
          if pend < pos' + entry_len then io_bind inc_corrupt_blob (\<lambda>_. io_fail EBADMSG) sw
          else
            (case (case nfc_store_find_service svcs persist_id of None \<Rightarrow> None | Some v \<Rightarrow> svc_deserialize v) of
               None \<Rightarrow> nfc_store_load_loop svcs version pend (pos' + entry_len) last_err
                         (snd (inc_deserialize_skip sw))
             | Some des \<Rightarrow>
                 (case outside (des (sub_bytes pos' entry_len buf)) sw of
                    (Inl e, sw') \<Rightarrow> nfc_store_load_loop svcs version pend (pos' + entry_len) (Some e)
                        (snd (io_bind inc_partial_load (\<lambda>_. st_error e) sw'))
                  | (Inr _, sw') \<Rightarrow> nfc_store_load_loop svcs version pend (pos' + entry_len) last_err sw')))"
  by pat_completeness auto
termination
  by (relation "measure (\<lambda>(svcs, version, pend, pos, e, sw). pend - pos)")
    (auto simp: nfc_store_entry_overhead_def)

declare nfc_store_load_loop.simps [simp del]

definition nfc_store_load ::
  "(bytes \<Rightarrow> u16) \<Rightarrow> bool \<Rightarrow> string option \<Rightarrow> 'w nfc_service option list \<Rightarrow> ('w, unit) store_io" where
  "nfc_store_load crc started tag svcs =
     io_bind (nfc_store_check_quiescent started) (\<lambda>_.
     io_bind nfc_store_check_initialized (\<lambda>_.
     io_bind (nfc_store_validate_tag tag) (\<lambda>t.
     io_bind (nfc_store_read_envelope crc t) (\<lambda>(payload_len, version).
     io_bind (nfc_store_load_loop svcs version (NFC_STORE_BLOB_HDR_SIZE + payload_len)
        NFC_STORE_BLOB_HDR_SIZE None) (\<lambda>last_err.
     if last_err \<noteq> None then io_fail EBADMSG else inc_load)))))"

section \<open>The envelope as a codec\<close>

type_synonym card_entry = "u8 \<times> u8 \<times> bytes"

fun entry_bytes :: "card_entry \<Rightarrow> bytes" where
  "entry_bytes (i, fl, body) = [i, fl, lo8 (length body), hi8 (length body)] @ body"

definition card_payload :: "card_entry list \<Rightarrow> bytes" where
  "card_payload es = concat (map entry_bytes es)"

definition card_header :: "u8 \<Rightarrow> nat \<Rightarrow> bytes" where
  "card_header v n = [NFC_STORE_BLOB_MAGIC_0, NFC_STORE_BLOB_MAGIC_1, v, 0, lo8 n, hi8 n]"

definition card_blob :: "(bytes \<Rightarrow> u16) \<Rightarrow> card_entry list \<Rightarrow> bytes" where
  "card_blob crc es = (let b = card_header NFC_STORE_BLOB_VERSION (length (card_payload es)) @ card_payload es
     in b @ crc_bytes (crc b))"

text \<open>The entries of a payload, and whether it ends exactly after the last one.\<close>

function card_parse :: "u8 \<Rightarrow> bytes \<Rightarrow> (u8 \<times> bytes) list \<times> bool" where
  "card_parse v p =
     (if p = [] then ([], True)
      else if length p < nfc_store_entry_overhead v then ([], False)
      else
        let ovh = nfc_store_entry_overhead v; n = unat (le16 (p ! (ovh - 2)) (p ! (ovh - 1))) in
        if length p < ovh + n then ([], False)
        else apfst (Cons (p ! 0, sub_bytes ovh n p)) (card_parse v (drop (ovh + n) p)))"
  by pat_completeness auto
termination
  by (relation "measure (\<lambda>(v, p). length p)") (auto simp: nfc_store_entry_overhead_def)

declare card_parse.simps [simp del]

text \<open>Handing the entries to the services, in order; the error of the last failing one is kept.\<close>

fun restore :: "'w nfc_service option list \<Rightarrow> (u8 \<times> bytes) list \<Rightarrow> errno option \<Rightarrow> 'w \<Rightarrow> errno option \<times> 'w" where
  "restore svcs [] last_err w = (last_err, w)"
| "restore svcs ((i, body) # es) last_err w =
     (case (case nfc_store_find_service svcs i of None \<Rightarrow> None | Some v \<Rightarrow> svc_deserialize v) of
        None \<Rightarrow> restore svcs es last_err w
      | Some des \<Rightarrow> (case des body w of
          (Inl e, w') \<Rightarrow> restore svcs es (Some e) w'
        | (Inr _, w') \<Rightarrow> restore svcs es last_err w'))"

text \<open>Collecting the entries of the services, in order, within the space left after \<open>pos\<close>.\<close>

fun collect :: "'w nfc_service option list \<Rightarrow> nat \<Rightarrow> 'w \<Rightarrow> card_entry list result \<times> 'w" where
  "collect [] pos w = (Inr [], w)"
| "collect (svc # svcs) pos w =
     (case svc of
        None \<Rightarrow> collect svcs pos w
      | Some v \<Rightarrow> (case svc_serialize v of
          None \<Rightarrow> collect svcs pos w
        | Some ser \<Rightarrow>
            if svc_persist_id v = 0 then collect svcs pos w
            else (case ser CONFIG_NFC_STORE_BLOB_SIZE w of
              (Inl e, w') \<Rightarrow> if e = ENOTSUP then collect svcs pos w' else (Inl EIO, w')
            | (Inr body, w') \<Rightarrow>
                if CONFIG_NFC_STORE_BLOB_SIZE < pos + 6 + length body then (Inl ENOMEM, w')
                else (case collect svcs (pos + 4 + length body) w' of
                  (Inl e, w'') \<Rightarrow> (Inl e, w'')
                | (Inr es, w'') \<Rightarrow>
                    (Inr ((svc_persist_id v, nfc_store_flags_for_persist_id (svc_persist_id v) True, body) # es),
                     w'')))))"

lemma length_entry_bytes: "length (entry_bytes (i, fl, body)) = 4 + length body"
  by simp

lemma card_payload_simps [simp]:
  "card_payload [] = []" "card_payload (e # es) = entry_bytes e @ card_payload es"
  by (simp_all add: card_payload_def)

lemma length_card_header [simp]: "length (card_header v n) = NFC_STORE_BLOB_HDR_SIZE"
  by (simp add: card_header_def)

lemma length_crc_bytes [simp]: "length (crc_bytes c) = NFC_STORE_BLOB_CRC_SIZE"
  by (simp add: crc_bytes_def)

lemma length_card_blob [simp]: "length (card_blob crc es) = 8 + length (card_payload es)"
  by (simp add: card_blob_def Let_def)

lemma le16_crc_bytes: "le16 (crc_bytes c ! 0) (crc_bytes c ! 1) = c"
proof -
  have "unat (le16 (crc_bytes c ! 0) (crc_bytes c ! 1)) = unat c"
    by (simp add: crc_bytes_def unat_le16_lo_hi)
  then show ?thesis by (rule unsigned_word_eqI)
qed

text \<open>The checks accept exactly the well-formed envelopes.\<close>

lemma validate_blob_accepts:
  assumes "v = NFC_STORE_BLOB_VERSION \<or> v = NFC_STORE_BLOB_VERSION_V1" "length p < 65536"
    and b_def: "b = [NFC_STORE_BLOB_MAGIC_0, NFC_STORE_BLOB_MAGIC_1, v, r, lo8 (length p), hi8 (length p)] @ p"
  shows "nfc_store_validate_blob_buf crc (Some (b @ crc_bytes (crc b))) = Inr (length p, v)"
proof -
  let ?x = "b @ crc_bytes (crc b)"
  have len: "length b = 6 + length p" by (simp add: b_def)
  have hd: "?x ! 0 = 0x4E" "?x ! 1 = 0x46" "?x ! 2 = v" "?x ! 4 = lo8 (length p)" "?x ! 5 = hi8 (length p)"
    by (simp_all add: b_def)
  have "?x ! (6 + length p) = crc_bytes (crc b) ! 0" "?x ! (6 + length p + 1) = crc_bytes (crc b) ! 1"
    by (simp_all add: nth_append len)
  moreover have "take (6 + length p) ?x = b" by (simp add: len)
  ultimately show ?thesis
    using hd assms(1,2) len
    by (auto simp: nfc_store_validate_blob_buf_def Let_def unat_le16_lo_hi le16_crc_bytes
        simp del: One_nat_def)
qed

lemma card_blob_valid:
  assumes "length (card_payload es) < 65536"
  shows "nfc_store_validate_blob_buf crc (Some (card_blob crc es)) = Inr (length (card_payload es), 2)"
  using validate_blob_accepts [of 2 "card_payload es" _ 0 crc] assms
  by (simp add: card_blob_def card_header_def)

lemma card_parse_payload:
  assumes "\<forall>(i, fl, body) \<in> set es. length body < 65536"
  shows "card_parse 2 (card_payload es) = (map (\<lambda>(i, fl, body). (i, body)) es, True)"
  using assms
proof (induction es)
  case Nil
  then show ?case by (simp add: card_parse.simps)
next
  case (Cons e es)
  obtain i fl body where e: "e = (i, fl, body)" by (cases e)
  let ?p = "card_payload (e # es)"
  have p: "?p = [i, fl, lo8 (length body), hi8 (length body)] @ body @ card_payload es"
    by (simp add: e)
  have n: "unat (le16 (?p ! 2) (?p ! 3)) = length body"
    using Cons.prems e unfolding p by (simp add: unat_le16_lo_hi)
  have parts: "?p \<noteq> []" "length ?p = 4 + length body + length (card_payload es)" "?p ! 0 = i"
    "sub_bytes 4 (length body) ?p = body" "drop (4 + length body) ?p = card_payload es"
    unfolding p by (simp_all add: sub_bytes_def eval_nat_numeral)
  have "card_parse 2 ?p = apfst (Cons (i, body)) (card_parse 2 (card_payload es))"
    using n parts by (subst card_parse.simps) (simp add: nfc_store_entry_overhead_def Let_def del: card_payload_simps)
  then show ?case
    using Cons e by (simp del: card_payload_simps)
qed

section \<open>Saving and loading refine the codec\<close>

text \<open>Steps that only touch the counters and the two buffers of the store.\<close>

definition store_upd :: "nfc_store_stats \<times> bytes \<times> bytes \<Rightarrow> 'w nfc_store \<Rightarrow> 'w nfc_store" where
  "store_upd x s = (case x of (t, b, z) \<Rightarrow> s\<lparr>so_stats := t, so_staging_buf := b, so_serialize_buf := z\<rparr>)"

lemma store_upd_simps [simp]:
  "so_state (store_upd x s) = so_state s" "so_save_cb (store_upd x s) = so_save_cb s"
  "so_load_cb (store_upd x s) = so_load_cb s" "so_commit_cb (store_upd x s) = so_commit_cb s"
  "so_resolved_max_tag_len (store_upd x s) = so_resolved_max_tag_len s"
  "so_max_tag_len (store_upd x s) = so_max_tag_len s"
  "so_staging_buf (store_upd x s) = fst (snd x)" "so_stats (store_upd x s) = fst x"
  "so_serialize_buf (store_upd x s) = snd (snd x)" "store_upd x (store_upd y s) = store_upd x s"
  by (cases x; cases y; simp add: store_upd_def)+

lemma store_upd_id: "\<exists>x. s = store_upd x s \<and> fst (snd x) = so_staging_buf s"
  by (rule exI [of _ "(so_stats s, so_staging_buf s, so_serialize_buf s)"]) (simp add: store_upd_def)

lemma store_steps [io_simps]:
  "st_inc f (s, w) = (Inr (), (store_upd (f (so_stats s), so_staging_buf s, so_serialize_buf s) s, w))"
  "stage p b (s, w) = (Inr (), (store_upd (so_stats s, memcpy_at (so_staging_buf s) p b, so_serialize_buf s) s, w))"
  "stage_ser b (s, w) = (Inr (), (store_upd (so_stats s, so_staging_buf s, memcpy_at (so_serialize_buf s) 0 b) s, w))"
  "st_get g (s, w) = (Inr (g s), (s, w))"
  "outside m (s, w) = (fst (m w), (s, snd (m w)))"
  by (simp_all add: st_inc_def stage_def stage_ser_def st_get_def outside_def io_modify_def store_upd_def
      split: prod.split)

text \<open>What loading a payload does, in terms of the codec.\<close>

definition load_payload ::
  "'w nfc_service option list \<Rightarrow> u8 \<Rightarrow> bytes \<Rightarrow> errno option \<Rightarrow> 'w \<Rightarrow> errno option result \<times> 'w" where
  "load_payload svcs v p le w = (case card_parse v p of (es, ok) \<Rightarrow>
     (case restore svcs es le w of (le', w') \<Rightarrow> (if ok then Inr le' else Inl EBADMSG, w')))"

lemma load_payload_step:
  assumes "p \<noteq> []" "ovh = nfc_store_entry_overhead v" "ovh \<le> length p"
    "n = unat (le16 (p ! (ovh - 2)) (p ! (ovh - 1)))" "ovh + n \<le> length p"
  shows "load_payload svcs v p le w =
     (case (case nfc_store_find_service svcs (p ! 0) of None \<Rightarrow> None | Some v \<Rightarrow> svc_deserialize v) of
        None \<Rightarrow> load_payload svcs v (drop (ovh + n) p) le w
      | Some des \<Rightarrow> (case des (sub_bytes ovh n p) w of
          (Inl e, w') \<Rightarrow> load_payload svcs v (drop (ovh + n) p) (Some e) w'
        | (Inr _, w') \<Rightarrow> load_payload svcs v (drop (ovh + n) p) le w'))"
proof -
  have "card_parse v p = apfst (Cons (p ! 0, sub_bytes ovh n p)) (card_parse v (drop (ovh + n) p))"
    using assms by (subst card_parse.simps) (simp add: Let_def)
  then show ?thesis
    by (simp add: load_payload_def apfst_def map_prod_def split: prod.split option.split sum.split)
qed

lemma load_payload_bad:
  assumes "p \<noteq> []" "ovh = nfc_store_entry_overhead v"
    "length p < ovh \<or> length p < ovh + unat (le16 (p ! (ovh - 2)) (p ! (ovh - 1)))"
  shows "load_payload svcs v p le w = (Inl EBADMSG, w)"
proof -
  have "card_parse v p = ([], False)"
    using assms by (subst card_parse.simps) (auto simp: Let_def)
  then show ?thesis by (simp add: load_payload_def)
qed

lemma sub_bytes_sub_bytes:
  "off' + n' \<le> n \<Longrightarrow> sub_bytes off' n' (sub_bytes off n xs) = sub_bytes (off + off') n' xs"
  by (simp add: sub_bytes_def drop_take add.commute)

lemma drop_sub_bytes: "drop k (sub_bytes off n xs) = sub_bytes (off + k) (n - k) xs"
  by (simp add: sub_bytes_def drop_take add.commute)

lemma nfc_store_load_loop_refines:
  assumes "pend \<le> length (so_staging_buf s)" "pos \<le> pend"
  shows "\<exists>x. fst (snd x) = so_staging_buf s \<and> nfc_store_load_loop svcs v pend pos le (s, w) =
     apsnd (Pair (store_upd x s)) (load_payload svcs v (sub_bytes pos (pend - pos) (so_staging_buf s)) le w)"
  using assms
proof (induction "pend - pos" arbitrary: pos s w le rule: less_induct)
  case less
  let ?b = "so_staging_buf s"
  let ?p = "sub_bytes pos (pend - pos) ?b"
  define ovh where "ovh = nfc_store_entry_overhead v"
  define n where "n = unat (le16 (?p ! (ovh - 2)) (?p ! (ovh - 1)))"
  have ovh: "2 < ovh" by (simp add: ovh_def nfc_store_entry_overhead_def)
  have lp: "length ?p = pend - pos" using less.prems by (simp add: length_sub_bytes)
  have bad: "\<exists>x. fst (snd x) = ?b \<and> io_bind inc_corrupt_blob (\<lambda>_. io_fail EBADMSG) (s, w) =
      (Inl EBADMSG :: errno option result, store_upd x s, w)"
    by (simp add: io_bind_def io_simps) blast
  consider (fin) "pos = pend" | (short) "pos < pend" "pend < pos + ovh" | (entry) "pos < pend" "pos + ovh \<le> pend"
    using less.prems by linarith
  then show ?case
  proof cases
    case fin
    then show ?thesis
      using store_upd_id [of s]
      by (subst nfc_store_load_loop.simps)
        (auto simp: load_payload_def card_parse.simps sub_bytes_def)
  next
    case short
    then have "load_payload svcs v ?p le w = (Inl EBADMSG, w)"
      using lp by (intro load_payload_bad [OF _ ovh_def]) auto
    then show ?thesis
      using short bad by (subst nfc_store_load_loop.simps) (simp add: Let_def flip: ovh_def)
  next
    case entry
    have nth: "?p ! i = ?b ! (pos + i)" if "i < ovh" for i
      using entry less.prems that by (simp add: nth_sub_bytes)
    have hdr: "?p ! 0 = ?b ! pos" "n = unat (le16 (?b ! (pos + ovh - 2)) (?b ! (pos + ovh - 1)))"
      using nth [of 0] nth [of "ovh - 2"] nth [of "ovh - 1"] ovh by (simp_all add: n_def)
    show ?thesis
    proof (cases "pend < pos + ovh + n")
      case True
      then have "load_payload svcs v ?p le w = (Inl EBADMSG, w)"
        using lp entry by (intro load_payload_bad [OF _ ovh_def]) (auto simp: n_def)
      then show ?thesis
        using entry bad True hdr by (subst nfc_store_load_loop.simps) (simp add: Let_def flip: ovh_def)
    next
      case False
      then have parts: "sub_bytes ovh n ?p = sub_bytes (pos + ovh) n ?b"
        "drop (ovh + n) ?p = sub_bytes (pos + ovh + n) (pend - (pos + ovh + n)) ?b"
        by (simp_all add: sub_bytes_sub_bytes drop_sub_bytes add.assoc)
      let ?L = "\<lambda>le w. load_payload svcs v (drop (ovh + n) ?p) le w"
      have IH: "\<exists>x'. fst (snd x') = ?b \<and> nfc_store_load_loop svcs v pend (pos + ovh + n) le' (store_upd x s, w')
          = apsnd (Pair (store_upd x' s)) (?L le' w')"
        if "fst (snd x) = ?b" for x le' w'
        using less.hyps [of "pos + ovh + n" "store_upd x s" le' w'] that less.prems entry False ovh parts
        by auto
      obtain x0 where x0: "s = store_upd x0 s" "fst (snd x0) = ?b" using store_upd_id by blast
      note IH0 = IH [OF x0(2), folded x0(1)]
      have pl: "load_payload svcs v ?p le w =
        (case (case nfc_store_find_service svcs (?b ! pos) of None \<Rightarrow> None | Some v \<Rightarrow> svc_deserialize v) of
           None \<Rightarrow> ?L le w
         | Some des \<Rightarrow> (case des (sub_bytes (pos + ovh) n ?b) w of
             (Inl e, w') \<Rightarrow> ?L (Some e) w' | (Inr _, w') \<Rightarrow> ?L le w'))"
        unfolding hdr(1) [symmetric] parts(1) [symmetric]
        by (rule load_payload_step [OF _ ovh_def _ n_def]) (use entry False lp in auto)
      have unf: "nfc_store_load_loop svcs v pend pos le (s, w) =
        (case (case nfc_store_find_service svcs (?b ! pos) of None \<Rightarrow> None | Some v \<Rightarrow> svc_deserialize v) of
           None \<Rightarrow> nfc_store_load_loop svcs v pend (pos + ovh + n) le (snd (inc_deserialize_skip (s, w)))
         | Some des \<Rightarrow> (case outside (des (sub_bytes (pos + ovh) n ?b)) (s, w) of
             (Inl e, sw') \<Rightarrow> nfc_store_load_loop svcs v pend (pos + ovh + n) (Some e)
                 (snd (io_bind inc_partial_load (\<lambda>_. st_error e) sw'))
           | (Inr _, sw') \<Rightarrow> nfc_store_load_loop svcs v pend (pos + ovh + n) le sw'))"
        using entry False unfolding hdr(2) unfolding ovh_def
        by (subst nfc_store_load_loop.simps) (simp add: Let_def del: One_nat_def)
      show ?thesis
      proof (cases "case nfc_store_find_service svcs (?b ! pos) of None \<Rightarrow> None | Some v \<Rightarrow> svc_deserialize v")
        case None
        then show ?thesis
          unfolding pl unf using IH by (simp add: io_simps)
      next
        case (Some des)
        obtain r w' where des: "des (sub_bytes (pos + ovh) n ?b) w = (r, w')" by fastforce
        show ?thesis
          unfolding pl unf using IH IH0 Some des
          by (cases r) (simp_all add: io_simps st_error_def)
      qed
    qed
  qed
qed

lemma take_memcpy_at_after:
  "off \<le> length dst \<Longrightarrow> take (off + length src) (memcpy_at dst off src) = take off dst @ src"
  by (simp add: memcpy_at_def)

lemma nfc_store_put_entry_too_big:
  assumes "CONFIG_NFC_STORE_BLOB_SIZE < pos + 6 + length body"
  shows "nfc_store_put_entry i pos body (s, w) = (Inl ENOMEM, (store_upd
      ((so_stats s)\<lparr>ss_error_count := ss_error_count (so_stats s) + 1, ss_last_error_code := Some ENOMEM\<rparr>,
       so_staging_buf s, memcpy_at (so_serialize_buf s) 0 body) s, w))"
  using assms by (simp add: nfc_store_put_entry_def io_simps st_error_def Let_def)

lemma nfc_store_put_entry_fits:
  assumes "length (so_staging_buf s) = CONFIG_NFC_STORE_BLOB_SIZE" "pos + 6 + length body \<le> CONFIG_NFC_STORE_BLOB_SIZE"
  shows "\<exists>x. nfc_store_put_entry i pos body (s, w) = (Inr (), (store_upd x s, w)) \<and>
    length (fst (snd x)) = CONFIG_NFC_STORE_BLOB_SIZE \<and>
    take (pos + length (entry_bytes (i, nfc_store_flags_for_persist_id i True, body))) (fst (snd x)) =
      take pos (so_staging_buf s) @ entry_bytes (i, nfc_store_flags_for_persist_id i True, body)"
proof -
  obtain e where e: "e = [i, nfc_store_flags_for_persist_id i True, lo8 (length body), hi8 (length body)]"
    "length e = 4" by simp
  let ?b = "memcpy_at (memcpy_at (so_staging_buf s) pos e) (pos + 4) body"
  let ?x = "(so_stats s, ?b, memcpy_at (so_serialize_buf s) 0 body)"
  have "nfc_store_put_entry i pos body (s, w) = (Inr (), (store_upd ?x s, w))"
    using assms by (simp add: nfc_store_put_entry_def io_simps Let_def memcpy_at_0 e(1))
  moreover have "length ?b = CONFIG_NFC_STORE_BLOB_SIZE"
    using assms e(2) by (simp add: length_memcpy_at)
  moreover have "take (pos + 4 + length body) ?b = take pos (so_staging_buf s) @ e @ body"
    using take_memcpy_at_after [of "pos + 4" "memcpy_at (so_staging_buf s) pos e" body]
      take_memcpy_at_after [of pos "so_staging_buf s" e] assms e(2)
    by (simp add: length_memcpy_at)
  ultimately show ?thesis
    unfolding length_entry_bytes by (intro exI [of _ ?x]) (simp add: e(1) add.assoc)
qed

text \<open>The save loop appends the collected entries to what the staging buffer holds before \<open>pos\<close>.\<close>

definition saves_as :: "('w nfc_store \<times> 'w \<Rightarrow> nat result \<times> 'w nfc_store \<times> 'w) \<Rightarrow> nat \<Rightarrow> nat
    \<Rightarrow> card_entry list result \<times> 'w \<Rightarrow> 'w nfc_store \<Rightarrow> 'w \<Rightarrow> bool" where
  "saves_as m pos pl c s w \<longleftrightarrow> (\<exists>x. length (fst (snd x)) = CONFIG_NFC_STORE_BLOB_SIZE \<and>
     m (s, w) = (map_sum (\<lambda>e. e) (\<lambda>es. pl + length (card_payload es)) (fst c), (store_upd x s, snd c)) \<and>
     (\<forall>es. fst c = Inr es \<longrightarrow> pos + length (card_payload es) + 2 \<le> CONFIG_NFC_STORE_BLOB_SIZE \<and>
       take (pos + length (card_payload es)) (fst (snd x)) = take pos (so_staging_buf s) @ card_payload es))"

lemma saves_as_cons:
  assumes "take (pos + length (entry_bytes e)) (fst (snd x)) = take pos (so_staging_buf s) @ entry_bytes e"
    and m: "saves_as m (pos + length (entry_bytes e)) (pl + length (entry_bytes e)) c (store_upd x s) w'"
    and m': "m' (s, w) = m (store_upd x s, w')"
  shows "saves_as m' pos pl (map_sum (\<lambda>e. e) (Cons e) (fst c), snd c) s w"
proof -
  from m obtain y where y: "length (fst (snd y)) = CONFIG_NFC_STORE_BLOB_SIZE"
    "m (store_upd x s, w') = (map_sum (\<lambda>e. e) (\<lambda>es. pl + length (entry_bytes e) + length (card_payload es)) (fst c),
       (store_upd y s, snd c))"
    "\<And>es. fst c = Inr es \<Longrightarrow> pos + length (entry_bytes e) + length (card_payload es) + 2 \<le> CONFIG_NFC_STORE_BLOB_SIZE \<and>
       take (pos + length (entry_bytes e) + length (card_payload es)) (fst (snd y)) =
         take (pos + length (entry_bytes e)) (fst (snd x)) @ card_payload es"
    unfolding saves_as_def by auto
  show ?thesis
    unfolding saves_as_def
    by (rule exI [of _ y]) (use y m' assms(1) in \<open>cases "fst c"; simp add: add.assoc\<close>)
qed

lemma nfc_store_save_loop_refines:
  assumes "length (so_staging_buf s) = CONFIG_NFC_STORE_BLOB_SIZE" "pos + 2 \<le> CONFIG_NFC_STORE_BLOB_SIZE"
  shows "saves_as (nfc_store_save_loop svcs pos pl) pos pl (collect svcs pos w) s w"
  using assms
proof (induction svcs arbitrary: pos pl s w)
  case Nil
  then show ?case
    using store_upd_id [of s] by (auto simp: io_simps saves_as_def)
next
  case (Cons svc svcs)
  let ?skip = "(ss_serialize_skip_count_update (\<lambda>n. n + 1) (so_stats s), so_staging_buf s, so_serialize_buf s)"
  have skip: ?case if "nfc_store_save_loop (svc # svcs) pos pl (s, w) =
      nfc_store_save_loop svcs pos pl (store_upd ?skip s, w')"
      "collect (svc # svcs) pos w = collect svcs pos w'" for w'
    using Cons.IH [of "store_upd ?skip s" pos pl w'] Cons.prems that by (auto simp: saves_as_def)
  show ?case
  proof (cases "\<exists>v ser. svc = Some v \<and> svc_serialize v = Some ser \<and> svc_persist_id v \<noteq> 0")
    case False
    then show ?thesis
      by (intro skip [of w]) (auto simp: io_simps split: option.splits)
  next
    case True
    then obtain v ser where v: "svc = Some v" "svc_serialize v = Some ser" "svc_persist_id v \<noteq> 0" by blast
    obtain r w1 where ser: "ser CONFIG_NFC_STORE_BLOB_SIZE w = (r, w1)" by fastforce
    show ?thesis
    proof (cases r)
      case (Inl e)
      show ?thesis
      proof (cases "e = ENOTSUP")
        case True
        then show ?thesis
          using v ser Inl by (intro skip [of w1]) (simp_all add: io_simps)
      next
        case False
        then show ?thesis
          using v ser Inl Cons.prems by (simp add: saves_as_def io_simps st_error_def) blast
      qed
    next
      case (Inr body)
      let ?e = "(svc_persist_id v, nfc_store_flags_for_persist_id (svc_persist_id v) True, body)"
      show ?thesis
      proof (cases "CONFIG_NFC_STORE_BLOB_SIZE < pos + 6 + length body")
        case True
        then show ?thesis
          using v ser Inr Cons.prems
          by (simp add: saves_as_def io_simps nfc_store_put_entry_too_big) blast
      next
        case False
        then obtain x where x: "nfc_store_put_entry (svc_persist_id v) pos body (s, w1) = (Inr (), (store_upd x s, w1))"
          "length (fst (snd x)) = CONFIG_NFC_STORE_BLOB_SIZE"
          "take (pos + length (entry_bytes ?e)) (fst (snd x)) = take pos (so_staging_buf s) @ entry_bytes ?e"
          using nfc_store_put_entry_fits [OF Cons.prems(1), of pos body "svc_persist_id v" w1]
          unfolding not_less by blast
        have "nfc_store_save_loop (svc # svcs) pos pl (s, w) = nfc_store_save_loop svcs
            (pos + length (entry_bytes ?e)) (pl + length (entry_bytes ?e)) (store_upd x s, w1)"
          using v ser Inr x(1) unfolding length_entry_bytes by (simp add: io_simps)
        moreover have "saves_as (nfc_store_save_loop svcs (pos + length (entry_bytes ?e)) (pl + length (entry_bytes ?e)))
            (pos + length (entry_bytes ?e)) (pl + length (entry_bytes ?e))
            (collect svcs (pos + length (entry_bytes ?e)) w1) (store_upd x s) w1"
          using x(2) False by (intro Cons.IH) auto
        moreover have "collect (svc # svcs) pos w = (map_sum (\<lambda>e. e) (Cons ?e)
            (fst (collect svcs (pos + length (entry_bytes ?e)) w1)), snd (collect svcs (pos + length (entry_bytes ?e)) w1))"
          using v ser Inr False unfolding length_entry_bytes by (auto simp: add.assoc split: prod.split sum.split)
        ultimately show ?thesis
          using saves_as_cons [OF x(3)] by simp
      qed
    qed
  qed
qed

definition store_ready :: "'w nfc_store \<Rightarrow> bool" where
  "store_ready s \<longleftrightarrow> so_state s = INITIALIZED \<and> length (so_staging_buf s) = CONFIG_NFC_STORE_BLOB_SIZE"

definition tag_ok :: "'w nfc_store \<Rightarrow> string \<Rightarrow> bool" where
  "tag_ok s t \<longleftrightarrow> t \<noteq> [] \<and> length t < unat (so_resolved_max_tag_len s)"

lemma store_guards [io_simps]:
  "so_state s = INITIALIZED \<Longrightarrow> nfc_store_check_initialized (s, w) = (Inr (), (s, w))"
  "tag_ok s t \<Longrightarrow> nfc_store_validate_tag (Some t) (s, w) = (Inr t, (s, w))"
  "st_callback f (s, w) = (case f s of None \<Rightarrow> (Inl ENODEV, (s, w)) | Some cb \<Rightarrow> (Inr cb, (s, w)))"
  by (auto simp: nfc_store_check_initialized_def nfc_store_validate_tag_def tag_ok_def st_callback_def
      split: option.split)

lemma nfc_store_save_finish_spec:
  assumes cb: "so_save_cb s = Some cb" and len: "length (so_staging_buf s) = CONFIG_NFC_STORE_BLOB_SIZE"
    and n: "n = length (card_payload es)" "6 + n + 2 \<le> CONFIG_NFC_STORE_BLOB_SIZE"
    and b: "take (6 + n) (so_staging_buf s) = card_header 2 0 @ card_payload es"
  shows "\<exists>x. length (fst (snd x)) = CONFIG_NFC_STORE_BLOB_SIZE \<and> nfc_store_save_finish crc t n (s, w) =
    (case cb t (card_blob crc es) w of
       (Inl e, w2) \<Rightarrow> (Inl EIO, (store_upd x s, w2)) | (Inr _, w2) \<Rightarrow> (Inr (), (store_upd x s, w2)))"
proof -
  let ?h = "card_header 2 n @ card_payload es"
  let ?b1 = "memcpy_at (so_staging_buf s) 4 [lo8 n, hi8 n]"
  let ?b2 = "memcpy_at ?b1 (6 + n) (crc_bytes (crc ?h))"
  obtain zs where zs: "so_staging_buf s = card_header 2 0 @ card_payload es @ zs"
    using b by (metis append_take_drop_id append.assoc)
  have b1: "?b1 = ?h @ zs"
    by (simp add: zs memcpy_at_def card_header_def)
  have lh: "length ?h = 6 + n" by (simp add: n)
  have b2: "take (6 + n) ?b1 = ?h" "?b2 = card_blob crc es @ drop 2 zs"
    unfolding b1 using lh by (simp_all add: memcpy_at_def card_blob_def Let_def n)
  have t: "take (8 + n) ?b2 = card_blob crc es"
    unfolding b2(2) by (simp add: n)
  have l2: "length ?b2 = CONFIG_NFC_STORE_BLOB_SIZE" "\<not> CONFIG_NFC_STORE_BLOB_SIZE < 6 + n + 2"
    using len n by (simp_all add: length_memcpy_at CONFIG_NFC_STORE_BLOB_SIZE_def)
  obtain r w2 where r: "cb t (card_blob crc es) w = (r, w2)" by fastforce
  show ?thesis
    unfolding nfc_store_save_finish_def nfc_store_append_crc_def
    using cb l2 t r b2(1)
    by (cases r) (simp_all add: io_simps io_bind_def io_case_def st_error_def del: split_paired_Ex, force+)
qed

text \<open>A save hands the backend exactly the envelope of the collected entries, and only if every
  service could be serialised.\<close>

lemma nfc_store_save_spec:
  assumes rd: "store_ready s" and t: "tag_ok s t" and cb: "so_save_cb s = Some cb"
  shows "\<exists>x. length (fst (snd x)) = CONFIG_NFC_STORE_BLOB_SIZE \<and>
    nfc_store_save crc False (Some t) svcs (s, w) =
      (case collect svcs NFC_STORE_BLOB_HDR_SIZE w of
         (Inl e, w1) \<Rightarrow> (Inl e, (store_upd x s, w1))
       | (Inr es, w1) \<Rightarrow> (case cb t (card_blob crc es) w1 of
           (Inl e, w2) \<Rightarrow> (Inl EIO, (store_upd x s, w2))
         | (Inr _, w2) \<Rightarrow> (Inr (), (store_upd x s, w2))))"
proof -
  let ?b0 = "memcpy_at (so_staging_buf s) 0 (card_header 2 0)"
  let ?x0 = "(so_stats s, ?b0, so_serialize_buf s)"
  have b0: "length ?b0 = CONFIG_NFC_STORE_BLOB_SIZE" "take 6 ?b0 = card_header 2 0"
    using rd by (auto simp: store_ready_def length_memcpy_at memcpy_at_0 CONFIG_NFC_STORE_BLOB_SIZE_def)
  obtain x1 where x1: "nfc_store_save_loop svcs 6 0 (store_upd ?x0 s, w) =
      (map_sum (\<lambda>e. e) (\<lambda>es. length (card_payload es)) (fst (collect svcs 6 w)), (store_upd x1 s, snd (collect svcs 6 w)))"
    "length (fst (snd x1)) = CONFIG_NFC_STORE_BLOB_SIZE"
    "\<And>es. fst (collect svcs 6 w) = Inr es \<Longrightarrow> 6 + length (card_payload es) + 2 \<le> CONFIG_NFC_STORE_BLOB_SIZE \<and>
       take (6 + length (card_payload es)) (fst (snd x1)) = card_header 2 0 @ card_payload es"
    using nfc_store_save_loop_refines [of "store_upd ?x0 s" 6 svcs 0 w] b0
    by (auto simp: CONFIG_NFC_STORE_BLOB_SIZE_def saves_as_def)
  have pre: "nfc_store_save crc False (Some t) svcs (s, w) =
      io_bind (nfc_store_save_loop svcs 6 0) (nfc_store_save_finish crc t) (store_upd ?x0 s, w)"
    using rd t
    by (simp add: nfc_store_save_def nfc_store_check_quiescent_def nfc_store_write_header_def io_simps
        store_ready_def card_header_def CONFIG_NFC_STORE_BLOB_SIZE_def lo8_def hi8_def)
  obtain r w1 where c: "collect svcs 6 w = (r, w1)" by fastforce
  show ?thesis
  proof (cases r)
    case (Inl e)
    then show ?thesis
      unfolding pre using x1 c by (intro exI [of _ x1]) (simp add: io_bind_def)
  next
    case (Inr es)
    then show ?thesis
      unfolding pre using x1 c cb nfc_store_save_finish_spec [of "store_upd x1 s" cb _ es crc t w1,
          unfolded store_upd_simps]
      by (simp add: io_bind_def del: split_paired_Ex)
  qed
qed

text \<open>A load of an accepted envelope of either version hands the parsed entries to the services.\<close>

lemma nfc_store_read_envelope_spec:
  assumes "so_load_cb s = Some cb" "length (so_staging_buf s) = CONFIG_NFC_STORE_BLOB_SIZE"
    "cb t CONFIG_NFC_STORE_BLOB_SIZE w = (Inr b, w1)" "length b \<le> CONFIG_NFC_STORE_BLOB_SIZE"
  shows "\<exists>x. length (fst (snd x)) = CONFIG_NFC_STORE_BLOB_SIZE \<and> take (length b) (fst (snd x)) = b \<and>
    nfc_store_read_envelope crc t (s, w) =
      (nfc_store_validate_blob_buf crc (Some b), (store_upd x s, w1))"
proof -
  let ?x = "(so_stats s, memcpy_at (so_staging_buf s) 0 b, so_serialize_buf s)"
  have x: "length (fst (snd ?x)) = CONFIG_NFC_STORE_BLOB_SIZE" "take (length b) (fst (snd ?x)) = b"
    using assms by (simp_all add: length_memcpy_at memcpy_at_0)
  show ?thesis
  proof (cases "nfc_store_validate_blob_buf crc (Some b)")
    case (Inl e)
    then show ?thesis
      using assms x
      by (intro exI [of _ "(ss_corrupt_blob_count_update (\<lambda>n. n + 1) (so_stats s), fst (snd ?x), so_serialize_buf s)"])
        (simp add: nfc_store_read_envelope_def io_simps io_bind_def io_case_def)
  next
    case (Inr y)
    then show ?thesis
      using assms x
      by (intro exI [of _ ?x]) (simp add: nfc_store_read_envelope_def io_simps io_bind_def io_case_def)
  qed
qed

lemma validate_blob_length:
  "nfc_store_validate_blob_buf crc (Some b) = Inr (n, v) \<Longrightarrow> length b = 8 + n"
  by (auto simp: nfc_store_validate_blob_buf_def Let_def split: if_splits)

lemma nfc_store_load_spec:
  assumes rd: "store_ready s" and t: "tag_ok s t" and cb: "so_load_cb s = Some cb"
    and ld: "cb t CONFIG_NFC_STORE_BLOB_SIZE w = (Inr b, w1)" "length b \<le> CONFIG_NFC_STORE_BLOB_SIZE"
  shows "\<exists>x. length (fst (snd x)) = CONFIG_NFC_STORE_BLOB_SIZE \<and>
    nfc_store_load crc False (Some t) svcs (s, w) =
      (case nfc_store_validate_blob_buf crc (Some b) of
         Inl e \<Rightarrow> (Inl e, (store_upd x s, w1))
       | Inr (n, v) \<Rightarrow> (case load_payload svcs v (sub_bytes 6 n b) None w1 of
           (Inl e, w2) \<Rightarrow> (Inl e, (store_upd x s, w2))
         | (Inr le, w2) \<Rightarrow> (if le = None then Inr () else Inl EBADMSG, (store_upd x s, w2))))"
proof -
  obtain x1 where x1: "length (fst (snd x1)) = CONFIG_NFC_STORE_BLOB_SIZE" "take (length b) (fst (snd x1)) = b"
    "nfc_store_read_envelope crc t (s, w) = (nfc_store_validate_blob_buf crc (Some b), (store_upd x1 s, w1))"
    using nfc_store_read_envelope_spec [OF cb _ ld, of crc] rd unfolding store_ready_def by blast
  have pre: "nfc_store_load crc False (Some t) svcs (s, w) =
      io_bind (nfc_store_read_envelope crc t) (\<lambda>(payload_len, version).
        io_bind (nfc_store_load_loop svcs version (6 + payload_len) 6 None) (\<lambda>last_err.
        if last_err \<noteq> None then io_fail EBADMSG else inc_load)) (s, w)"
    using rd t by (simp add: nfc_store_load_def nfc_store_check_quiescent_def io_simps store_ready_def)
  show ?thesis
  proof (cases "nfc_store_validate_blob_buf crc (Some b)")
    case (Inl e)
    then show ?thesis
      unfolding pre using x1 by (intro exI [of _ x1]) (simp add: io_bind_def)
  next
    case (Inr nv)
    obtain n v where nv: "nv = (n, v)" by fastforce
    have len: "length b = 8 + n" using Inr nv validate_blob_length by blast
    have sub: "sub_bytes 6 n (fst (snd x1)) = sub_bytes 6 n b"
      using sub_bytes_sub_bytes [of 6 n "8 + n" 0 "fst (snd x1)"] x1(2) len by (simp add: sub_bytes_0)
    have "\<exists>x. fst (snd x) = fst (snd x1) \<and> nfc_store_load_loop svcs v (6 + n) 6 None (store_upd x1 s, w1) =
        apsnd (Pair (store_upd x s)) (load_payload svcs v (sub_bytes 6 n b) None w1)"
      using nfc_store_load_loop_refines [of "6 + n" "store_upd x1 s" 6 svcs v None w1] x1(1) ld(2) len sub
      by simp
    then obtain x2 where x2: "fst (snd x2) = fst (snd x1)"
      "nfc_store_load_loop svcs v (6 + n) 6 None (store_upd x1 s, w1) =
        apsnd (Pair (store_upd x2 s)) (load_payload svcs v (sub_bytes 6 n b) None w1)" by blast
    obtain r w2 where r: "load_payload svcs v (sub_bytes 6 n b) None w1 = (r, w2)" by fastforce
    let ?x3 = "(ss_load_count_update (\<lambda>n. n + 1) (fst x2), snd x2)"
    show ?thesis
    proof (cases "r = Inr None")
      case True
      then show ?thesis
        unfolding pre using x1 x2 Inr nv r
        by (intro exI [of _ ?x3]) (simp add: io_bind_def io_simps)
    next
      case False
      then show ?thesis
        unfolding pre using x1 x2 Inr nv r
        by (intro exI [of _ x2]) (auto simp: io_bind_def io_simps split: sum.splits)
    qed
  qed
qed

section \<open>Backends\<close>

text \<open>What the store relies on in a backend: a map from tags to blobs.\<close>

locale blob_backend =
  fixes save :: "string \<Rightarrow> bytes \<Rightarrow> ('w, unit) io"
    and load :: "string \<Rightarrow> nat \<Rightarrow> ('w, bytes) io"
    and lookup :: "'w \<Rightarrow> string \<Rightarrow> bytes option"
    and invar :: "'w \<Rightarrow> bool"
  assumes save_ok: "invar w \<Longrightarrow> save t b w = (Inr (), w') \<Longrightarrow> invar w' \<and> lookup w' = (lookup w)(t \<mapsto> b)"
    and save_error: "invar w \<Longrightarrow> save t b w = (Inl e, w') \<Longrightarrow> w' = w"
    and load_spec: "invar w \<Longrightarrow> load t m w = (case lookup w t of None \<Rightarrow> (Inl ENOENT, w)
      | Some b \<Rightarrow> if length b \<le> m then (Inr b, w) else (Inl ENOSPC, w))"

lemma collect_bounds:
  "collect svcs pos w = (Inr es, w') \<Longrightarrow> pos + 2 \<le> CONFIG_NFC_STORE_BLOB_SIZE \<Longrightarrow>
    pos + length (card_payload es) + 2 \<le> CONFIG_NFC_STORE_BLOB_SIZE"
proof (induction svcs pos w arbitrary: es w' rule: collect.induct)
  case (2 svc svcs pos w)
  then show ?case
    by (fastforce split: option.splits if_splits prod.splits sum.splits)
qed simp

lemma length_bodies: "(i, fl, body) \<in> set es \<Longrightarrow> length body \<le> length (card_payload es)"
  by (induction es) auto

context blob_backend
begin

lemma load_card_blob:
  assumes inv: "invar w" and rd: "store_ready s" and t: "tag_ok s t" and cb: "so_load_cb s = Some load"
    and b: "lookup w t = Some (card_blob crc es)" "8 + length (card_payload es) \<le> CONFIG_NFC_STORE_BLOB_SIZE"
  shows "\<exists>x. length (fst (snd x)) = CONFIG_NFC_STORE_BLOB_SIZE \<and>
    nfc_store_load crc False (Some t) svcs (s, w) =
      (case restore svcs (map (\<lambda>(i, fl, body). (i, body)) es) None w of (le, w') \<Rightarrow>
         (if le = None then Inr () else Inl EBADMSG, (store_upd x s, w')))"
proof -
  have sz: "length (card_payload es) < 65536"
    using b(2) by (simp add: CONFIG_NFC_STORE_BLOB_SIZE_def)
  have "load t CONFIG_NFC_STORE_BLOB_SIZE w = (Inr (card_blob crc es), w)"
    using load_spec [OF inv] b by simp
  from nfc_store_load_spec [OF rd t cb this, of crc svcs] b(2) sz
  have "\<exists>x. length (fst (snd x)) = CONFIG_NFC_STORE_BLOB_SIZE \<and> nfc_store_load crc False (Some t) svcs (s, w) =
      (case load_payload svcs 2 (sub_bytes 6 (length (card_payload es)) (card_blob crc es)) None w of
         (Inl e, w2) \<Rightarrow> (Inl e, (store_upd x s, w2))
       | (Inr le, w2) \<Rightarrow> (if le = None then Inr () else Inl EBADMSG, (store_upd x s, w2)))"
    by (simp add: card_blob_valid del: split_paired_Ex)
  moreover have "sub_bytes 6 (length (card_payload es)) (card_blob crc es) = card_payload es"
    by (simp add: card_blob_def Let_def sub_bytes_def)
  moreover have "\<forall>(i, fl, body) \<in> set es. length body < 65536"
    using length_bodies sz by fastforce
  ultimately show ?thesis
    by (cases "restore svcs (map (\<lambda>(i, fl, body). (i, body)) es) None w")
      (simp add: load_payload_def card_parse_payload del: split_paired_Ex)
qed

lemma save_then_load:
  assumes rd: "store_ready s" "tag_ok s t" "so_save_cb s = Some save"
    and ser: "collect svcs NFC_STORE_BLOB_HDR_SIZE w = (Inr es, w1)" "invar w1"
    and sv: "nfc_store_save crc False (Some t) svcs (s, w) = (Inr (), (s', w'))"
    and rd2: "store_ready s2" "tag_ok s2 t" "so_load_cb s2 = Some load"
    and w2: "invar w2" "lookup w2 t = lookup w' t"
  shows "\<exists>x. nfc_store_load crc False (Some t) svcs2 (s2, w2) =
      (case restore svcs2 (map (\<lambda>(i, fl, body). (i, body)) es) None w2 of (le, w3) \<Rightarrow>
         (if le = None then Inr () else Inl EBADMSG, (store_upd x s2, w3)))"
proof -
  obtain r w'' where r: "save t (card_blob crc es) w1 = (r, w'')" by fastforce
  have "r = Inr () \<and> w'' = w'"
    using nfc_store_save_spec [OF rd, of crc svcs w] sv ser r
    by (cases r) (simp_all del: split_paired_Ex, blast)
  then have "lookup w2 t = Some (card_blob crc es)"
    using save_ok [OF ser(2)] r w2 by auto
  moreover have "8 + length (card_payload es) \<le> CONFIG_NFC_STORE_BLOB_SIZE"
    using collect_bounds [OF ser(1)] by (simp add: CONFIG_NFC_STORE_BLOB_SIZE_def)
  ultimately show ?thesis
    using load_card_blob [OF w2(1) rd2] by blast
qed

end

section \<open>Properties\<close>

text \<open>C11. The integrity check of a stored blob accepts exactly the envelopes of the format: magic, a
  known version, the payload length, the payload, and the CRC of all that precedes it.\<close>

theorem nfc_store_validate_blob_exact:
  "nfc_store_validate_blob_buf crc (Some x) = Inr (n, v) \<longleftrightarrow>
    (v = NFC_STORE_BLOB_VERSION \<or> v = NFC_STORE_BLOB_VERSION_V1) \<and> n < 65536 \<and>
    (\<exists>r p. length p = n \<and>
      x = (let b = [NFC_STORE_BLOB_MAGIC_0, NFC_STORE_BLOB_MAGIC_1, v, r, lo8 n, hi8 n] @ p in b @ crc_bytes (crc b)))"
  (is "?L \<longleftrightarrow> ?R")
proof
  assume L: ?L
  then have len: "length x = 8 + n" and n: "n = unat (le16 (x ! 4) (x ! 5))"
    and m: "x ! 0 = 0x4E" "x ! 1 = 0x46" "x ! 2 = v" "v = 2 \<or> v = 1"
    and c: "crc (take (6 + n) x) = le16 (x ! (6 + n)) (x ! (7 + n))"
    by (auto simp: nfc_store_validate_blob_buf_def Let_def split: if_splits)
  have c': "[x ! (6 + n), x ! (7 + n)] = crc_bytes (crc (take (6 + n) x))"
    unfolding c by (simp add: crc_bytes_def lo8_hi8_le16)
  have "take 6 x = [x ! 0, x ! 1, x ! 2, x ! 3, x ! 4, x ! 5]"
    using len by (intro nth_equalityI) (auto simp: less_Suc_eq numeral_eq_Suc)
  then have hd: "take 6 x = [0x4E, 0x46, v, x ! 3, lo8 n, hi8 n]"
    using m by (simp add: n lo8_hi8_le16)
  have bd: "take (6 + n) x = take 6 x @ sub_bytes 6 n x"
    by (simp add: sub_bytes_def take_add)
  have "drop (6 + n) x = [x ! (6 + n), x ! (7 + n)]"
    using len by (intro nth_equalityI) (auto simp: less_Suc_eq numeral_eq_Suc)
  then have x: "x = take (6 + n) x @ crc_bytes (crc (take (6 + n) x))"
    using c' by (metis append_take_drop_id)
  have "n < 65536" unfolding n by simp
  moreover have "length (sub_bytes 6 n x) = n" using len by (simp add: sub_bytes_def)
  ultimately show ?R
    using m(4) x unfolding bd hd Let_def by auto
next
  assume ?R
  then show ?L using validate_blob_accepts [of v _ _ _ crc] by (auto simp: Let_def)
qed


definition sample_store :: "'w load_fn \<Rightarrow> 'w nfc_store" where
  "sample_store cb = nfc_store_boot\<lparr>so_state := INITIALIZED, so_load_cb := Some cb, so_resolved_max_tag_len := 16\<rparr>"


end
