(* ===== verification/Store_Ram.thy ===== *)
theory Store_Ram
  imports Card_Store
begin

text \<open>
  The RAM backend (\<open>store/nfc_store_ram.c\<close>): a fixed array of slots.  It is proved to implement a
  finite map from tags to blobs of bounded size, the contract \<open>blob_backend\<close> of the store.
  The spinlock around each operation is not modelled: an operation is one step.
\<close>

section \<open>State and operations\<close>

definition CONFIG_NFC_STORE_RAM_SLOT_COUNT :: nat where "CONFIG_NFC_STORE_RAM_SLOT_COUNT = 4"

text \<open>\<open>sl_tag\<close> is the C string held by the \<open>char\<close> array.\<close>

record nfc_store_ram_slot =
  sl_tag :: string
  sl_blob :: bytes
  sl_len :: nat
  sl_occupied :: bool

type_synonym ram_slots = "nfc_store_ram_slot list"

definition nfc_store_ram_boot :: ram_slots where
  "nfc_store_ram_boot = replicate CONFIG_NFC_STORE_RAM_SLOT_COUNT
     \<lparr>sl_tag = [], sl_blob = replicate CONFIG_NFC_STORE_BLOB_SIZE 0, sl_len = 0, sl_occupied = False\<rparr>"

text \<open>The first index that satisfies a condition; \<open>None\<close> is -1.\<close>

fun find_index :: "('a \<Rightarrow> bool) \<Rightarrow> 'a list \<Rightarrow> nat option" where
  "find_index P [] = None"
| "find_index P (x # xs) = (if P x then Some 0 else map_option Suc (find_index P xs))"

definition nfc_store_ram_find_tag :: "string \<Rightarrow> ram_slots \<Rightarrow> nat option" where
  "nfc_store_ram_find_tag tag slots = find_index (\<lambda>s. sl_occupied s \<and> sl_tag s = tag) slots"

definition nfc_store_ram_find_free :: "ram_slots \<Rightarrow> nat option" where
  "nfc_store_ram_find_free slots = find_index (\<lambda>s. \<not> sl_occupied s) slots"

definition nfc_store_ram_reset :: "ram_slots \<Rightarrow> ram_slots" where
  "nfc_store_ram_reset slots = map (\<lambda>s. s\<lparr>sl_occupied := False, sl_len := 0, sl_tag := []\<rparr>) slots"

definition nfc_store_ram_write :: "string \<Rightarrow> bytes \<Rightarrow> nfc_store_ram_slot \<Rightarrow> nfc_store_ram_slot" where
  "nfc_store_ram_write tag blob s = s\<lparr>sl_tag := take (CONFIG_NFC_STORE_MAX_TAG_LEN - 1) tag,
     sl_blob := memcpy_at (sl_blob s) 0 blob, sl_len := length blob, sl_occupied := True\<rparr>"

definition nfc_store_ram_save_cb :: "string \<Rightarrow> bytes \<Rightarrow> (ram_slots, unit) io" where
  "nfc_store_ram_save_cb tag blob slots =
     (if length tag = 0 \<or> CONFIG_NFC_STORE_MAX_TAG_LEN \<le> length tag then (Inl EINVAL, slots)
      else if CONFIG_NFC_STORE_BLOB_SIZE < length blob then (Inl ENOSPC, slots)
      else
        let slot_idx = (case nfc_store_ram_find_tag tag slots of
              Some i \<Rightarrow> Some i | None \<Rightarrow> nfc_store_ram_find_free slots) in
        case slot_idx of
          None \<Rightarrow> (Inl ENOSPC, slots)
        | Some i \<Rightarrow> (Inr (), slots[i := nfc_store_ram_write tag blob (slots ! i)]))"

definition nfc_store_ram_load_cb :: "string \<Rightarrow> nat \<Rightarrow> (ram_slots, bytes) io" where
  "nfc_store_ram_load_cb tag mx slots =
     (case nfc_store_ram_find_tag tag slots of
        None \<Rightarrow> (Inl ENOENT, slots)
      | Some i \<Rightarrow> if mx < sl_len (slots ! i) then (Inl ENOSPC, slots)
                 else (Inr (take (sl_len (slots ! i)) (sl_blob (slots ! i))), slots))"

text \<open>\<open>nfc_store_ram_init\<close> on the flag \<open>s_ready\<close> and the store; \<open>sv\<close> and \<open>ld\<close> are the two callbacks above
  as they act on the state \<open>'w\<close> that holds the slots.\<close>

definition nfc_store_ram_init ::
  "'w save_fn \<Rightarrow> 'w load_fn \<Rightarrow> bool \<times> 'w nfc_store \<Rightarrow> unit result \<times> (bool \<times> 'w nfc_store)" where
  "nfc_store_ram_init sv ld rs = (case rs of (ready, s) \<Rightarrow>
     if ready then (Inr (), (ready, s))
     else (case nfc_store_init None s of (r, s1) \<Rightarrow>
       if r \<noteq> Inr () \<and> r \<noteq> Inl EALREADY then (r, (ready, s1))
       else (case nfc_store_register_save_cb (Some sv) s1 of
         (Inl e, s2) \<Rightarrow> (Inl e, (ready, s2))
       | (Inr _, s2) \<Rightarrow> (case nfc_store_register_load_cb (Some ld) s2 of
           (Inl e, s3) \<Rightarrow> (Inl e, (ready, s3))
         | (Inr _, s3) \<Rightarrow> (Inr (), (True, s3))))))"

section \<open>Invariant and refinement to a map\<close>

definition slot_ok :: "nfc_store_ram_slot \<Rightarrow> bool" where
  "slot_ok s \<longleftrightarrow> length (sl_blob s) = CONFIG_NFC_STORE_BLOB_SIZE \<and> sl_len s \<le> CONFIG_NFC_STORE_BLOB_SIZE \<and>
     length (sl_tag s) < CONFIG_NFC_STORE_MAX_TAG_LEN"

definition ram_inv :: "ram_slots \<Rightarrow> bool" where
  "ram_inv slots \<longleftrightarrow> length slots = CONFIG_NFC_STORE_RAM_SLOT_COUNT \<and> (\<forall>s \<in> set slots. slot_ok s) \<and>
     (\<forall>i j. i < length slots \<longrightarrow> j < length slots \<longrightarrow> sl_occupied (slots ! i) \<longrightarrow> sl_occupied (slots ! j) \<longrightarrow>
        sl_tag (slots ! i) = sl_tag (slots ! j) \<longrightarrow> i = j)"

definition ram_map :: "ram_slots \<Rightarrow> string \<Rightarrow> bytes option" where
  "ram_map slots tag = map_option (\<lambda>i. take (sl_len (slots ! i)) (sl_blob (slots ! i)))
     (nfc_store_ram_find_tag tag slots)"

lemma option_eq_Some_iff: "(\<And>j. a = Some j \<longleftrightarrow> b = Some j) \<Longrightarrow> a = b"
  by (cases a; cases b) auto

lemma find_index_None: "find_index P xs = None \<longleftrightarrow> (\<forall>x \<in> set xs. \<not> P x)"
  by (induction xs) auto

lemma find_index_Some:
  "find_index P xs = Some i \<longleftrightarrow> i < length xs \<and> P (xs ! i) \<and> (\<forall>j < i. \<not> P (xs ! j))"
proof (induction xs arbitrary: i)
  case (Cons x xs)
  show ?case
    by (cases i) (auto simp: Cons.IH nth_Cons less_Suc_eq_0_disj split: if_splits)
qed simp

lemma find_tag_unique:
  assumes "ram_inv slots"
  shows "nfc_store_ram_find_tag t slots = Some i \<longleftrightarrow>
    i < length slots \<and> sl_occupied (slots ! i) \<and> sl_tag (slots ! i) = t"
  using assms unfolding nfc_store_ram_find_tag_def find_index_Some ram_inv_def
  by (metis order.strict_trans less_irrefl)

lemma ram_inv_boot: "ram_inv nfc_store_ram_boot" "ram_map nfc_store_ram_boot = Map.empty"
  by (auto simp: ram_inv_def nfc_store_ram_boot_def slot_ok_def ram_map_def nfc_store_ram_find_tag_def
      find_index_None CONFIG_NFC_STORE_MAX_TAG_LEN_def)

lemma ram_reset:
  assumes "ram_inv slots"
  shows "ram_inv (nfc_store_ram_reset slots)" "ram_map (nfc_store_ram_reset slots) = Map.empty"
  using assms
  by (auto simp: ram_inv_def nfc_store_ram_reset_def slot_ok_def ram_map_def nfc_store_ram_find_tag_def
      find_index_None CONFIG_NFC_STORE_MAX_TAG_LEN_def)

text \<open>Writing a tag into its own slot or into a free one, when no other slot holds it.\<close>

lemma ram_write:
  assumes inv: "ram_inv slots" and i: "i < length slots"
    and own: "\<And>j. j < length slots \<Longrightarrow> sl_occupied (slots ! j) \<Longrightarrow> sl_tag (slots ! j) = t \<Longrightarrow> j = i"
    and free: "sl_occupied (slots ! i) \<Longrightarrow> sl_tag (slots ! i) = t"
    and t: "length t < CONFIG_NFC_STORE_MAX_TAG_LEN" and b: "length b \<le> CONFIG_NFC_STORE_BLOB_SIZE"
  defines "slots' \<equiv> slots[i := nfc_store_ram_write t b (slots ! i)]"
  shows "ram_inv slots'" "ram_map slots' = (ram_map slots)(t \<mapsto> b)"
proof -
  have tt: "take (CONFIG_NFC_STORE_MAX_TAG_LEN - 1) t = t"
    using t by simp
  have len: "length (sl_blob (slots ! i)) = CONFIG_NFC_STORE_BLOB_SIZE"
    using inv i by (auto simp: ram_inv_def slot_ok_def)
  have ok: "slot_ok (nfc_store_ram_write t b (slots ! i))"
    using len t b tt by (simp add: slot_ok_def nfc_store_ram_write_def length_memcpy_at)
  have at: "slots' ! j = (if j = i then nfc_store_ram_write t b (slots ! i) else slots ! j)"
    if "j < length slots" for j
    using i that by (simp add: slots'_def)
  have wr: "sl_occupied (nfc_store_ram_write t b (slots ! i))" "sl_tag (nfc_store_ram_write t b (slots ! i)) = t"
    "take (sl_len (nfc_store_ram_write t b (slots ! i))) (sl_blob (nfc_store_ram_write t b (slots ! i))) = b"
    using tt by (simp_all add: nfc_store_ram_write_def memcpy_at_0)
  have ln: "length slots' = length slots" by (simp add: slots'_def)
  have own': "m = i" if "m < length slots" "sl_occupied (slots' ! m)" "sl_tag (slots' ! m) = t" for m
    using own [of m] that at [of m] by (cases "m = i") auto
  have tag_i: "sl_tag (slots' ! i) = t" "sl_occupied (slots' ! i)"
    using at [OF i] wr by auto
  show inv': "ram_inv slots'"
    unfolding ram_inv_def ln
  proof (intro conjI allI impI)
    show "length slots = CONFIG_NFC_STORE_RAM_SLOT_COUNT" using inv by (simp add: ram_inv_def)
    show "\<forall>s \<in> set slots'. slot_ok s"
      using inv ok set_update_subset_insert [of slots i] by (auto simp: ram_inv_def slots'_def)
  next
    fix j k
    assume jk: "j < length slots" "k < length slots" and occ: "sl_occupied (slots' ! j)" "sl_occupied (slots' ! k)"
      and tags: "sl_tag (slots' ! j) = sl_tag (slots' ! k)"
    show "j = k"
    proof (cases "j = i \<or> k = i")
      case True
      with own' [OF jk(1) occ(1)] own' [OF jk(2) occ(2)] tags tag_i(1) show ?thesis by metis
    next
      case False
      with inv jk occ tags at [OF jk(1)] at [OF jk(2)] show ?thesis
        unfolding ram_inv_def by auto
    qed
  qed
  have other: "nfc_store_ram_find_tag u slots' = nfc_store_ram_find_tag u slots" if "u \<noteq> t" for u
  proof -
    have "nfc_store_ram_find_tag u slots' = Some j \<longleftrightarrow> nfc_store_ram_find_tag u slots = Some j" for j
      unfolding find_tag_unique [OF inv] find_tag_unique [OF inv'] ln
      using that free wr by (cases "j = i") (auto simp: at)
    then show ?thesis by (rule option_eq_Some_iff)
  qed
  have self: "nfc_store_ram_find_tag t slots' = Some i"
    using i wr ln by (simp add: find_tag_unique [OF inv'] at)
  have "ram_map slots' u = ((ram_map slots)(t \<mapsto> b)) u" for u
  proof (cases "u = t")
    case True
    then show ?thesis using self wr i by (simp add: ram_map_def at)
  next
    case False
    have "j \<noteq> i" "j < length slots" if "nfc_store_ram_find_tag u slots = Some j" for j
      using that False free by (auto simp: find_tag_unique [OF inv])
    then show ?thesis
      using False other [OF False]
      by (cases "nfc_store_ram_find_tag u slots") (auto simp: ram_map_def at)
  qed
  then show "ram_map slots' = (ram_map slots)(t \<mapsto> b)" ..
qed

lemma ram_save_ok:
  assumes inv: "ram_inv slots" and r: "nfc_store_ram_save_cb t b slots = (Inr (), slots')"
  shows "ram_inv slots' \<and> ram_map slots' = (ram_map slots)(t \<mapsto> b)"
proof -
  from r have t: "length t < CONFIG_NFC_STORE_MAX_TAG_LEN" and b: "length b \<le> CONFIG_NFC_STORE_BLOB_SIZE"
    by (auto simp: nfc_store_ram_save_cb_def split: if_splits)
  obtain i where s': "slots' = slots[i := nfc_store_ram_write t b (slots ! i)]"
    and i: "nfc_store_ram_find_tag t slots = Some i \<or>
      (nfc_store_ram_find_tag t slots = None \<and> nfc_store_ram_find_free slots = Some i)"
    using r by (auto simp: nfc_store_ram_save_cb_def Let_def split: if_splits option.splits)
  have nf: "\<not> (sl_occupied (slots ! j) \<and> sl_tag (slots ! j) = t)"
    if "nfc_store_ram_find_tag t slots = None" "j < length slots" for j
    using that by (auto simp: nfc_store_ram_find_tag_def find_index_None)
  have free: "nfc_store_ram_find_free slots = Some j \<Longrightarrow> j < length slots \<and> \<not> sl_occupied (slots ! j)" for j
    by (simp add: nfc_store_ram_find_free_def find_index_Some)
  have tg: "nfc_store_ram_find_tag t slots = Some j"
    if "j < length slots" "sl_occupied (slots ! j)" "sl_tag (slots ! j) = t" for j
    unfolding find_tag_unique [OF inv] using that by simp
  have own: "j = i" if "j < length slots" "sl_occupied (slots ! j)" "sl_tag (slots ! j) = t" for j
    using tg [OF that] i by auto
  have il: "i < length slots" and occ: "sl_occupied (slots ! i) \<Longrightarrow> sl_tag (slots ! i) = t"
    using i free [of i] find_tag_unique [OF inv, of t i] by auto
  show ?thesis
    unfolding s' by (rule conjI; rule ram_write [OF inv il]; fact own occ t b)
qed

lemma ram_save_error: "nfc_store_ram_save_cb t b slots = (Inl e, slots') \<Longrightarrow> slots' = slots"
  by (auto simp: nfc_store_ram_save_cb_def Let_def split: if_splits option.splits)

lemma ram_load_spec:
  assumes "ram_inv slots"
  shows "nfc_store_ram_load_cb t m slots = (case ram_map slots t of None \<Rightarrow> (Inl ENOENT, slots)
    | Some b \<Rightarrow> if length b \<le> m then (Inr b, slots) else (Inl ENOSPC, slots))"
proof (cases "nfc_store_ram_find_tag t slots")
  case (Some i)
  then have "slot_ok (slots ! i)"
    using assms by (simp add: find_tag_unique) (simp add: ram_inv_def)
  with Some show ?thesis
    by (auto simp: nfc_store_ram_load_cb_def ram_map_def slot_ok_def)
qed (simp add: nfc_store_ram_load_cb_def ram_map_def)

interpretation ram_backend: blob_backend nfc_store_ram_save_cb nfc_store_ram_load_cb ram_map ram_inv
proof
  fix w w' t b
  assume "ram_inv w" "nfc_store_ram_save_cb t b w = (Inr (), w')"
  then show "ram_inv w' \<and> ram_map w' = (ram_map w)(t \<mapsto> b)" by (rule ram_save_ok)
next
  fix w w' t b e
  assume "nfc_store_ram_save_cb t b w = (Inl e, w')"
  then show "w' = w" by (rule ram_save_error)
next
  fix w t m
  assume "ram_inv w"
  then show "nfc_store_ram_load_cb t m w = (case ram_map w t of None \<Rightarrow> (Inl ENOENT, w)
      | Some b \<Rightarrow> if length b \<le> m then (Inr b, w) else (Inl ENOSPC, w))" by (rule ram_load_spec)
qed

text \<open>A save fails for want of space only when all slots hold other tags.\<close>

lemma ram_save_room:
  assumes inv: "ram_inv slots" and t: "t \<noteq> []" "length t < CONFIG_NFC_STORE_MAX_TAG_LEN"
    and b: "length b \<le> CONFIG_NFC_STORE_BLOB_SIZE"
  shows "fst (nfc_store_ram_save_cb t b slots) =
    (if ram_map slots t = None \<and> (\<forall>s \<in> set slots. sl_occupied s) then Inl ENOSPC else Inr ())"
proof -
  have "nfc_store_ram_find_free slots = None \<longleftrightarrow> (\<forall>s \<in> set slots. sl_occupied s)"
    by (simp add: nfc_store_ram_find_free_def find_index_None)
  then show ?thesis
    using assms
    by (cases "nfc_store_ram_find_free slots")
      (auto simp: nfc_store_ram_save_cb_def Let_def ram_map_def split: option.split)
qed

section \<open>Properties\<close>

text \<open>A history of saves, with those that succeeded.\<close>

fun ram_history :: "(string \<times> bytes) list \<Rightarrow> ram_slots \<Rightarrow> ram_slots \<times> (string \<times> bytes) list" where
  "ram_history [] slots = (slots, [])"
| "ram_history ((t, b) # hist) slots =
     (case nfc_store_ram_save_cb t b slots of
        (Inl _, slots') \<Rightarrow> ram_history hist slots'
      | (Inr _, slots') \<Rightarrow> apsnd (Cons (t, b)) (ram_history hist slots'))"

lemma ram_history_map:
  "ram_inv slots \<Longrightarrow> ram_inv (fst (ram_history hist slots)) \<and>
    ram_map (fst (ram_history hist slots)) = ram_map slots ++ map_of (rev (snd (ram_history hist slots)))"
proof (induction hist arbitrary: slots)
  case (Cons x hist)
  obtain t b where x: "x = (t, b)" by (cases x)
  obtain r slots' where r: "nfc_store_ram_save_cb t b slots = (r, slots')" by fastforce
  show ?case
  proof (cases r)
    case (Inl e)
    then show ?thesis using Cons r x ram_save_error by fastforce
  next
    case (Inr u)
    with r Cons.prems have s': "ram_inv slots'" "ram_map slots' = (ram_map slots)(t \<mapsto> b)"
      using ram_save_ok by auto
    with Cons.IH [OF s'(1)] Inr r x show ?thesis
      by (simp add: map_add_def fun_eq_iff split: option.split)
  qed
qed simp

text \<open>C8. The slots implement a map: after any history of saves since boot, a load returns, for every tag,
  the blob of the last save of that tag that succeeded, or reports that there is none.\<close>

theorem ram_store_last_write:
  "nfc_store_ram_load_cb t m (fst (ram_history hist nfc_store_ram_boot)) =
     (case map_of (rev (snd (ram_history hist nfc_store_ram_boot))) t of
        None \<Rightarrow> (Inl ENOENT, fst (ram_history hist nfc_store_ram_boot))
      | Some b \<Rightarrow> if length b \<le> m then (Inr b, fst (ram_history hist nfc_store_ram_boot))
          else (Inl ENOSPC, fst (ram_history hist nfc_store_ram_boot)))"
  using ram_history_map [OF ram_inv_boot(1), of hist]
  by (simp add: ram_load_spec ram_inv_boot(2))

end
