(* ===== verification/Reader_Session.thy ===== *)
theory Reader_Session
  imports Io_Steps
begin

text \<open>
  The reader side's view of a tag: the session of \<open>reader/nfc_reader_engine.h\<close> with the tag
  information of \<open>hal/nfc_transport.h\<close>, and \<open>nfc_reader_session_transceive\<close>.  The HAL function
  \<open>nfc_transport_tag_transceive\<close> is a parameter \<open>hal :: bytes \<Rightarrow> nat \<Rightarrow> 't \<Rightarrow> bytes result \<times> 't\<close>: the
  command, the size of the receive buffer, and the state of the tag and the field.
\<close>

section \<open>Tags and sessions\<close>

record nfc_uid =
  uid_bytes :: bytes
  uid_len :: u8

record nfc_transport_tag_info =
  ti_uid :: nfc_uid
  ti_protocol :: u8
  ti_interface :: u8
  ti_mode_tech :: u8
  ti_valid :: bool

record nfc_reader_session =
  rs_active :: bool
  rs_tag :: nfc_transport_tag_info

definition nfc_reader_session_zero :: nfc_reader_session where
  "nfc_reader_session_zero = \<lparr>rs_active = False, rs_tag = \<lparr>ti_uid = \<lparr>uid_bytes = replicate 10 0, uid_len = 0\<rparr>,
     ti_protocol = 0, ti_interface = 0, ti_mode_tech = 0, ti_valid = False\<rparr>\<rparr>"

definition nfc_reader_session_transceive ::
  "(bytes \<Rightarrow> nat \<Rightarrow> ('t, bytes) io) \<Rightarrow> nfc_reader_session option \<Rightarrow> bytes \<Rightarrow> nat \<Rightarrow> ('t, bytes) io" where
  "nfc_reader_session_transceive hal session tx rx_max = (case session of
     None \<Rightarrow> io_fail EINVAL
   | Some s \<Rightarrow> if \<not> rs_active s then io_fail ENODEV else hal tx rx_max)"

lemma session_transceive_active [simp]:
  "rs_active s \<Longrightarrow> nfc_reader_session_transceive hal (Some s) tx n = hal tx n"
  by (simp add: nfc_reader_session_transceive_def)

text \<open>A field with no tag in it.\<close>

definition no_tag :: "bytes \<Rightarrow> nat \<Rightarrow> (unit, bytes) io" where
  "no_tag tx n = io_fail ETIMEDOUT"

end
