(* ===== verification/Ndef_Model.thy ===== *)
theory Ndef_Model
  imports Nfc_Prelude
begin

text \<open>
  The NDEF Type-4 data model and its serialisation (\<open>protocols/ndef/ndef.c\<close>).
  \<open>uint16_t\<close> lengths are natural numbers with the truncation of each cast written out.
\<close>

definition CONFIG_NFC_NDEF_MAX_SIZE :: nat where "CONFIG_NFC_NDEF_MAX_SIZE = 500"

abbreviation (input) NFC_NDEF_FORMAT_VERSION :: u8 where "NFC_NDEF_FORMAT_VERSION \<equiv> 0x01"
abbreviation (input) NFC_NDEF_CC_LEN :: nat where "NFC_NDEF_CC_LEN \<equiv> 15"
abbreviation (input) NFC_NDEF_NLEN_FIELD_LEN :: nat where "NFC_NDEF_NLEN_FIELD_LEN \<equiv> 2"

definition NDEF_FILE_BUF_SIZE :: nat where
  "NDEF_FILE_BUF_SIZE = NFC_NDEF_NLEN_FIELD_LEN + CONFIG_NFC_NDEF_MAX_SIZE"

lemmas ndef_sizes = CONFIG_NFC_NDEF_MAX_SIZE_def NDEF_FILE_BUF_SIZE_def

record ndef_data =
  nd_cc :: bytes
  nd_ndef_file :: bytes
  nd_cc_len :: nat
  nd_ndef_file_len :: nat

definition ndef_data_reset :: ndef_data where
  "ndef_data_reset = \<lparr>nd_cc = replicate NFC_NDEF_CC_LEN 0, nd_ndef_file = replicate NDEF_FILE_BUF_SIZE 0,
     nd_cc_len = 0, nd_ndef_file_len = 0\<rparr>"

definition ndef_blob_payload_len :: "ndef_data \<Rightarrow> nat" where
  "ndef_blob_payload_len d = NFC_NDEF_CC_LEN + nd_ndef_file_len d"

definition ndef_blob_total_len :: "ndef_data \<Rightarrow> nat" where
  "ndef_blob_total_len d = 1 + ndef_blob_payload_len d"

text \<open>\<open>out = None\<close> stands for a NULL \<open>out\<close> or \<open>out_len\<close>, \<open>Some m\<close> for a buffer of \<open>m\<close> bytes.\<close>

definition ndef_serialize :: "ndef_data option \<Rightarrow> nat option \<Rightarrow> bytes result" where
  "ndef_serialize data out = (case (data, out) of
     (Some d, Some out_max) \<Rightarrow>
       if nd_cc_len d \<noteq> NFC_NDEF_CC_LEN then Inl EINVAL
       else if NFC_NDEF_NLEN_FIELD_LEN + CONFIG_NFC_NDEF_MAX_SIZE < nd_ndef_file_len d then Inl EINVAL
       else if out_max < ndef_blob_total_len d then Inl ENOSPC
       else Inr (NFC_NDEF_FORMAT_VERSION # take NFC_NDEF_CC_LEN (nd_cc d)
                 @ take (nd_ndef_file_len d) (nd_ndef_file d))
   | _ \<Rightarrow> Inl EINVAL)"

definition ndef_nlen_from_file :: "bytes \<Rightarrow> nat \<Rightarrow> nat result" where
  "ndef_nlen_from_file f flen =
     (if flen < NFC_NDEF_NLEN_FIELD_LEN then Inl EBADMSG
      else let nlen = unat (be16 (f ! 0) (f ! 1)) in
        if CONFIG_NFC_NDEF_MAX_SIZE < nlen then Inl EBADMSG
        else if (NFC_NDEF_NLEN_FIELD_LEN + nlen) mod 2 ^ 16 \<noteq> flen then Inl EBADMSG
        else Inr nlen)"

text \<open>The returned data is what \<open>*data\<close> holds afterwards, on the error paths too.\<close>

definition ndef_deserialize :: "bytes option \<Rightarrow> ndef_data \<Rightarrow> unit result \<times> ndef_data" where
  "ndef_deserialize inp d = (case inp of
     None \<Rightarrow> (Inl EINVAL, d)
   | Some i \<Rightarrow>
     if length i < 1 + NFC_NDEF_CC_LEN + NFC_NDEF_NLEN_FIELD_LEN then (Inl EBADMSG, d)
     else if i ! 0 \<noteq> NFC_NDEF_FORMAT_VERSION then (Inl EBADMSG, d)
     else if length i - 1 < NFC_NDEF_CC_LEN + NFC_NDEF_NLEN_FIELD_LEN then (Inl EBADMSG, d)
     else
       let d1 = ndef_data_reset\<lparr>nd_cc_len := NFC_NDEF_CC_LEN,
                  nd_cc := memcpy_at (nd_cc ndef_data_reset) 0 (sub_bytes 1 NFC_NDEF_CC_LEN i),
                  nd_ndef_file_len := (length i - 1 - NFC_NDEF_CC_LEN) mod 2 ^ 16\<rparr> in
       if NDEF_FILE_BUF_SIZE < nd_ndef_file_len d1 then (Inl EBADMSG, d1)
       else
         let d2 = d1\<lparr>nd_ndef_file := memcpy_at (nd_ndef_file d1) 0
                        (sub_bytes (1 + NFC_NDEF_CC_LEN) (nd_ndef_file_len d1) i)\<rparr> in
         (map_sum id (\<lambda>_. ()) (ndef_nlen_from_file (nd_ndef_file d2) (nd_ndef_file_len d2)), d2))"

section \<open>Well-formed data\<close>

text \<open>The shape of the C structure.\<close>

definition ndef_data_ok :: "ndef_data \<Rightarrow> bool" where
  "ndef_data_ok d \<longleftrightarrow> length (nd_cc d) = NFC_NDEF_CC_LEN \<and> length (nd_ndef_file d) = NDEF_FILE_BUF_SIZE \<and>
     nd_cc_len d < 2 ^ 16 \<and> nd_ndef_file_len d < 2 ^ 16"

text \<open>The NLEN field, and data whose length field agrees with it.\<close>

definition ndef_nlen :: "ndef_data \<Rightarrow> nat" where
  "ndef_nlen d = unat (be16 (nd_ndef_file d ! 0) (nd_ndef_file d ! 1))"

definition ndef_consistent :: "ndef_data \<Rightarrow> bool" where
  "ndef_consistent d \<longleftrightarrow> ndef_data_ok d \<and> nd_cc_len d = NFC_NDEF_CC_LEN \<and>
     ndef_nlen d \<le> CONFIG_NFC_NDEF_MAX_SIZE \<and>
     nd_ndef_file_len d = NFC_NDEF_NLEN_FIELD_LEN + ndef_nlen d"

definition ndef_message :: "ndef_data \<Rightarrow> bytes" where
  "ndef_message d = sub_bytes NFC_NDEF_NLEN_FIELD_LEN (ndef_nlen d) (nd_ndef_file d)"

text \<open>Clearing the file beyond its length, as deserialisation into reset data leaves it.\<close>

definition ndef_trim :: "ndef_data \<Rightarrow> ndef_data" where
  "ndef_trim d = d\<lparr>nd_ndef_file := take (nd_ndef_file_len d) (nd_ndef_file d)
     @ replicate (NDEF_FILE_BUF_SIZE - nd_ndef_file_len d) 0\<rparr>"

section \<open>Correctness\<close>

lemma ndef_reset_ok [simp]: "ndef_data_ok ndef_data_reset"
  by (simp add: ndef_data_ok_def ndef_data_reset_def)

lemma ndef_deserialize_ok:
  assumes "ndef_data_ok d"
  shows "ndef_data_ok (snd (ndef_deserialize i d))"
  using assms
  by (auto simp: ndef_deserialize_def Let_def ndef_data_ok_def ndef_data_reset_def ndef_sizes
      memcpy_at_0 sub_bytes_def split: option.splits)

lemma ndef_serialize_consistent:
  assumes "ndef_consistent d" "18 + ndef_nlen d \<le> m"
  shows "ndef_serialize (Some d) (Some m) =
     Inr (NFC_NDEF_FORMAT_VERSION # nd_cc d @ take (nd_ndef_file_len d) (nd_ndef_file d))"
  using assms
  by (simp add: ndef_serialize_def ndef_consistent_def ndef_data_ok_def ndef_blob_total_len_def
      ndef_blob_payload_len_def ndef_sizes)

lemma ndef_roundtrip:
  assumes d: "ndef_consistent d" and m: "18 + ndef_nlen d \<le> m"
  shows "\<exists>b. ndef_serialize (Some d) (Some m) = Inr b \<and>
    ndef_deserialize (Some b) d0 = (Inr (), ndef_trim d)"
proof -
  let ?b = "NFC_NDEF_FORMAT_VERSION # nd_cc d @ take (nd_ndef_file_len d) (nd_ndef_file d)"
  from d have len: "length (nd_cc d) = 15" "length (nd_ndef_file d) = 502" "nd_cc_len d = 15"
    "ndef_nlen d \<le> 500" "nd_ndef_file_len d = 2 + ndef_nlen d"
    by (auto simp: ndef_consistent_def ndef_data_ok_def ndef_sizes)
  have head: "take (nd_ndef_file_len d) (nd_ndef_file d) ! 0 = nd_ndef_file d ! 0"
    "take (nd_ndef_file_len d) (nd_ndef_file d) ! 1 = nd_ndef_file d ! 1"
    using len by simp_all
  have "ndef_deserialize (Some ?b) d0 = (Inr (), ndef_trim d)"
    using len head
    by (simp add: ndef_deserialize_def Let_def ndef_data_reset_def ndef_sizes memcpy_at_0
        sub_bytes_def ndef_trim_def ndef_nlen_from_file_def ndef_nlen_def nth_append)
  then show ?thesis
    using ndef_serialize_consistent [OF d m] by blast
qed

lemma ndef_deserialize_InrD:
  assumes "ndef_deserialize (Some i) d0 = (Inr (), d)" "length i < 2 ^ 16"
  shows "ndef_consistent d \<and> length i = 16 + nd_ndef_file_len d \<and>
    i = NFC_NDEF_FORMAT_VERSION # nd_cc d @ take (nd_ndef_file_len d) (nd_ndef_file d) \<and>
    ndef_trim d = d"
proof -
  from assms(1) have len: "18 \<le> length i" and v: "i ! 0 = 1"
    by (auto simp: ndef_deserialize_def split: if_splits)
  have md: "(length i - 16) mod 65536 = length i - 16" "\<not> length i - Suc 0 < 17"
    using assms(2) len by simp_all
  let ?f = "drop 16 i @ replicate (502 - (length i - 16)) 0"
  from assms(1) len v have small: "length i - 16 \<le> 502"
    by (auto simp: ndef_deserialize_def Let_def ndef_sizes md split: if_splits)
  have d: "d = \<lparr>nd_cc = sub_bytes 1 15 i, nd_ndef_file = ?f, nd_cc_len = 15,
      nd_ndef_file_len = length i - 16\<rparr>"
    and ok: "\<exists>n. ndef_nlen_from_file ?f (length i - 16) = Inr n"
    using assms(1) len v small
    by (auto simp: ndef_deserialize_def Let_def ndef_sizes md ndef_data_reset_def memcpy_at_0
        sub_bytes_def map_sum_def split: sum.splits)
  then obtain n where n: "ndef_nlen_from_file ?f (length i - 16) = Inr n" by blast
  then have cons: "unat (be16 (?f ! 0) (?f ! 1)) = n" "n \<le> 500" "length i - 16 = 2 + n"
    using small by (auto simp: ndef_nlen_from_file_def Let_def ndef_sizes split: if_splits)
  from cons(3) have li: "length i = 18 + n"
    using len by linarith
  have "i = take 1 i @ sub_bytes 1 15 i @ drop 16 i"
    using len by (simp add: sub_bytes_def flip: append_assoc take_add)
  moreover have "take 1 i = [1]"
    using len v by (cases i) auto
  ultimately have "i = 1 # sub_bytes 1 15 i @ drop 16 i"
    by simp
  then show ?thesis
    using d cons li
    by (simp add: ndef_consistent_def ndef_data_ok_def ndef_nlen_def ndef_trim_def ndef_sizes
        sub_bytes_def)
qed

section \<open>Properties\<close>

text \<open>C14. The persistent encoding of a tag is faithful: a consistent tag is serialised within the
  announced buffer, and what is read back is the tag itself, with the unused part of the file cleared.\<close>

theorem ndef_serialize_deserialize:
  assumes "ndef_consistent d" "18 + ndef_nlen d \<le> m"
  shows "\<exists>b. ndef_serialize (Some d) (Some m) = Inr b \<and> length b \<le> m \<and>
    ndef_deserialize (Some b) d0 = (Inr (), ndef_trim d)"
proof -
  have "length (nd_cc d) = 15" "nd_ndef_file_len d = 2 + ndef_nlen d"
    using assms(1) by (auto simp: ndef_consistent_def ndef_data_ok_def)
  with assms(2) show ?thesis
    using ndef_roundtrip [OF assms, of d0] ndef_serialize_consistent [OF assms] by auto
qed

definition sample_ndef :: ndef_data where
  "sample_ndef = \<lparr>nd_cc = replicate 15 0, nd_ndef_file = replicate 502 0, nd_cc_len = 15, nd_ndef_file_len = 2\<rparr>"

lemma sample_ndef: "ndef_consistent sample_ndef" "ndef_nlen sample_ndef = 0"
proof -
  have "replicate 502 (0 :: u8) ! 1 = 0" by (rule nth_replicate) simp
  then show "ndef_consistent sample_ndef" "ndef_nlen sample_ndef = 0"
    by (simp_all add: ndef_consistent_def ndef_data_ok_def ndef_nlen_def sample_ndef_def ndef_sizes be16_def)
qed

theorem ndef_serialize_deserialize_witness:
  "\<exists>b. ndef_serialize (Some sample_ndef) (Some 32) = Inr b \<and>
     ndef_deserialize (Some b) ndef_data_reset = (Inr (), ndef_trim sample_ndef)"
  using ndef_serialize_deserialize [of sample_ndef 32 ndef_data_reset] sample_ndef by auto

text \<open>Only encodings are accepted: a blob that deserialises is, byte for byte, the encoding of the
  tag it is read as, and that tag is consistent.\<close>

theorem ndef_deserialize_sound:
  assumes "ndef_deserialize (Some i) d0 = (Inr (), d)" "length i < 2 ^ 16"
  shows "ndef_consistent d \<and> ndef_serialize (Some d) (Some (length i)) = Inr i"
proof -
  note * = ndef_deserialize_InrD [OF assms]
  then have "18 + ndef_nlen d \<le> length i" by (auto simp: ndef_consistent_def)
  with * ndef_serialize_consistent [of d "length i"] show ?thesis by simp
qed

theorem ndef_deserialize_sound_witness:
  "\<exists>b. ndef_serialize (Some (ndef_trim sample_ndef)) (Some (length b)) = Inr b"
proof -
  obtain b where b: "ndef_serialize (Some sample_ndef) (Some 32) = Inr b"
    "ndef_deserialize (Some b) ndef_data_reset = (Inr (), ndef_trim sample_ndef)"
    using ndef_roundtrip [of sample_ndef 32 ndef_data_reset] sample_ndef by auto
  have "length b < 2 ^ 16"
    using b(1) ndef_serialize_consistent [of sample_ndef 32] sample_ndef by (auto simp: sample_ndef_def)
  from ndef_deserialize_sound [OF b(2) this] show ?thesis by blast
qed

end
