(* ===== verification/Ndef_Listener.thy ===== *)
theory Ndef_Listener
  imports Ndef_Model Apdu_Framing
begin

text \<open>
  The Type-4 tag emulation (\<open>protocols/ndef/ndef_listener.c\<close>): file selection, READ BINARY and
  UPDATE BINARY on the CC and NDEF files, and the store callbacks.  A handler returns the new
  module state and, in order, the calls it makes outside the module: \<open>nfc_transport_send_response\<close>
  (whose result the listener ignores) and \<open>nfc_stack_on_service_dirty\<close>.
\<close>

section \<open>State\<close>

datatype listener_effect = Eff_Send bytes | Eff_Dirty

fun sent :: "listener_effect list \<Rightarrow> bytes list" where
  "sent [] = []"
| "sent (Eff_Send b # xs) = b # sent xs"
| "sent (Eff_Dirty # xs) = sent xs"

lemma sent_append [simp]: "sent (xs @ ys) = sent xs @ sent ys"
  by (induction xs rule: sent.induct) auto

datatype ndef_file_sel = NDEF_FILE_NONE | NDEF_FILE_CC | NDEF_FILE_NDEF

record ndef_listener =
  nl_model :: ndef_data
  nl_writable :: bool
  nl_initialized :: bool
  nl_file_sel :: ndef_file_sel

definition ndef_listener_boot :: ndef_listener where
  "ndef_listener_boot = \<lparr>nl_model = ndef_data_reset, nl_writable = False, nl_initialized = False,
     nl_file_sel = NDEF_FILE_NONE\<rparr>"

abbreviation (input) NDEF_FILE_ID_CC :: nat where "NDEF_FILE_ID_CC \<equiv> 0xE103"
abbreviation (input) NDEF_FILE_ID_NDEF :: nat where "NDEF_FILE_ID_NDEF \<equiv> 0xE104"
abbreviation (input) NDEF_SELECT_P2_FIRST_FCI :: u8 where "NDEF_SELECT_P2_FIRST_FCI \<equiv> 0x00"
abbreviation (input) NDEF_SELECT_P2_NO_FCI :: u8 where "NDEF_SELECT_P2_NO_FCI \<equiv> 0x0C"
abbreviation (input) NDEF_CC_WR_ACCESS_OPEN :: u8 where "NDEF_CC_WR_ACCESS_OPEN \<equiv> 0x00"
abbreviation (input) NDEF_CC_WR_ACCESS_NONE :: u8 where "NDEF_CC_WR_ACCESS_NONE \<equiv> 0xFF"

section \<open>Helpers\<close>

definition ndef_listener_send_sw :: "nat \<Rightarrow> listener_effect list" where
  "ndef_listener_send_sw sw = [Eff_Send (sw_bytes sw)]"

definition ndef_listener_build_cc :: "bool \<Rightarrow> bytes" where
  "ndef_listener_build_cc writable =
     (let mle = CONFIG_NFC_NDEF_MAX_SIZE + NFC_NDEF_NLEN_FIELD_LEN;
          mlc = CONFIG_NFC_NDEF_MAX_SIZE; max_ndef = CONFIG_NFC_NDEF_MAX_SIZE in
      [0x00, lo8 NFC_NDEF_CC_LEN, 0x20, hi8 mle, lo8 mle, hi8 mlc, lo8 mlc, 0x04, 0x06, 0xE1, 0x04,
       hi8 max_ndef, lo8 max_ndef, 0x00,
       if writable then NDEF_CC_WR_ACCESS_OPEN else NDEF_CC_WR_ACCESS_NONE])"

definition ndef_listener_sync_file_len :: "ndef_listener \<Rightarrow> ndef_listener" where
  "ndef_listener_sync_file_len s =
     (let m = nl_model s; nlen = unat (be16 (nd_ndef_file m ! 0) (nd_ndef_file m ! 1)) in
      if nlen \<le> CONFIG_NFC_NDEF_MAX_SIZE
      then s\<lparr>nl_model := m\<lparr>nd_ndef_file_len := NFC_NDEF_NLEN_FIELD_LEN + nlen\<rparr>\<rparr>
      else s)"

definition ndef_pad_file :: "ndef_data \<Rightarrow> ndef_data" where
  "ndef_pad_file m = m\<lparr>nd_ndef_file := (if nd_ndef_file_len m < NDEF_FILE_BUF_SIZE
       then memset_at (nd_ndef_file m) (nd_ndef_file_len m) 0 (NDEF_FILE_BUF_SIZE - nd_ndef_file_len m)
       else nd_ndef_file m),
     nd_ndef_file_len := NDEF_FILE_BUF_SIZE\<rparr>"

definition ndef_listener_pad_ndef_file :: "ndef_listener \<Rightarrow> ndef_listener" where
  "ndef_listener_pad_ndef_file s = s\<lparr>nl_model := ndef_pad_file (nl_model s)\<rparr>"

definition ndef_listener_cc_is_zero_placeholder :: "ndef_data \<Rightarrow> bool" where
  "ndef_listener_cc_is_zero_placeholder m \<longleftrightarrow> list_all (\<lambda>b. b = 0) (take NFC_NDEF_CC_LEN (nd_cc m))"

section \<open>APDU handlers\<close>

definition ndef_listener_on_select :: "ndef_listener \<Rightarrow> ndef_listener \<times> listener_effect list" where
  "ndef_listener_on_select s = (s\<lparr>nl_file_sel := NDEF_FILE_NONE\<rparr>, ndef_listener_send_sw NFC_SW_OK)"

definition ndef_listener_select_p2_valid :: "u8 \<Rightarrow> bool" where
  "ndef_listener_select_p2_valid p2 \<longleftrightarrow> p2 = NDEF_SELECT_P2_FIRST_FCI \<or> p2 = NDEF_SELECT_P2_NO_FCI"

definition ndef_listener_handle_select_file ::
  "nfc_apdu \<Rightarrow> ndef_listener \<Rightarrow> ndef_listener \<times> listener_effect list" where
  "ndef_listener_handle_select_file a s =
     (if apdu_p1 a \<noteq> NFC_SELECT_P1_BY_FILE_ID then (s, ndef_listener_send_sw NFC_SW_WRONG_P1P2)
      else if \<not> ndef_listener_select_p2_valid (apdu_p2 a) then (s, ndef_listener_send_sw NFC_SW_WRONG_P1P2)
      else if apdu_lc a \<noteq> 2 then (s, ndef_listener_send_sw NFC_SW_WRONG_LENGTH)
      else case apdu_data a of
        None \<Rightarrow> (s, ndef_listener_send_sw NFC_SW_WRONG_LENGTH)
      | Some d \<Rightarrow>
          let file_id = unat (be16 (d ! 0) (d ! 1)) in
          if file_id = NDEF_FILE_ID_CC
          then (s\<lparr>nl_file_sel := NDEF_FILE_CC\<rparr>, ndef_listener_send_sw NFC_SW_OK)
          else if file_id = NDEF_FILE_ID_NDEF
          then (s\<lparr>nl_file_sel := NDEF_FILE_NDEF\<rparr>, ndef_listener_send_sw NFC_SW_OK)
          else (s, ndef_listener_send_sw NFC_SW_FILE_NOT_FOUND))"

definition ndef_listener_read_ne :: "nfc_apdu \<Rightarrow> nat \<Rightarrow> nat" where
  "ndef_listener_read_ne a available =
     (if \<not> apdu_has_le a then available
      else if apdu_extended a \<and> apdu_le a = 0 then (if available < 65536 then available else 65536)
      else if \<not> apdu_extended a \<and> apdu_le a = 0 then (if available < 256 then available else 256)
      else unat (apdu_le a))"

definition apdu_offset :: "nfc_apdu \<Rightarrow> nat" where
  "apdu_offset a = unat (be16 (apdu_p1 a) (apdu_p2 a))"

definition ndef_listener_handle_read_binary ::
  "nfc_apdu \<Rightarrow> ndef_listener \<Rightarrow> ndef_listener \<times> listener_effect list" where
  "ndef_listener_handle_read_binary a s =
     (if nl_file_sel s = NDEF_FILE_NONE then (s, ndef_listener_send_sw NFC_SW_NO_EF)
      else
        let file = (if nl_file_sel s = NDEF_FILE_CC then nd_cc (nl_model s) else nd_ndef_file (nl_model s));
            file_length = (if nl_file_sel s = NDEF_FILE_CC then NFC_NDEF_CC_LEN else NDEF_FILE_BUF_SIZE);
            offset = apdu_offset a in
        if file_length \<le> offset then (s, ndef_listener_send_sw NFC_SW_WRONG_OFFSET)
        else
          let available = file_length - offset; ne = ndef_listener_read_ne a available in
          if ne = 0 then (s, ndef_listener_send_sw NFC_SW_WRONG_OFFSET)
          else
            let actual = (if ne < available then ne else available);
                actual = (if NFC_TRANSPORT_MAX_RESPONSE_LEN - 2 < actual
                          then NFC_TRANSPORT_MAX_RESPONSE_LEN - 2 else actual) in
            (s, [Eff_Send (sub_bytes offset actual file @ sw_bytes NFC_SW_OK)]))"

definition ndef_listener_handle_update_binary ::
  "nfc_apdu \<Rightarrow> ndef_listener \<Rightarrow> ndef_listener \<times> listener_effect list" where
  "ndef_listener_handle_update_binary a s =
     (if nl_file_sel s = NDEF_FILE_NONE then (s, ndef_listener_send_sw NFC_SW_NO_EF)
      else if nl_file_sel s = NDEF_FILE_CC then (s, ndef_listener_send_sw NFC_SW_CONDITIONS_NOT_SAT)
      else if \<not> nl_writable s then (s, ndef_listener_send_sw NFC_SW_CONDITIONS_NOT_SAT)
      else if apdu_lc a = 0 then (s, ndef_listener_send_sw NFC_SW_WRONG_LENGTH)
      else case apdu_data a of
        None \<Rightarrow> (s, ndef_listener_send_sw NFC_SW_WRONG_LENGTH)
      | Some d \<Rightarrow>
          let offset = apdu_offset a; lc = unat (apdu_lc a); m = nl_model s in
          if NDEF_FILE_BUF_SIZE < offset + lc then (s, ndef_listener_send_sw NFC_SW_WRONG_LENGTH)
          else (s\<lparr>nl_model := m\<lparr>nd_ndef_file := memcpy_at (nd_ndef_file m) offset (take lc d)\<rparr>\<rparr>,
                Eff_Dirty # ndef_listener_send_sw NFC_SW_OK))"

definition ndef_listener_on_apdu ::
  "nfc_apdu option \<Rightarrow> ndef_listener \<Rightarrow> ndef_listener \<times> listener_effect list" where
  "ndef_listener_on_apdu apdu s = (case apdu of
     None \<Rightarrow> (s, [])
   | Some a \<Rightarrow>
     if apdu_cla a \<noteq> 0x00 then (s, ndef_listener_send_sw NFC_SW_CLA_NOT_SUPPORTED)
     else if apdu_ins a = NFC_INS_SELECT then ndef_listener_handle_select_file a s
     else if apdu_ins a = NFC_INS_READ_BINARY then ndef_listener_handle_read_binary a s
     else if apdu_ins a = NFC_INS_UPDATE_BINARY then ndef_listener_handle_update_binary a s
     else (s, ndef_listener_send_sw NFC_SW_INS_NOT_SUPPORTED))"

definition ndef_listener_on_deselect :: "ndef_listener \<Rightarrow> ndef_listener" where
  "ndef_listener_on_deselect s = s\<lparr>nl_file_sel := NDEF_FILE_NONE\<rparr>"

definition ndef_listener_on_field_off :: "ndef_listener \<Rightarrow> ndef_listener" where
  "ndef_listener_on_field_off s = s\<lparr>nl_file_sel := NDEF_FILE_NONE\<rparr>"

section \<open>Store callbacks and life cycle\<close>

definition ndef_listener_serialize :: "nat option \<Rightarrow> ndef_listener \<Rightarrow> bytes result \<times> ndef_listener" where
  "ndef_listener_serialize out s =
     (if \<not> nl_initialized s then (Inl ENODEV, s)
      else let s' = ndef_listener_sync_file_len s in (ndef_serialize (Some (nl_model s')) out, s'))"

definition ndef_listener_deserialize :: "bytes option \<Rightarrow> ndef_listener \<Rightarrow> unit result \<times> ndef_listener" where
  "ndef_listener_deserialize inp s =
     (if \<not> nl_initialized s then (Inl ENODEV, s)
      else case ndef_deserialize inp (nl_model s) of
        (Inl e, m) \<Rightarrow> (Inl e, s\<lparr>nl_model := m\<rparr>)
      | (Inr _, m) \<Rightarrow>
          let m' = (if ndef_listener_cc_is_zero_placeholder m
                    then m\<lparr>nd_cc := ndef_listener_build_cc (nl_writable s), nd_cc_len := NFC_NDEF_CC_LEN\<rparr>
                    else m) in
          (Inr (), ndef_listener_pad_ndef_file (s\<lparr>nl_model := m'\<rparr>)))"

text \<open>\<open>cfg\<close> is the \<open>writable\<close> flag of a given configuration, \<open>None\<close> the NULL configuration.\<close>

definition ndef_listener_init ::
  "ndef_data option \<Rightarrow> bool option \<Rightarrow> ndef_listener \<Rightarrow> unit result \<times> ndef_listener" where
  "ndef_listener_init model cfg s =
     (if nl_initialized s then (Inl EALREADY, s)
      else
        let w = (case cfg of None \<Rightarrow> True | Some b \<Rightarrow> b);
            m = (case model of None \<Rightarrow> ndef_data_reset | Some d \<Rightarrow> d);
            m1 = (if nd_cc_len m = NFC_NDEF_CC_LEN
                  then m\<lparr>nd_cc := (nd_cc m)[14 := (if w then NDEF_CC_WR_ACCESS_OPEN else NDEF_CC_WR_ACCESS_NONE)]\<rparr>
                  else m\<lparr>nd_cc := ndef_listener_build_cc w, nd_cc_len := NFC_NDEF_CC_LEN\<rparr>) in
        (Inr (), (ndef_listener_pad_ndef_file (s\<lparr>nl_model := m1, nl_writable := w\<rparr>))
           \<lparr>nl_file_sel := NDEF_FILE_NONE, nl_initialized := True\<rparr>))"

definition ndef_listener_shutdown :: "ndef_listener \<Rightarrow> unit result \<times> ndef_listener" where
  "ndef_listener_shutdown s = (if \<not> nl_initialized s then (Inr (), s)
     else (Inr (), s\<lparr>nl_initialized := False, nl_file_sel := NDEF_FILE_NONE\<rparr>))"

section \<open>Invariant: no handler leaves its buffers\<close>

lemmas ndef_handler_defs = ndef_listener_on_apdu_def ndef_listener_handle_select_file_def
  ndef_listener_handle_read_binary_def ndef_listener_handle_update_binary_def Let_def

lemmas ndef_lifecycle_defs = ndef_listener_serialize_def ndef_listener_deserialize_def
  ndef_listener_init_def ndef_listener_shutdown_def ndef_listener_on_select_def
  ndef_listener_on_deselect_def ndef_listener_on_field_off_def Let_def

definition ndef_listener_inv :: "ndef_listener \<Rightarrow> bool" where
  "ndef_listener_inv s \<longleftrightarrow> ndef_data_ok (nl_model s) \<and>
     (nl_initialized s \<longrightarrow> nd_cc_len (nl_model s) = NFC_NDEF_CC_LEN)"

lemma length_build_cc [simp]: "length (ndef_listener_build_cc w) = NFC_NDEF_CC_LEN"
  by (simp add: ndef_listener_build_cc_def Let_def)

lemma ndef_pad_file_ok: "ndef_data_ok m \<Longrightarrow> ndef_data_ok (ndef_pad_file m)"
  by (auto simp: ndef_data_ok_def ndef_pad_file_def length_memset_at ndef_sizes)

lemma ndef_pad_file_simps [simp]:
  "nd_cc (ndef_pad_file m) = nd_cc m" "nd_cc_len (ndef_pad_file m) = nd_cc_len m"
  "nd_ndef_file_len (ndef_pad_file m) = NDEF_FILE_BUF_SIZE"
  by (simp_all add: ndef_pad_file_def)

lemma ndef_inv_boot: "ndef_listener_inv ndef_listener_boot"
  by (simp add: ndef_listener_inv_def ndef_listener_boot_def)

lemma ndef_inv_on_apdu:
  assumes "ndef_listener_inv s" "apdu_in_frame a"
  shows "ndef_listener_inv (fst (ndef_listener_on_apdu (Some a) s))"
  using assms
  by (auto simp: ndef_handler_defs ndef_listener_inv_def ndef_data_ok_def length_memcpy_at
      apdu_in_frame_def split: option.splits)

lemma ndef_inv_sync: "ndef_listener_inv s \<Longrightarrow> ndef_listener_inv (ndef_listener_sync_file_len s)"
  by (auto simp: ndef_listener_sync_file_len_def ndef_listener_inv_def ndef_data_ok_def Let_def ndef_sizes)

lemma ndef_inv_serialize:
  "ndef_listener_inv s \<Longrightarrow> ndef_listener_inv (snd (ndef_listener_serialize out s))"
  by (simp add: ndef_lifecycle_defs ndef_inv_sync)

lemma ndef_deserialize_cc_len:
  "nd_cc_len d = NFC_NDEF_CC_LEN \<Longrightarrow> nd_cc_len (snd (ndef_deserialize i d)) = NFC_NDEF_CC_LEN"
  by (auto simp: ndef_deserialize_def Let_def split: option.splits)

lemma ndef_inv_deserialize:
  assumes "ndef_listener_inv s"
  shows "ndef_listener_inv (snd (ndef_listener_deserialize inp s))"
proof (cases "nl_initialized s")
  case False
  with assms show ?thesis by (simp add: ndef_lifecycle_defs)
next
  case True
  obtain res m where m: "ndef_deserialize inp (nl_model s) = (res, m)" by fastforce
  have ok: "ndef_data_ok m" "nd_cc_len m = NFC_NDEF_CC_LEN"
    using assms True ndef_deserialize_ok [of "nl_model s" inp] ndef_deserialize_cc_len [of "nl_model s" inp] m
    by (auto simp: ndef_listener_inv_def)
  have "ndef_data_ok (m\<lparr>nd_cc := ndef_listener_build_cc b, nd_cc_len := NFC_NDEF_CC_LEN\<rparr>)" for b
    using ok by (simp add: ndef_data_ok_def)
  with True m ok show ?thesis
    by (cases res) (auto simp: ndef_lifecycle_defs ndef_listener_inv_def
        ndef_listener_pad_ndef_file_def intro: ndef_pad_file_ok)
qed

lemma ndef_inv_init:
  assumes "ndef_listener_inv s" "\<forall>m. model = Some m \<longrightarrow> ndef_data_ok m"
  shows "ndef_listener_inv (snd (ndef_listener_init model cfg s))"
proof (cases "nl_initialized s")
  case True
  with assms show ?thesis by (simp add: ndef_lifecycle_defs)
next
  case False
  define m where "m = (case model of None \<Rightarrow> ndef_data_reset | Some d \<Rightarrow> d)"
  define w where "w = (case cfg of None \<Rightarrow> True | Some b \<Rightarrow> b)"
  have "ndef_data_ok m"
    using assms(2) by (cases model) (auto simp: m_def)
  then have "ndef_data_ok (m\<lparr>nd_cc := (nd_cc m)[14 := x]\<rparr>)"
    and "ndef_data_ok (m\<lparr>nd_cc := ndef_listener_build_cc w, nd_cc_len := NFC_NDEF_CC_LEN\<rparr>)" for x
    by (simp_all add: ndef_data_ok_def)
  with False show ?thesis
    by (simp add: ndef_listener_init_def ndef_listener_inv_def ndef_listener_pad_ndef_file_def
        ndef_pad_file_ok Let_def flip: m_def w_def)
qed

lemma ndef_inv_session:
  "ndef_listener_inv s \<Longrightarrow> ndef_listener_inv (fst (ndef_listener_on_select s))"
  "ndef_listener_inv s \<Longrightarrow> ndef_listener_inv (ndef_listener_on_deselect s)"
  "ndef_listener_inv s \<Longrightarrow> ndef_listener_inv (ndef_listener_on_field_off s)"
  "ndef_listener_inv s \<Longrightarrow> ndef_listener_inv (snd (ndef_listener_shutdown s))"
  by (auto simp: ndef_lifecycle_defs ndef_listener_inv_def)

text \<open>Every APDU is answered exactly once, within the transport's response limit.\<close>

definition one_response :: "listener_effect list \<Rightarrow> bool" where
  "one_response es \<longleftrightarrow> (\<exists>b. sent es = [b] \<and> 2 \<le> length b \<and> length b \<le> NFC_TRANSPORT_MAX_RESPONSE_LEN)"

lemma one_response_send_sw [simp]:
  "one_response (ndef_listener_send_sw sw)" "one_response (Eff_Dirty # ndef_listener_send_sw sw)"
  by (simp_all add: one_response_def ndef_listener_send_sw_def)

lemma one_response_data:
  "n \<le> NFC_TRANSPORT_MAX_RESPONSE_LEN - 2 \<Longrightarrow>
    one_response [Eff_Send (sub_bytes off n f @ sw_bytes sw)]"
  by (simp add: one_response_def sub_bytes_def)

lemma one_response_read: "one_response (snd (ndef_listener_handle_read_binary a s))"
  unfolding ndef_listener_handle_read_binary_def Let_def
  by (simp add: one_response_data)

lemma ndef_listener_one_response: "one_response (snd (ndef_listener_on_apdu (Some a) s))"
  unfolding ndef_listener_on_apdu_def
  by (simp add: one_response_read ndef_listener_handle_select_file_def
      ndef_listener_handle_update_binary_def Let_def split: option.split)

section \<open>Sessions: sequences of APDUs\<close>

fun ndef_listener_run :: "nfc_apdu list \<Rightarrow> ndef_listener \<Rightarrow> ndef_listener \<times> listener_effect list" where
  "ndef_listener_run [] s = (s, [])"
| "ndef_listener_run (a # as) s =
     (let (s1, e1) = ndef_listener_on_apdu (Some a) s; (s2, e2) = ndef_listener_run as s1 in (s2, e1 @ e2))"

lemma ndef_on_apdu_frame:
  "nd_cc (nl_model (fst (ndef_listener_on_apdu (Some a) s))) = nd_cc (nl_model s)"
  "nl_writable (fst (ndef_listener_on_apdu (Some a) s)) = nl_writable s"
  "nl_initialized (fst (ndef_listener_on_apdu (Some a) s)) = nl_initialized s"
  "\<not> nl_writable s \<Longrightarrow> nl_model (fst (ndef_listener_on_apdu (Some a) s)) = nl_model s"
  by (auto simp: ndef_handler_defs split: option.splits)

lemma ndef_run_frame:
  "nd_cc (nl_model (fst (ndef_listener_run as s))) = nd_cc (nl_model s) \<and>
   nl_writable (fst (ndef_listener_run as s)) = nl_writable s \<and>
   (\<not> nl_writable s \<longrightarrow> nl_model (fst (ndef_listener_run as s)) = nl_model s)"
  by (induction as arbitrary: s) (auto simp: Let_def split_beta ndef_on_apdu_frame)

lemma ndef_run_inv:
  "ndef_listener_inv s \<Longrightarrow> \<forall>a \<in> set as. apdu_in_frame a \<Longrightarrow> ndef_listener_inv (fst (ndef_listener_run as s))"
  by (induction as arbitrary: s) (auto simp: Let_def split_beta ndef_inv_on_apdu)

lemma ndef_run_responses:
  "ndef_listener_inv s \<Longrightarrow> \<forall>a \<in> set as. apdu_in_frame a \<Longrightarrow>
     length (sent (snd (ndef_listener_run as s))) = length as \<and>
     (\<forall>b \<in> set (sent (snd (ndef_listener_run as s))). 2 \<le> length b \<and> length b \<le> NFC_TRANSPORT_MAX_RESPONSE_LEN)"
proof (induction as arbitrary: s)
  case Nil
  then show ?case by simp
next
  case (Cons a as)
  obtain b where "sent (snd (ndef_listener_on_apdu (Some a) s)) = [b]" "2 \<le> length b"
    "length b \<le> NFC_TRANSPORT_MAX_RESPONSE_LEN"
    using ndef_listener_one_response [of a s] by (auto simp: one_response_def)
  with Cons.IH [of "fst (ndef_listener_on_apdu (Some a) s)"] Cons.prems show ?case
    by (auto simp: Let_def split_beta ndef_inv_on_apdu)
qed

section \<open>Reads and writes\<close>

lemma ndef_read_binary_exact:
  assumes "nl_file_sel s \<noteq> NDEF_FILE_NONE" "apdu_has_le a" "unat (apdu_le a) = n" "0 < n"
    "n \<le> NFC_TRANSPORT_MAX_RESPONSE_LEN - 2"
    "apdu_offset a + n \<le> (if nl_file_sel s = NDEF_FILE_CC then NFC_NDEF_CC_LEN else NDEF_FILE_BUF_SIZE)"
  shows "ndef_listener_handle_read_binary a s = (s, [Eff_Send (sub_bytes (apdu_offset a) n
     (if nl_file_sel s = NDEF_FILE_CC then nd_cc (nl_model s) else nd_ndef_file (nl_model s))
     @ sw_bytes NFC_SW_OK)])"
proof -
  have nz: "apdu_le a \<noteq> 0" using assms(3,4) by auto
  define L where "L = (if nl_file_sel s = NDEF_FILE_CC then NFC_NDEF_CC_LEN else NDEF_FILE_BUF_SIZE)"
  have "\<not> L \<le> apdu_offset a" "(if n < L - apdu_offset a then n else L - apdu_offset a) = n"
    using assms(4,6) by (auto simp: L_def)
  with assms nz show ?thesis
    by (simp add: ndef_listener_handle_read_binary_def ndef_listener_read_ne_def Let_def
        flip: L_def split del: if_split)
qed

lemma apdu_offset_hi_lo: "apdu_p1 a = hi8 off \<Longrightarrow> apdu_p2 a = lo8 off \<Longrightarrow> off < 65536 \<Longrightarrow> apdu_offset a = off"
  by (simp add: apdu_offset_def unat_be16_hi_lo)

lemma unat_of_nat_u16: "n < 65536 \<Longrightarrow> unat (of_nat n :: u16) = n"
  by (simp add: unat_of_nat)

lemma ndef_update_binary_exact:
  assumes "nl_file_sel s = NDEF_FILE_NDEF" "nl_writable s" "apdu_lc a \<noteq> 0" "apdu_data a = Some d"
    "apdu_offset a + unat (apdu_lc a) \<le> NDEF_FILE_BUF_SIZE"
  shows "ndef_listener_handle_update_binary a s =
    (s\<lparr>nl_model := (nl_model s)\<lparr>nd_ndef_file :=
        memcpy_at (nd_ndef_file (nl_model s)) (apdu_offset a) (apdu_body a)\<rparr>\<rparr>,
     Eff_Dirty # ndef_listener_send_sw NFC_SW_OK)"
  using assms by (simp add: ndef_listener_handle_update_binary_def Let_def apdu_body_def)

section \<open>Saving and loading\<close>

lemma ndef_sync_consistent:
  assumes "ndef_listener_inv s" "nl_initialized s" "ndef_nlen (nl_model s) \<le> CONFIG_NFC_NDEF_MAX_SIZE"
  shows "ndef_consistent (nl_model (ndef_listener_sync_file_len s))"
    "nd_cc (nl_model (ndef_listener_sync_file_len s)) = nd_cc (nl_model s)"
    "nd_ndef_file (nl_model (ndef_listener_sync_file_len s)) = nd_ndef_file (nl_model s)"
    "nd_ndef_file_len (nl_model (ndef_listener_sync_file_len s)) = 2 + ndef_nlen (nl_model s)"
  using assms
  by (auto simp: ndef_listener_sync_file_len_def Let_def ndef_nlen_def ndef_consistent_def
      ndef_listener_inv_def ndef_data_ok_def ndef_sizes)

lemma ndef_pad_trim:
  assumes "ndef_data_ok m" "nd_ndef_file_len m \<le> NDEF_FILE_BUF_SIZE"
  shows "nd_ndef_file (ndef_pad_file m) =
    take (nd_ndef_file_len m) (nd_ndef_file m) @ replicate (NDEF_FILE_BUF_SIZE - nd_ndef_file_len m) 0"
  using assms by (auto simp: ndef_pad_file_def memset_at_def memcpy_at_def ndef_data_ok_def)

lemma ndef_nlen_take:
  assumes "nd_ndef_file x = take n (nd_ndef_file y) @ zs" "2 \<le> n" "n \<le> length (nd_ndef_file y)"
  shows "ndef_nlen x = ndef_nlen y"
  using assms by (simp add: ndef_nlen_def nth_append)

lemma ndef_listener_save_load:
  assumes s: "ndef_listener_inv s" "nl_initialized s"
    and n: "ndef_nlen (nl_model s) \<le> CONFIG_NFC_NDEF_MAX_SIZE"
    and cc: "\<not> ndef_listener_cc_is_zero_placeholder (nl_model s)"
    and t: "nl_initialized t" and m: "18 + ndef_nlen (nl_model s) \<le> m"
  shows "\<exists>b s' t'. ndef_listener_serialize (Some m) s = (Inr b, s') \<and>
     ndef_listener_deserialize (Some b) t = (Inr (), t') \<and>
     nd_cc (nl_model t') = nd_cc (nl_model s) \<and> ndef_nlen (nl_model t') = ndef_nlen (nl_model s) \<and>
     ndef_message (nl_model t') = ndef_message (nl_model s)"
proof -
  let ?s = "ndef_listener_sync_file_len s"
  let ?d = "nl_model ?s"
  note sync = ndef_sync_consistent [OF s n]
  have nl: "ndef_nlen ?d = ndef_nlen (nl_model s)"
    by (simp add: ndef_nlen_def sync)
  obtain b where b: "ndef_serialize (Some ?d) (Some m) = Inr b"
    and des: "ndef_deserialize (Some b) (nl_model t) = (Inr (), ndef_trim ?d)"
    using ndef_roundtrip [OF sync(1), of m "nl_model t"] m nl by auto
  let ?t = "ndef_pad_file (ndef_trim ?d)"
  have zero: "\<not> ndef_listener_cc_is_zero_placeholder (ndef_trim ?d)"
    using cc by (simp add: ndef_listener_cc_is_zero_placeholder_def ndef_trim_def sync)
  have lens: "length (nd_ndef_file (nl_model s)) = 502" "ndef_nlen (nl_model s) \<le> 500"
    using s n by (auto simp: ndef_listener_inv_def ndef_data_ok_def ndef_sizes)
  have trim_ok: "ndef_data_ok (ndef_trim ?d)"
    using sync lens by (auto simp: ndef_consistent_def ndef_data_ok_def ndef_trim_def ndef_sizes)
  have fl: "nd_ndef_file ?t = take (2 + ndef_nlen (nl_model s)) (nd_ndef_file (nl_model s))
      @ replicate (500 - ndef_nlen (nl_model s)) 0"
    using lens by (subst ndef_pad_trim [OF trim_ok]) (simp_all add: ndef_trim_def sync ndef_sizes)
  have "ndef_nlen ?t = ndef_nlen (nl_model s)"
    using lens by (intro ndef_nlen_take [OF fl]) simp_all
  moreover from this have "ndef_message ?t = ndef_message (nl_model s)"
    unfolding ndef_message_def fl sub_bytes_def using lens by (simp add: drop_take)
  moreover have "nd_cc ?t = nd_cc (nl_model s)"
    by (simp add: ndef_trim_def sync)
  moreover have "ndef_listener_serialize (Some m) s = (Inr b, ?s)"
    using b s by (simp add: ndef_listener_serialize_def Let_def)
  moreover have "ndef_listener_deserialize (Some b) t = (Inr (), t\<lparr>nl_model := ?t\<rparr>)"
    using des zero t
    by (simp add: ndef_listener_deserialize_def ndef_listener_pad_ndef_file_def Let_def)
  ultimately show ?thesis
    by (intro exI [of _ b] exI [of _ ?s] exI [of _ "t\<lparr>nl_model := ?t\<rparr>"]) simp
qed

text \<open>An NLEN field above the limit, which UPDATE BINARY can write, is saved but cannot be loaded.\<close>

lemma ndef_listener_save_unloadable:
  assumes s: "ndef_listener_inv s" "nl_initialized s"
    and n: "CONFIG_NFC_NDEF_MAX_SIZE < ndef_nlen (nl_model s)"
    and pad: "nd_ndef_file_len (nl_model s) = NDEF_FILE_BUF_SIZE"
    and t: "nl_initialized t" and m: "518 \<le> m"
  shows "\<exists>b s' t'. ndef_listener_serialize (Some m) s = (Inr b, s') \<and>
     ndef_listener_deserialize (Some b) t = (Inl EBADMSG, t')"
proof -
  let ?d = "nl_model s"
  have sync: "ndef_listener_sync_file_len s = s"
    using n by (simp add: ndef_listener_sync_file_len_def Let_def ndef_nlen_def)
  have len: "length (nd_cc ?d) = 15" "length (nd_ndef_file ?d) = 502" "nd_cc_len ?d = 15"
    using s by (auto simp: ndef_listener_inv_def ndef_data_ok_def ndef_sizes)
  let ?b = "1 # nd_cc ?d @ nd_ndef_file ?d"
  have "ndef_serialize (Some ?d) (Some m) = Inr ?b"
    using len pad m by (simp add: ndef_serialize_def ndef_blob_total_len_def
        ndef_blob_payload_len_def ndef_sizes)
  moreover have "fst (ndef_deserialize (Some ?b) (nl_model t)) = Inl EBADMSG"
    using len n by (simp add: ndef_deserialize_def Let_def ndef_data_reset_def ndef_sizes memcpy_at_0
        sub_bytes_def ndef_nlen_from_file_def ndef_nlen_def)
  then obtain d where "ndef_deserialize (Some ?b) (nl_model t) = (Inl EBADMSG, d)"
    by (cases "ndef_deserialize (Some ?b) (nl_model t)") simp
  ultimately have "ndef_listener_serialize (Some m) s = (Inr ?b, s)"
    "ndef_listener_deserialize (Some ?b) t = (Inl EBADMSG, t\<lparr>nl_model := d\<rparr>)"
    using s t sync
    by (simp_all add: ndef_listener_serialize_def ndef_listener_deserialize_def Let_def)
  then show ?thesis by blast
qed

section \<open>Properties\<close>



text \<open>C15. No sequence of APDUs changes the capability container, the write access, or anything in the
  model of a read-only tag.\<close>

theorem ndef_session_integrity:
  "nd_cc (nl_model (fst (ndef_listener_run as s))) = nd_cc (nl_model s) \<and>
   nl_writable (fst (ndef_listener_run as s)) = nl_writable s \<and>
   (\<not> nl_writable s \<longrightarrow> nl_model (fst (ndef_listener_run as s)) = nl_model s)"
  by (rule ndef_run_frame)

theorem ndef_session_integrity_witness:
  "nl_model (fst (ndef_listener_run [apdu_header [0, 0xD6, 0, 0]] (ndef_listener_boot\<lparr>nl_writable := False\<rparr>)))
     = nl_model ndef_listener_boot"
  using ndef_session_integrity [of "[apdu_header [0, 0xD6, 0, 0]]" "ndef_listener_boot\<lparr>nl_writable := False\<rparr>"]
  by simp

text \<open>C10. Read your writes: on a writable tag with the NDEF file selected, an UPDATE BINARY that fits
  the file, followed by a READ BINARY of the same range, both as they arrive on the wire, is answered by
  9000 and by exactly the written bytes.\<close>

theorem ndef_read_your_write:
  assumes s: "ndef_listener_inv s" "nl_file_sel s = NDEF_FILE_NDEF" "nl_writable s"
    and d: "d \<noteq> []" "length d + 2 \<le> NFC_TRANSPORT_MAX_RESPONSE_LEN" "off + length d \<le> NDEF_FILE_BUF_SIZE"
    and u: "apdu_parse (Some (apdu_encode 0 0xD6 (hi8 off) (lo8 off) d None)) ext = Inr u"
    and r: "apdu_parse (Some (apdu_encode 0 0xB0 (hi8 off) (lo8 off) [] (Some (of_nat (length d))))) ext = Inr r"
  shows "sent (snd (ndef_listener_run [u, r] s)) = [sw_bytes NFC_SW_OK, d @ sw_bytes NFC_SW_OK]"
proof -
  have off: "off < 65536" using d by (simp add: ndef_sizes)
  from u d have u': "apdu_cla u = 0" "apdu_ins u = 0xD6" "apdu_p1 u = hi8 off" "apdu_p2 u = lo8 off"
    "apdu_data u = Some d" "apdu_lc u = of_nat (length d)"
    by (auto simp: apdu_parse_short_body)
  from r have r': "apdu_cla r = 0" "apdu_ins r = 0xB0" "apdu_p1 r = hi8 off" "apdu_p2 r = lo8 off"
    "apdu_has_le r" "apdu_le r = ucast (of_nat (length d) :: u8)"
    by (auto simp: apdu_parse_no_body)
  have ln: "unat (of_nat (length d) :: u16) = length d" "unat (of_nat (length d) :: u8) = length d"
    using d by (simp_all add: unat_of_nat)
  have lc: "apdu_lc u \<noteq> 0"
    using ln d u'(6) by (metis length_0_conv unat_0)
  have bu: "apdu_body u = d" using u' ln by (simp add: apdu_body_def)
  have ou: "apdu_offset u = off" "apdu_offset r = off"
    using u' r' off by (simp_all add: apdu_offset_hi_lo)
  let ?s = "s\<lparr>nl_model := (nl_model s)\<lparr>nd_ndef_file := memcpy_at (nd_ndef_file (nl_model s)) off d\<rparr>\<rparr>"
  have up: "ndef_listener_handle_update_binary u s = (?s, Eff_Dirty # ndef_listener_send_sw NFC_SW_OK)"
    using ndef_update_binary_exact [OF s(2,3) lc u'(5)] u'(6) d ln ou bu by simp
  have rd: "ndef_listener_handle_read_binary r ?s = (?s, [Eff_Send (sub_bytes off (length d)
      (memcpy_at (nd_ndef_file (nl_model s)) off d) @ sw_bytes NFC_SW_OK)])"
    using ndef_read_binary_exact [of ?s r "length d"] s r' d ln ou by (simp add: unsigned_ucast_eq)
  have "sub_bytes off (length d) (memcpy_at (nd_ndef_file (nl_model s)) off d) = d"
    using s(1) d by (simp add: sub_bytes_def memcpy_at_def ndef_listener_inv_def ndef_data_ok_def)
  with up rd u' r' show ?thesis
    by (simp add: ndef_listener_on_apdu_def Let_def ndef_listener_send_sw_def)
qed

theorem ndef_read_your_write_witness:
  "\<exists>u r. apdu_parse (Some (apdu_encode 0 0xD6 (hi8 2) (lo8 2) [0xD1, 0x01] None)) False = Inr u \<and>
     apdu_parse (Some (apdu_encode 0 0xB0 (hi8 2) (lo8 2) [] (Some 2))) False = Inr r \<and>
     sent (snd (ndef_listener_run [u, r] (ndef_listener_boot\<lparr>nl_file_sel := NDEF_FILE_NDEF, nl_writable := True\<rparr>)))
       = [sw_bytes NFC_SW_OK, [0xD1, 0x01] @ sw_bytes NFC_SW_OK]"
proof -
  let ?s = "ndef_listener_boot\<lparr>nl_file_sel := NDEF_FILE_NDEF, nl_writable := True\<rparr>"
  have s: "ndef_listener_inv ?s" using ndef_inv_boot by (simp add: ndef_listener_inv_def)
  obtain u where u: "apdu_parse (Some (apdu_encode 0 0xD6 (hi8 2) (lo8 2) [0xD1, 0x01] None)) False = Inr u"
    by (simp add: apdu_parse_short_body)
  obtain r where r: "apdu_parse (Some (apdu_encode 0 0xB0 (hi8 2) (lo8 2) [] (Some (of_nat (length [0xD1 :: u8, 0x01]))))) False = Inr r"
    by (simp add: apdu_parse_no_body)
  have "sent (snd (ndef_listener_run [u, r] ?s)) = [sw_bytes NFC_SW_OK, [0xD1, 0x01] @ sw_bytes NFC_SW_OK]"
    by (rule ndef_read_your_write [OF s _ _ _ _ _ u r]) (simp_all add: ndef_sizes)
  with u r show ?thesis by auto
qed

end
