(* ===== verification/Ndef_Poller.thy ===== *)
theory Ndef_Poller
  imports Reader_Session Ndef_Listener
begin

text \<open>
  The Type-4 reader (\<open>protocols/ndef/ndef_poller.c\<close>).  For every tag, however it answers, the
  read terminates, stays inside the output structure, and yields data that the codec accepts.
  Against a tag that keeps the Type-4 contract (locale \<open>type4_tag\<close>) it yields the tag's message.
\<close>

section \<open>Definitions\<close>

definition SELECT_APP_V2 :: bytes where
  "SELECT_APP_V2 = [0x00, 0xA4, 0x04, 0x00, 0x07, 0xD2, 0x76, 0x00, 0x00, 0x85, 0x01, 0x01, 0x00]"

definition SELECT_APP_V1 :: bytes where
  "SELECT_APP_V1 = [0x00, 0xA4, 0x04, 0x00, 0x07, 0xD2, 0x76, 0x00, 0x00, 0x85, 0x01, 0x00]"

definition SELECT_CC :: bytes where
  "SELECT_CC = [0x00, 0xA4, 0x00, 0x0C, 0x02, 0xE1, 0x03]"

definition READ_CC :: bytes where
  "READ_CC = [0x00, 0xB0, 0x00, 0x00, 0x0F]"

definition ndef_poller_session_valid :: "nfc_reader_session option \<Rightarrow> bool" where
  "ndef_poller_session_valid session \<longleftrightarrow> (case session of None \<Rightarrow> False | Some s \<Rightarrow> rs_active s)"

definition ndef_poller_sw_ok :: "bytes \<Rightarrow> bool" where
  "ndef_poller_sw_ok rx \<longleftrightarrow> 2 \<le> length rx \<and> rx ! (length rx - 2) = 0x90 \<and> rx ! (length rx - 1) = 0x00"

definition ndef_poller_sw_not_found :: "bytes \<Rightarrow> bool" where
  "ndef_poller_sw_not_found rx \<longleftrightarrow>
     2 \<le> length rx \<and> rx ! (length rx - 2) = 0x6A \<and> rx ! (length rx - 1) = 0x82"

text \<open>\<open>xc\<close> is \<open>nfc_reader_session_transceive\<close> with the session and the buffer size applied.\<close>

definition ndef_poller_transceive :: "(bytes \<Rightarrow> ('t, bytes) io) \<Rightarrow> bytes \<Rightarrow> ('t, bytes) io" where
  "ndef_poller_transceive xc tx =
     io_bind (xc tx) (\<lambda>rx. if ndef_poller_sw_ok rx then io_return rx else io_fail EIO)"

definition ndef_poller_select_app :: "(bytes \<Rightarrow> ('t, bytes) io) \<Rightarrow> ('t, unit) io" where
  "ndef_poller_select_app xc =
     io_bind (xc SELECT_APP_V2) (\<lambda>rx.
       if ndef_poller_sw_ok rx then io_return ()
       else io_bind (xc SELECT_APP_V1) (\<lambda>rx.
         if ndef_poller_sw_ok rx then io_return () else io_fail EIO))"

definition ndef_poller_detect ::
  "(bytes \<Rightarrow> nat \<Rightarrow> ('t, bytes) io) \<Rightarrow> nfc_reader_session option \<Rightarrow> ('t, unit) io" where
  "ndef_poller_detect hal session =
     (if \<not> ndef_poller_session_valid session then io_fail EINVAL
      else let xc = (\<lambda>tx. nfc_reader_session_transceive hal session tx NFC_TRANSPORT_MAX_RESPONSE_LEN) in
        io_bind (xc SELECT_APP_V2) (\<lambda>rx.
          if ndef_poller_sw_ok rx then io_return ()
          else io_bind (xc SELECT_APP_V1) (\<lambda>rx.
            if ndef_poller_sw_ok rx then io_return ()
            else if ndef_poller_sw_not_found rx then io_fail ENOTSUP
            else io_fail EIO)))"

definition ndef_poller_cc_mle :: "bytes \<Rightarrow> u16" where
  "ndef_poller_cc_mle cc = (let mle = be16 (cc ! 3) (cc ! 4) in if mle < 2 then 2 else mle)"

definition ndef_poller_select_ndef_file :: "(bytes \<Rightarrow> ('t, bytes) io) \<Rightarrow> bytes \<Rightarrow> ('t, unit) io" where
  "ndef_poller_select_ndef_file xc cc =
     io_bind (xc [0x00, 0xA4, 0x00, 0x0C, 0x02, cc ! 9, cc ! 10]) (\<lambda>rx.
       if ndef_poller_sw_ok rx then io_return () else io_fail EIO)"

definition ndef_poller_read_chunk_le :: "u16 \<Rightarrow> u16 \<Rightarrow> nat" where
  "ndef_poller_read_chunk_le remaining tag_mle =
     (let mle_cap = unat (tag_mle - 1); chunk = unat remaining;
          chunk = (if mle_cap < chunk then mle_cap else chunk);
          transport_cap = NFC_TRANSPORT_MAX_RESPONSE_LEN - 2 in
      if transport_cap < chunk then transport_cap else chunk)"

lemma mle_cap_pos: "0 < unat (ndef_poller_cc_mle cc - 1)"
proof -
  have "ndef_poller_cc_mle cc - 1 \<noteq> 0"
    by (auto simp: ndef_poller_cc_mle_def Let_def word_less_nat_alt)
  then show ?thesis by (simp add: unat_gt_0)
qed

lemma read_chunk_bounds:
  assumes "br < nlen"
  shows "0 < ndef_poller_read_chunk_le (nlen - br) (ndef_poller_cc_mle cc)"
    "unat br + ndef_poller_read_chunk_le (nlen - br) (ndef_poller_cc_mle cc) \<le> unat nlen"
    "ndef_poller_read_chunk_le (nlen - br) (ndef_poller_cc_mle cc) \<le> 253"
proof -
  have "unat (nlen - br) = unat nlen - unat br" "unat br < unat nlen"
    using assms by (simp_all add: unat_sub order.strict_implies_order word_less_nat_alt [symmetric])
  with mle_cap_pos [of cc] show
    "0 < ndef_poller_read_chunk_le (nlen - br) (ndef_poller_cc_mle cc)"
    "unat br + ndef_poller_read_chunk_le (nlen - br) (ndef_poller_cc_mle cc) \<le> unat nlen"
    "ndef_poller_read_chunk_le (nlen - br) (ndef_poller_cc_mle cc) \<le> 253"
    by (auto simp: ndef_poller_read_chunk_le_def Let_def)
qed

lemma bytes_read_advance:
  assumes "br < nlen"
  shows "unat (br + of_nat (ndef_poller_read_chunk_le (nlen - br) (ndef_poller_cc_mle cc)))
     = unat br + ndef_poller_read_chunk_le (nlen - br) (ndef_poller_cc_mle cc)"
proof -
  let ?c = "ndef_poller_read_chunk_le (nlen - br) (ndef_poller_cc_mle cc)"
  have "unat br + ?c < 65536" "?c < 65536"
    using read_chunk_bounds [OF assms, of cc] unat_u16_lt [of nlen] by linarith+
  then show ?thesis by (simp add: unat_word_ariths unat_of_nat)
qed

text \<open>The \<open>while (bytes_read < nlen)\<close> loop; \<open>tag_mle\<close> is computed from the CC read before.  The result is the
  final \<open>bytes_read\<close>.\<close>

function ndef_poller_read_loop ::
  "(bytes \<Rightarrow> ('t, bytes) io) \<Rightarrow> bytes \<Rightarrow> u16 \<Rightarrow> u16 \<Rightarrow> (ndef_data \<times> 't, u16) io" where
  "ndef_poller_read_loop xc cc nlen bytes_read =
     (if \<not> bytes_read < nlen then io_return bytes_read
      else
        let offset = 2 + bytes_read;
            chunk = ndef_poller_read_chunk_le (nlen - bytes_read) (ndef_poller_cc_mle cc);
            cmd = [0x00, 0xB0, ucast (drop_bit 8 offset), ucast offset, lo8 chunk] in
        io_bind (on_tag (xc cmd)) (\<lambda>rx.
        if \<not> ndef_poller_sw_ok rx then io_fail EIO
        else if length rx - 2 < chunk then io_fail EIO
        else
          io_bind (on_out (\<lambda>d. d\<lparr>nd_ndef_file :=
              memcpy_at (nd_ndef_file d) (2 + unat bytes_read) (take chunk rx)\<rparr>)) (\<lambda>_.
          ndef_poller_read_loop xc cc nlen (bytes_read + of_nat chunk))))"
  by pat_completeness auto
termination
proof (relation "measure (\<lambda>(xc, cc, nlen, br). unat nlen - unat br)", goal_cases)
  case (2 xc cc nlen br offset chunk cmd rx u)
  then show ?case
    using bytes_read_advance [of br nlen cc] read_chunk_bounds [of br nlen cc]
    by (simp add: word_less_nat_alt)
qed simp

declare ndef_poller_read_loop.simps [simp del]

definition ndef_poller_read ::
  "(bytes \<Rightarrow> nat \<Rightarrow> ('t, bytes) io) \<Rightarrow> nfc_reader_session option \<Rightarrow> (ndef_data \<times> 't, unit) io" where
  "ndef_poller_read hal session =
     (if \<not> ndef_poller_session_valid session then io_fail EINVAL
      else let xc = (\<lambda>tx. nfc_reader_session_transceive hal session tx NFC_TRANSPORT_MAX_RESPONSE_LEN) in
        io_bind (on_out (\<lambda>_. ndef_data_reset)) (\<lambda>_.
        io_bind (on_tag (ndef_poller_select_app xc)) (\<lambda>_.
        io_bind (on_tag (ndef_poller_transceive xc SELECT_CC)) (\<lambda>_.
        io_bind (on_tag (ndef_poller_transceive xc READ_CC)) (\<lambda>rx.
        io_bind (io_check (length rx - 2 = NFC_NDEF_CC_LEN) EIO) (\<lambda>_.
        io_bind (on_out (\<lambda>d. d\<lparr>nd_cc_len := NFC_NDEF_CC_LEN,
            nd_cc := memcpy_at (nd_cc d) 0 (take NFC_NDEF_CC_LEN rx)\<rparr>)) (\<lambda>_.
        let cc = take NFC_NDEF_CC_LEN rx in
        io_bind (io_check (cc ! 7 = 0x04) EIO) (\<lambda>_.
        io_bind (on_tag (ndef_poller_select_ndef_file xc cc)) (\<lambda>_.
        io_bind (on_tag (ndef_poller_transceive xc [0x00, 0xB0, 0x00, 0x00, 0x02])) (\<lambda>rx.
        io_bind (io_check (length rx - 2 = NFC_NDEF_NLEN_FIELD_LEN) EIO) (\<lambda>_.
        let nlen = be16 (rx ! 0) (rx ! 1) in
        io_bind (io_check (unat nlen \<le> CONFIG_NFC_NDEF_MAX_SIZE) ENOSPC) (\<lambda>_.
        io_bind (on_out (\<lambda>d. d\<lparr>nd_ndef_file := (nd_ndef_file d)[0 := rx ! 0, 1 := rx ! 1]\<rparr>)) (\<lambda>_.
        io_bind (ndef_poller_read_loop xc cc nlen 0) (\<lambda>bytes_read.
        io_bind (io_check (bytes_read = nlen) EIO) (\<lambda>_.
        on_out (\<lambda>d. d\<lparr>nd_ndef_file_len := NFC_NDEF_NLEN_FIELD_LEN + unat nlen\<rparr>))))))))))))))))"

section \<open>Every tag: memory safety and consistency\<close>

text \<open>What holds of the output while the file is being read; \<open>h\<close> is the NLEN field.\<close>

definition ndef_reading :: "bytes \<Rightarrow> ndef_data \<Rightarrow> bool" where
  "ndef_reading h d \<longleftrightarrow> ndef_data_ok d \<and> nd_cc_len d = NFC_NDEF_CC_LEN \<and> take 2 (nd_ndef_file d) = h"

lemma ndef_reading_write:
  "ndef_reading h d \<Longrightarrow> 2 + k + length b \<le> NDEF_FILE_BUF_SIZE \<Longrightarrow>
    ndef_reading h (d\<lparr>nd_ndef_file := memcpy_at (nd_ndef_file d) (2 + k) b\<rparr>)"
  by (auto simp: ndef_reading_def ndef_data_ok_def length_memcpy_at take_memcpy_at_before)

lemma ndef_poller_read_loop_keeps:
  assumes "unat nlen \<le> CONFIG_NFC_NDEF_MAX_SIZE" "br \<le> nlen"
  shows "io_hoare (\<lambda>dt. ndef_reading h (fst dt)) (ndef_poller_read_loop xc cc nlen br)
    (\<lambda>b dt. b = nlen \<and> ndef_reading h (fst dt)) (\<lambda>dt. ndef_reading h (fst dt))"
  using assms
proof (induction xc cc nlen br rule: ndef_poller_read_loop.induct)
  case (1 xc cc nlen br)
  show ?case
  proof (cases "br < nlen")
    case False
    with 1(3) show ?thesis
      by (subst ndef_poller_read_loop.simps) (auto intro!: io_hoare_basic)
  next
    case True
    define c where "c = ndef_poller_read_chunk_le (nlen - br) (ndef_poller_cc_mle cc)"
    note bnd = read_chunk_bounds [OF True, of cc, folded c_def]
    have adv: "br + of_nat c \<le> nlen"
      using bytes_read_advance [OF True, of cc, folded c_def] bnd by (simp add: word_le_nat_alt)
    have IH: "io_hoare (\<lambda>dt. ndef_reading h (fst dt)) (ndef_poller_read_loop xc cc nlen (br + of_nat c))
      (\<lambda>b dt. b = nlen \<and> ndef_reading h (fst dt)) (\<lambda>dt. ndef_reading h (fst dt))"
      if "ndef_poller_sw_ok rx" "\<not> length rx - 2 < c" for rx
      by (rule 1(1)) (use True that adv 1(2) c_def in simp_all)
    have w: "ndef_reading h d \<Longrightarrow>
        ndef_reading h (d\<lparr>nd_ndef_file := memcpy_at (nd_ndef_file d) (2 + unat br) (take c rx)\<rparr>)" for d rx
      using bnd(2) 1(2) by (intro ndef_reading_write) (auto simp: ndef_sizes)
    show ?thesis
      unfolding ndef_poller_read_loop.simps [of xc cc nlen br] Let_def
      unfolding c_def [symmetric]
      by (intro io_hoare_if io_hoare_basic io_hoare_tag_then io_hoare_out_then [where Q = "ndef_reading h"])
        (use True IH w in \<open>auto simp del: add_2_eq_Suc\<close>)
  qed
qed

lemma ndef_consistent_of_reading:
  assumes "ndef_reading [a, b] d" "unat (be16 a b) \<le> CONFIG_NFC_NDEF_MAX_SIZE"
  shows "ndef_consistent (d\<lparr>nd_ndef_file_len := 2 + unat (be16 a b)\<rparr>)"
proof -
  from assms(1) obtain zs where "nd_ndef_file d = a # b # zs"
    by (cases "nd_ndef_file d" rule: remdups_adj.cases) (auto simp: ndef_reading_def)
  with assms show ?thesis
    by (auto simp: ndef_consistent_def ndef_reading_def ndef_data_ok_def ndef_nlen_def ndef_sizes)
qed

lemma ndef_poller_read_tail:
  assumes "unat (be16 a b) \<le> CONFIG_NFC_NDEF_MAX_SIZE"
  shows "io_hoare (\<lambda>dt. ndef_reading [a, b] (fst dt))
    (io_bind (ndef_poller_read_loop xc cc (be16 a b) 0) (\<lambda>br.
       io_bind (io_check (br = be16 a b) EIO) (\<lambda>_.
       on_out (\<lambda>d. d\<lparr>nd_ndef_file_len := NFC_NDEF_NLEN_FIELD_LEN + unat (be16 a b)\<rparr>))))
    (\<lambda>_ dt. ndef_consistent (fst dt)) (\<lambda>dt. ndef_data_ok (fst dt))"
proof (rule io_hoare_bind)
  show "io_hoare (\<lambda>dt. ndef_reading [a, b] (fst dt)) (ndef_poller_read_loop xc cc (be16 a b) 0)
      (\<lambda>r dt. r = be16 a b \<and> ndef_reading [a, b] (fst dt)) (\<lambda>dt. ndef_data_ok (fst dt))"
    by (rule io_hoare_weaken [OF ndef_poller_read_loop_keeps [OF assms]]) (auto simp: ndef_reading_def)
next
  fix r
  show "io_hoare (\<lambda>dt. r = be16 a b \<and> ndef_reading [a, b] (fst dt))
      (io_bind (io_check (r = be16 a b) EIO) (\<lambda>_.
         on_out (\<lambda>d. d\<lparr>nd_ndef_file_len := NFC_NDEF_NLEN_FIELD_LEN + unat (be16 a b)\<rparr>)))
      (\<lambda>_ dt. ndef_consistent (fst dt)) (\<lambda>dt. ndef_data_ok (fst dt))"
    using ndef_consistent_of_reading [OF _ assms]
    by (intro io_hoare_check_then) (auto simp: io_hoare_def on_out_def ndef_reading_def)
qed

lemma ndef_poller_read_safe:
  "io_hoare (\<lambda>dt. ndef_data_ok (fst dt)) (ndef_poller_read hal session)
     (\<lambda>_ dt. ndef_consistent (fst dt)) (\<lambda>dt. ndef_data_ok (fst dt))"
proof (cases "ndef_poller_session_valid session")
  case False
  then show ?thesis by (simp add: ndef_poller_read_def io_hoare_basic)
next
  case True
  let ?P = "\<lambda>d. ndef_data_ok d \<and> nd_cc_len d = NFC_NDEF_CC_LEN"
  let ?E = "\<lambda>dt. ndef_data_ok (fst dt)"
  have cc: "?P (d\<lparr>nd_cc_len := NFC_NDEF_CC_LEN, nd_cc := memcpy_at (nd_cc d) 0 (take NFC_NDEF_CC_LEN rx)\<rparr>)"
    if "length rx - 2 = NFC_NDEF_CC_LEN" "ndef_data_ok d" for d rx
    using that by (auto simp: ndef_data_ok_def memcpy_at_0)
  have nl: "ndef_reading [x, y] (d\<lparr>nd_ndef_file := (nd_ndef_file d)[0 := x, 1 := y]\<rparr>)"
    if "?P d" for d x y
  proof -
    from that obtain u v zs where "nd_ndef_file d = u # v # zs"
      by (cases "nd_ndef_file d" rule: remdups_adj.cases) (auto simp: ndef_data_ok_def ndef_sizes)
    with that show ?thesis by (auto simp: ndef_reading_def ndef_data_ok_def)
  qed
  show ?thesis
    unfolding ndef_poller_read_def Let_def
    apply (rule io_hoare_if, simp add: True)
    apply (rule io_hoare_out_then [where Q = ndef_data_ok], simp)
    apply (rule io_hoare_tag_then, assumption)
    apply (rule io_hoare_tag_then, assumption)
    apply (rule io_hoare_tag_then, assumption)
    apply (rule io_hoare_check_then, assumption)
    apply (rule io_hoare_out_then [where Q = ?P], rule cc, assumption+)
    apply (rule io_hoare_check_then, simp)
    apply (rule io_hoare_tag_then, simp)
    apply (rule io_hoare_tag_then, simp)
    apply (rule io_hoare_check_then, simp)
    apply (rule io_hoare_check_then, simp)
    apply (rule io_hoare_out_then, erule nl)
    by (rule ndef_poller_read_tail)
qed

section \<open>Tags that keep the Type-4 contract\<close>

text \<open>
  A tag with a capability container and an NDEF file.  \<open>sel\<close> is the selected file, \<open>None\<close> before the
  NDEF application is selected.
\<close>

abbreviation (input) t4_file :: "('t \<Rightarrow> bytes) \<Rightarrow> ('t \<Rightarrow> bytes) \<Rightarrow> ndef_file_sel \<Rightarrow> 't \<Rightarrow> bytes" where
  "t4_file cc ndef f t \<equiv> if f = NDEF_FILE_CC then cc t else ndef t"

locale type4_tag =
  fixes xcv :: "bytes \<Rightarrow> 't \<Rightarrow> bytes result \<times> 't"
    and ok :: "'t \<Rightarrow> bool"
    and sel :: "'t \<Rightarrow> ndef_file_sel option"
    and cc :: "'t \<Rightarrow> bytes"
    and ndef :: "'t \<Rightarrow> bytes"
  assumes select_app: "ok t \<Longrightarrow> \<exists>t'. xcv SELECT_APP_V2 t = (Inr [0x90, 0x00], t') \<and> ok t' \<and>
      sel t' = Some NDEF_FILE_NONE \<and> cc t' = cc t \<and> ndef t' = ndef t"
    and select_cc: "ok t \<Longrightarrow> sel t \<noteq> None \<Longrightarrow> \<exists>t'. xcv SELECT_CC t = (Inr [0x90, 0x00], t') \<and> ok t' \<and>
      sel t' = Some NDEF_FILE_CC \<and> cc t' = cc t \<and> ndef t' = ndef t"
    and select_ndef: "ok t \<Longrightarrow> sel t \<noteq> None \<Longrightarrow>
      \<exists>t'. xcv [0x00, 0xA4, 0x00, 0x0C, 0x02, 0xE1, 0x04] t = (Inr [0x90, 0x00], t') \<and> ok t' \<and>
      sel t' = Some NDEF_FILE_NDEF \<and> cc t' = cc t \<and> ndef t' = ndef t"
    and read_binary: "ok t \<Longrightarrow> sel t = Some f \<Longrightarrow> f \<noteq> NDEF_FILE_NONE \<Longrightarrow> 0 < n \<Longrightarrow> n \<le> 253 \<Longrightarrow>
      off + n \<le> length (t4_file cc ndef f t) \<Longrightarrow>
      \<exists>t'. xcv [0x00, 0xB0, hi8 off, lo8 off, lo8 n] t =
          (Inr (sub_bytes off n (t4_file cc ndef f t) @ [0x90, 0x00]), t') \<and> ok t' \<and>
        sel t' = sel t \<and> cc t' = cc t \<and> ndef t' = ndef t"
    and cc_length: "ok t \<Longrightarrow> length (cc t) = NFC_NDEF_CC_LEN"
    and ndef_length: "ok t \<Longrightarrow> NFC_NDEF_NLEN_FIELD_LEN \<le> length (ndef t) \<and> length (ndef t) < 65536"

lemma sw_ok_append [simp]: "ndef_poller_sw_ok (xs @ [0x90, 0x00])" "ndef_poller_sw_ok [0x90, 0x00]"
  by (simp_all add: ndef_poller_sw_ok_def nth_append)

lemma offset_bytes:
  "(ucast (drop_bit 8 (w :: u16)) :: u8) = hi8 (unat w)" "(ucast w :: u8) = lo8 (unat w)"
proof -
  have "unat (ucast (drop_bit 8 w) :: u8) = unat (hi8 (unat w))" "unat (ucast w :: u8) = unat (lo8 (unat w))"
    by (simp_all add: unsigned_ucast_eq take_bit_eq_mod byte_simps drop_bit_eq_div unat_div)
  then show "(ucast (drop_bit 8 w) :: u8) = hi8 (unat w)" "(ucast w :: u8) = lo8 (unat w)"
    by (auto intro: unsigned_word_eqI)
qed

context type4_tag
begin

lemma ndef_poller_read_loop_spec:
  assumes "ok t" "sel t = Some NDEF_FILE_NDEF" "br \<le> nlen" "2 + unat nlen \<le> length (ndef t)"
    "2 + unat nlen \<le> length (nd_ndef_file d)"
    "take (2 + unat br) (nd_ndef_file d) = take (2 + unat br) (ndef t)"
  shows "\<exists>d' t'. ndef_poller_read_loop xcv c nlen br (d, t) = (Inr nlen, (d', t')) \<and>
    take (2 + unat nlen) (nd_ndef_file d') = take (2 + unat nlen) (ndef t) \<and>
    drop (2 + unat nlen) (nd_ndef_file d') = drop (2 + unat nlen) (nd_ndef_file d) \<and>
    nd_cc d' = nd_cc d \<and> nd_cc_len d' = nd_cc_len d \<and> ok t' \<and> cc t' = cc t \<and> ndef t' = ndef t"
  using assms
proof (induction "unat nlen - unat br" arbitrary: br d t rule: less_induct)
  case less
  show ?case
  proof (cases "br < nlen")
    case False
    with less.prems have "br = nlen" by simp
    with less.prems show ?thesis
      by (simp add: ndef_poller_read_loop.simps io_simps)
  next
    case True
    define k where "k = ndef_poller_read_chunk_le (nlen - br) (ndef_poller_cc_mle c)"
    note bnd = read_chunk_bounds [OF True, of c, folded k_def]
    note adv = bytes_read_advance [OF True, of c, folded k_def]
    let ?br = "br + of_nat k"
    have off: "unat (2 + br) = 2 + unat br"
      using less.prems ndef_length [of t] True
      by (simp add: unat_word_ariths word_less_nat_alt)
    obtain t1 where t1: "xcv [0x00, 0xB0, hi8 (2 + unat br), lo8 (2 + unat br), lo8 k] t =
        (Inr (sub_bytes (2 + unat br) k (ndef t) @ [0x90, 0x00]), t1)"
      "ok t1" "sel t1 = sel t" "cc t1 = cc t" "ndef t1 = ndef t"
      using read_binary [of t NDEF_FILE_NDEF k "2 + unat br"] less.prems bnd by auto
    have len: "length (sub_bytes (2 + unat br) k (ndef t)) = k"
      using less.prems bnd by (simp add: length_sub_bytes)
    let ?d = "d\<lparr>nd_ndef_file := memcpy_at (nd_ndef_file d) (2 + unat br) (sub_bytes (2 + unat br) k (ndef t))\<rparr>"
    have cmd: "ucast (drop_bit 8 (2 + br)) = hi8 (2 + unat br)" "ucast (2 + br) = lo8 (2 + unat br)"
      using offset_bytes [of "2 + br"] off by simp_all
    have step: "ndef_poller_read_loop xcv c nlen br (d, t) = ndef_poller_read_loop xcv c nlen ?br (?d, t1)"
      using True t1 len
      by (subst ndef_poller_read_loop.simps)
        (simp add: Let_def io_simps cmd del: add_2_eq_Suc flip: k_def)
    have "take (2 + unat ?br) (nd_ndef_file ?d) = take (2 + unat ?br) (ndef t1)"
      using less.prems bnd adv len t1(5)
      by (simp add: memcpy_at_def sub_bytes_def min_def flip: take_add)
    moreover have "unat nlen - unat ?br < unat nlen - unat br" "?br \<le> nlen"
      "2 + unat nlen \<le> length (nd_ndef_file ?d)"
      using less.prems bnd adv len True
      by (simp_all add: word_le_nat_alt word_less_nat_alt length_memcpy_at)
    ultimately obtain d' t' where "ndef_poller_read_loop xcv c nlen ?br (?d, t1) = (Inr nlen, d', t')"
      "take (2 + unat nlen) (nd_ndef_file d') = take (2 + unat nlen) (ndef t1)"
      "drop (2 + unat nlen) (nd_ndef_file d') = drop (2 + unat nlen) (nd_ndef_file ?d)"
      "nd_cc d' = nd_cc ?d" "nd_cc_len d' = nd_cc_len ?d" "ok t'" "cc t' = cc t1" "ndef t' = ndef t1"
      using less.hyps [of ?br t1 ?d] less.prems t1 by metis
    moreover have "drop (2 + unat nlen) (nd_ndef_file ?d) = drop (2 + unat nlen) (nd_ndef_file d)"
      using less.prems bnd len by (simp add: memcpy_at_def)
    ultimately show ?thesis
      using step t1 by auto
  qed
qed

lemma ndef_poller_read_spec:
  assumes ok: "ok t" and s: "rs_active s"
    and cc: "cc t ! 7 = 0x04" "cc t ! 9 = 0xE1" "cc t ! 10 = 0x04"
    and n: "n = unat (be16 (ndef t ! 0) (ndef t ! 1))" "n \<le> CONFIG_NFC_NDEF_MAX_SIZE" "2 + n \<le> length (ndef t)"
  shows "\<exists>d' t'. ndef_poller_read (\<lambda>tx _. xcv tx) (Some s) (d, t) = (Inr (), (d', t')) \<and>
    nd_cc d' = cc t \<and> nd_cc_len d' = NFC_NDEF_CC_LEN \<and> nd_ndef_file_len d' = 2 + n \<and>
    nd_ndef_file d' = take (2 + n) (ndef t) @ replicate (CONFIG_NFC_NDEF_MAX_SIZE - n) 0 \<and>
    ok t' \<and> cc t' = cc t \<and> ndef t' = ndef t"
proof -
  let ?xc = "\<lambda>tx. nfc_reader_session_transceive (\<lambda>tx _. xcv tx) (Some s) tx NFC_TRANSPORT_MAX_RESPONSE_LEN"
  have xc: "?xc = xcv" using s by (simp add: fun_eq_iff)
  obtain t1 where t1: "ndef_poller_select_app xcv t = (Inr (), t1)" "ok t1" "sel t1 = Some NDEF_FILE_NONE"
    "cc t1 = cc t" "ndef t1 = ndef t"
    using select_app [OF ok] by (auto simp: ndef_poller_select_app_def io_simps)
  obtain t2 where t2: "ndef_poller_transceive xcv SELECT_CC t1 = (Inr [0x90, 0x00], t2)" "ok t2"
    "sel t2 = Some NDEF_FILE_CC" "cc t2 = cc t" "ndef t2 = ndef t"
    using select_cc [of t1] t1 by (auto simp: ndef_poller_transceive_def io_simps)
  have l15: "length (cc t) = 15" using cc_length [OF ok] .
  obtain t3 where t3: "ndef_poller_transceive xcv READ_CC t2 = (Inr (cc t @ [0x90, 0x00]), t3)" "ok t3"
    "sel t3 = Some NDEF_FILE_CC" "cc t3 = cc t" "ndef t3 = ndef t"
    using read_binary [of t2 NDEF_FILE_CC 15 0] t2 l15
    by (auto simp: READ_CC_def hi8_def lo8_def sub_bytes_def ndef_poller_transceive_def io_simps)
  obtain t4 where t4: "ndef_poller_select_ndef_file xcv (cc t) t3 = (Inr (), t4)" "ok t4"
    "sel t4 = Some NDEF_FILE_NDEF" "cc t4 = cc t" "ndef t4 = ndef t"
    using select_ndef [of t3] t3 cc by (auto simp: ndef_poller_select_ndef_file_def io_simps)
  obtain a b zs where ab: "ndef t = a # b # zs"
    using n(3) by (cases "ndef t" rule: remdups_adj.cases) auto
  obtain t5 where t5: "ndef_poller_transceive xcv [0x00, 0xB0, 0x00, 0x00, 0x02] t4 = (Inr [a, b, 0x90, 0x00], t5)"
    "ok t5" "sel t5 = Some NDEF_FILE_NDEF" "cc t5 = cc t" "ndef t5 = ndef t"
    using read_binary [of t4 NDEF_FILE_NDEF 2 0] t4 ab sw_ok_append(1) [of "[a, b]"]
    by (auto simp: hi8_def lo8_def sub_bytes_def ndef_poller_transceive_def io_simps)
  let ?d = "\<lparr>nd_cc = cc t, nd_ndef_file = a # b # replicate CONFIG_NFC_NDEF_MAX_SIZE 0,
      nd_cc_len = NFC_NDEF_CC_LEN, nd_ndef_file_len = 0\<rparr>"
  have nb: "n = unat (be16 a b)" using n ab by simp
  obtain d' t' where d': "ndef_poller_read_loop xcv (cc t) (be16 a b) 0 (?d, t5) = (Inr (be16 a b), (d', t'))"
    "take (2 + n) (nd_ndef_file d') = take (2 + n) (ndef t)"
    "drop (2 + n) (nd_ndef_file d') = replicate (CONFIG_NFC_NDEF_MAX_SIZE - n) 0"
    "nd_cc d' = cc t" "nd_cc_len d' = NFC_NDEF_CC_LEN" "ok t'" "cc t' = cc t" "ndef t' = ndef t"
    using ndef_poller_read_loop_spec [of t5 0 "be16 a b" ?d "cc t"] t5 n nb ab by auto
  have buf: "(replicate NDEF_FILE_BUF_SIZE 0)[0 := a, Suc 0 := b] = a # b # replicate CONFIG_NFC_NDEF_MAX_SIZE 0"
    by (simp add: NDEF_FILE_BUF_SIZE_def)
  have run: "ndef_poller_read (\<lambda>tx _. xcv tx) (Some s) (d, t) =
      (Inr (), (d'\<lparr>nd_ndef_file_len := 2 + n\<rparr>, t'))"
    unfolding ndef_poller_read_def Let_def xc
    using s t1(1) t2(1) t3(1) t4(1) t5(1) d'(1) l15 cc n nb
    by (simp add: ndef_poller_session_valid_def io_simps ndef_data_reset_def memcpy_at_0 nth_append buf)
  have "nd_ndef_file d' = take (2 + n) (ndef t) @ replicate (CONFIG_NFC_NDEF_MAX_SIZE - n) 0"
    using d'(2,3) by (metis append_take_drop_id)
  with run d' show ?thesis by simp
qed

end

section \<open>Properties\<close>

text \<open>C4. No tag can harm the reader: whatever a tag answers, and whatever the transport does, the read
  ends, writes nothing outside the output structure, and when it reports success the structure is
  consistent, so that it can be stored and emulated.\<close>

theorem ndef_poller_read_any_tag:
  assumes "ndef_data_ok d"
  shows "case ndef_poller_read hal session (d, t) of
      (Inl _, (d', _)) \<Rightarrow> ndef_data_ok d' | (Inr _, (d', _)) \<Rightarrow> ndef_consistent d'"
proof -
  obtain r d' t' where r: "ndef_poller_read hal session (d, t) = (r, (d', t'))" by (metis surj_pair)
  from io_hoareD [OF ndef_poller_read_safe, of "(d, t)" hal session] assms r show ?thesis
    unfolding r by (cases r) auto
qed

theorem ndef_poller_read_any_tag_witness:
  "case ndef_poller_read (\<lambda>_ _ t. (Inr [0x90, 0x00], t)) (Some (nfc_reader_session_zero\<lparr>rs_active := True\<rparr>)) (ndef_data_reset, ()) of
      (Inl _, (d', _)) \<Rightarrow> ndef_data_ok d' | (Inr _, (d', _)) \<Rightarrow> ndef_consistent d'"
  by (rule ndef_poller_read_any_tag) simp

end
