(* ===== verification/Listen_Stack.thy ===== *)
theory Listen_Stack
  imports Apdu_Assembler Store_Ram Ndef_Poller
begin

text \<open>
  The listen stack (\<open>nfc_stack/nfc_stack.c\<close>) in the configuration with the NDEF profile and the RAM
  store (the DESFire, EMV and Aliro profiles are off by default and compiled out): start-up with its
  unwinding of partial failures, start/stop/shutdown, load/save of the active tag, the transport
  callbacks and the commit of a modified service.

  The HAL functions it calls are a parameter, a record of operations on a HAL state \<open>'h\<close>.
\<close>

section \<open>State\<close>

record 'h nfc_hal =
  hal_init :: "('h, unit) io"
  hal_shutdown :: "'h \<Rightarrow> 'h"
  hal_register_callbacks :: "('h, unit) io"
  hal_start :: "nfc_uid option \<Rightarrow> ('h, unit) io"
  hal_stop :: "('h, unit) io"
  hal_send_response :: "bytes \<Rightarrow> ('h, unit) io"

text \<open>What lies outside the store: the listener module, the RAM slots and the HAL.\<close>

record 'h listen_world =
  lw_ndef :: ndef_listener
  lw_ram :: ram_slots
  lw_hal :: 'h

text \<open>What lies outside the router.\<close>

record 'h stack_env =
  se_active_tag :: string
  se_store :: "'h listen_world nfc_store"
  se_world :: "'h listen_world"

datatype nfc_stack_state =
    NFC_STACK_STATE_UNINITIALIZED | NFC_STACK_STATE_INITIALIZED | NFC_STACK_STATE_STARTED
  | NFC_STACK_STATE_STOPPED | NFC_STACK_STATE_ERROR

datatype nfc_profile = NFC_PROFILE_NONE | NFC_PROFILE_NDEF

record nfc_stack_stats =
  ks_error_count :: u32
  ks_last_error_code :: "errno option"
  ks_start_count :: u32
  ks_stop_count :: u32
  ks_load_count :: u32
  ks_save_count :: u32

definition nfc_stack_stats_zero :: nfc_stack_stats where
  "nfc_stack_stats_zero = \<lparr>ks_error_count = 0, ks_last_error_code = None, ks_start_count = 0,
     ks_stop_count = 0, ks_load_count = 0, ks_save_count = 0\<rparr>"

text \<open>The only service pointer of this configuration, \<open>ndef_listener_get ()\<close>.\<close>

datatype listen_svc = SVC_NDEF

record 'h nfc_stack =
  sk_state :: nfc_stack_state
  sk_stats :: nfc_stack_stats
  sk_default_profile :: nfc_profile
  sk_asm :: apdu_assembler
  sk_router :: "listen_svc aid_router"
  sk_ram_ready :: bool
  sk_env :: "'h stack_env"

definition CONFIG_NFC_STACK_DEFAULT_PROFILE :: nfc_profile where
  "CONFIG_NFC_STACK_DEFAULT_PROFILE = NFC_PROFILE_NDEF"

definition nfc_stack_boot :: "'h \<Rightarrow> 'h nfc_stack" where
  "nfc_stack_boot h = \<lparr>sk_state = NFC_STACK_STATE_UNINITIALIZED, sk_stats = nfc_stack_stats_zero,
     sk_default_profile = NFC_PROFILE_NDEF, sk_asm = apdu_assembler_boot, sk_router = aid_router_boot,
     sk_ram_ready = False,
     sk_env = \<lparr>se_active_tag = [], se_store = nfc_store_boot,
       se_world = \<lparr>lw_ndef = ndef_listener_boot, lw_ram = nfc_store_ram_boot, lw_hal = h\<rparr>\<rparr>\<rparr>"

definition NDEF_AID :: bytes where
  "NDEF_AID = [0xD2, 0x76, 0x00, 0x00, 0x85, 0x01, 0x01]"

section \<open>Components on the stack's state\<close>

definition on_hal :: "('h, 'a) io \<Rightarrow> ('h listen_world, 'a) io" where
  "on_hal m w = (case m (lw_hal w) of (r, h) \<Rightarrow> (r, w\<lparr>lw_hal := h\<rparr>))"

definition ram_save_cb :: "'h listen_world save_fn" where
  "ram_save_cb t b w = (case nfc_store_ram_save_cb t b (lw_ram w) of (r, x) \<Rightarrow> (r, w\<lparr>lw_ram := x\<rparr>))"

definition ram_load_cb :: "'h listen_world load_fn" where
  "ram_load_cb t m w = (case nfc_store_ram_load_cb t m (lw_ram w) of (r, x) \<Rightarrow> (r, w\<lparr>lw_ram := x\<rparr>))"

text \<open>The vtable of the NDEF listener as the store uses it.\<close>

definition ndef_store_service :: "'h listen_world nfc_service" where
  "ndef_store_service = \<lparr>svc_on_select = None, svc_on_apdu = None, svc_on_tag_cmd = None,
     svc_on_deselect = None, svc_on_field_off = None,
     svc_serialize = Some (\<lambda>m w. case ndef_listener_serialize (Some m) (lw_ndef w) of
        (r, l) \<Rightarrow> (r, w\<lparr>lw_ndef := l\<rparr>)),
     svc_deserialize = Some (\<lambda>b w. case ndef_listener_deserialize (Some b) (lw_ndef w) of
        (r, l) \<Rightarrow> (r, w\<lparr>lw_ndef := l\<rparr>)),
     svc_persist_id = NFC_PERSIST_ID_NDEF\<rparr>"

text \<open>\<open>nfc_stack_on_service_dirty (ndef_listener_get ())\<close>.\<close>

definition nfc_stack_on_service_dirty :: "'h stack_env \<Rightarrow> 'h stack_env" where
  "nfc_stack_on_service_dirty e =
     (if se_active_tag e = [] then e
      else case nfc_store_on_dirty (Some ndef_store_service) (Some (se_active_tag e)) (se_store e, se_world e) of
        (_, (s, w)) \<Rightarrow> e\<lparr>se_store := s, se_world := w\<rparr>)"

definition stack_send_response :: "'h nfc_hal \<Rightarrow> bytes \<Rightarrow> 'h stack_env \<Rightarrow> unit result \<times> 'h stack_env" where
  "stack_send_response H b e = (case on_hal (hal_send_response H b) (se_world e) of
     (r, w) \<Rightarrow> (r, e\<lparr>se_world := w\<rparr>))"

text \<open>The calls a listener makes, in order.\<close>

fun run_effects :: "'h nfc_hal \<Rightarrow> listener_effect list \<Rightarrow> 'h stack_env \<Rightarrow> 'h stack_env" where
  "run_effects H [] e = e"
| "run_effects H (Eff_Send b # es) e = run_effects H es (snd (stack_send_response H b e))"
| "run_effects H (Eff_Dirty # es) e = run_effects H es (nfc_stack_on_service_dirty e)"

definition on_ndef :: "'h nfc_hal \<Rightarrow> (ndef_listener \<Rightarrow> ndef_listener \<times> listener_effect list)
    \<Rightarrow> 'h stack_env \<Rightarrow> 'h stack_env" where
  "on_ndef H f e = (case f (lw_ndef (se_world e)) of (l, es) \<Rightarrow>
     run_effects H es (e\<lparr>se_world := (se_world e)\<lparr>lw_ndef := l\<rparr>\<rparr>))"

text \<open>The vtable as the router uses it.\<close>

definition stack_service :: "'h nfc_hal \<Rightarrow> listen_svc \<Rightarrow> 'h stack_env nfc_service" where
  "stack_service H p = \<lparr>svc_on_select = Some (\<lambda>_. on_ndef H ndef_listener_on_select),
     svc_on_apdu = Some (\<lambda>a. on_ndef H (ndef_listener_on_apdu (Some a))),
     svc_on_tag_cmd = None,
     svc_on_deselect = Some (on_ndef H (\<lambda>l. (ndef_listener_on_deselect l, []))),
     svc_on_field_off = Some (on_ndef H (\<lambda>l. (ndef_listener_on_field_off l, []))),
     svc_serialize = None, svc_deserialize = None, svc_persist_id = NFC_PERSIST_ID_NDEF\<rparr>"

section \<open>Operations\<close>

definition nfc_stack_listen_services :: "nat \<Rightarrow> 'h listen_world nfc_service option list" where
  "nfc_stack_listen_services mx = (if mx = 0 then [] else [Some ndef_store_service])"

text \<open>Steps on one part of the stack.\<close>

definition sk_on_asm :: "(apdu_assembler \<Rightarrow> unit result \<times> apdu_assembler) \<Rightarrow> ('h nfc_stack, unit) io" where
  "sk_on_asm f s = (case f (sk_asm s) of (r, a) \<Rightarrow> (r, s\<lparr>sk_asm := a\<rparr>))"

definition sk_on_router ::
  "(listen_svc aid_router \<Rightarrow> unit result \<times> listen_svc aid_router) \<Rightarrow> ('h nfc_stack, unit) io" where
  "sk_on_router f s = (case f (sk_router s) of (r, a) \<Rightarrow> (r, s\<lparr>sk_router := a\<rparr>))"

definition sk_on_store ::
  "('h listen_world nfc_store \<Rightarrow> unit result \<times> 'h listen_world nfc_store) \<Rightarrow> ('h nfc_stack, unit) io" where
  "sk_on_store f s = (case f (se_store (sk_env s)) of (r, a) \<Rightarrow> (r, s\<lparr>sk_env := (sk_env s)\<lparr>se_store := a\<rparr>\<rparr>))"

definition sk_on_world :: "('h listen_world, 'a) io \<Rightarrow> ('h nfc_stack, 'a) io" where
  "sk_on_world f s = (case f (se_world (sk_env s)) of (r, a) \<Rightarrow> (r, s\<lparr>sk_env := (sk_env s)\<lparr>se_world := a\<rparr>\<rparr>))"

definition sk_on_both :: "('h listen_world, 'a) store_io \<Rightarrow> ('h nfc_stack, 'a) io" where
  "sk_on_both f s = (case f (se_store (sk_env s), se_world (sk_env s)) of (r, (a, w)) \<Rightarrow>
     (r, s\<lparr>sk_env := (sk_env s)\<lparr>se_store := a, se_world := w\<rparr>\<rparr>))"

definition sk_ram_init :: "('h nfc_stack, unit) io" where
  "sk_ram_init s = (case nfc_store_ram_init ram_save_cb ram_load_cb (sk_ram_ready s, se_store (sk_env s)) of
     (r, (ready, a)) \<Rightarrow> (r, s\<lparr>sk_ram_ready := ready, sk_env := (sk_env s)\<lparr>se_store := a\<rparr>\<rparr>))"

definition sk_upd_stats :: "(nfc_stack_stats \<Rightarrow> nfc_stack_stats) \<Rightarrow> ('h nfc_stack, unit) io" where
  "sk_upd_stats f = io_modify (\<lambda>s. s\<lparr>sk_stats := f (sk_stats s)\<rparr>)"

definition sk_error :: "errno \<Rightarrow> ('h nfc_stack, unit) io" where
  "sk_error e = sk_upd_stats (\<lambda>t. t\<lparr>ks_error_count := ks_error_count t + 1, ks_last_error_code := Some e\<rparr>)"

definition sk_goto :: "nfc_stack_state \<Rightarrow> ('h nfc_stack, unit) io" where
  "sk_goto x = io_modify (\<lambda>s. s\<lparr>sk_state := x\<rparr>)"

text \<open>\<open>(void)f ()\<close> and \<open>if (ret != 0 && ret != -EALREADY)\<close>.\<close>

definition ignore :: "('s, 'a) io \<Rightarrow> ('s, unit) io" where
  "ignore m s = (Inr (), snd (m s))"

definition already_ok :: "('s, unit) io \<Rightarrow> ('s, unit) io" where
  "already_ok m = io_case m (\<lambda>e. if e = EALREADY then io_return () else io_fail e) io_return"

definition stack_register_listen_profiles :: "('h nfc_stack, unit) io" where
  "stack_register_listen_profiles = sk_on_router (aid_router_register (Some NDEF_AID) (Some SVC_NDEF))"

definition stack_init_protocol_listeners :: "('h nfc_stack, unit) io" where
  "stack_init_protocol_listeners = already_ok (sk_on_world (\<lambda>w.
     case ndef_listener_init None None (lw_ndef w) of (r, l) \<Rightarrow> (r, w\<lparr>lw_ndef := l\<rparr>)))"

definition stack_shutdown_protocol_listeners :: "('h nfc_stack, unit) io" where
  "stack_shutdown_protocol_listeners = ignore (sk_on_world (\<lambda>w.
     case ndef_listener_shutdown (lw_ndef w) of (r, l) \<Rightarrow> (r, w\<lparr>lw_ndef := l\<rparr>)))"

text \<open>The labels of \<open>nfc_stack_init\<close>, each falling through to the next.\<close>

definition init_fail :: "errno \<Rightarrow> ('h nfc_stack, unit) io" where
  "init_fail e = io_bind (sk_goto NFC_STACK_STATE_UNINITIALIZED) (\<lambda>_. io_bind (sk_error e) (\<lambda>_. io_fail EIO))"

definition init_fail_asm :: "errno \<Rightarrow> ('h nfc_stack, unit) io" where
  "init_fail_asm e = io_bind (ignore (sk_on_asm apdu_assembler_shutdown)) (\<lambda>_. init_fail e)"

definition init_fail_router :: "errno \<Rightarrow> ('h nfc_stack, unit) io" where
  "init_fail_router e = io_bind (ignore (sk_on_router aid_router_shutdown)) (\<lambda>_. init_fail_asm e)"

definition init_fail_store :: "errno \<Rightarrow> ('h nfc_stack, unit) io" where
  "init_fail_store e = io_bind (ignore (sk_on_store nfc_store_shutdown)) (\<lambda>_. init_fail_router e)"

definition init_fail_transport :: "'h nfc_hal \<Rightarrow> errno \<Rightarrow> ('h nfc_stack, unit) io" where
  "init_fail_transport H e =
     io_bind (sk_on_world (\<lambda>w. (Inr (), w\<lparr>lw_hal := hal_shutdown H (lw_hal w)\<rparr>))) (\<lambda>_. init_fail_store e)"

definition init_fail_listeners :: "'h nfc_hal \<Rightarrow> errno \<Rightarrow> ('h nfc_stack, unit) io" where
  "init_fail_listeners H e = io_bind stack_shutdown_protocol_listeners (\<lambda>_. init_fail_transport H e)"

definition nfc_stack_init :: "'h nfc_hal \<Rightarrow> nfc_profile option \<Rightarrow> ('h nfc_stack, unit) io" where
  "nfc_stack_init H cfg s =
     (if sk_state s \<noteq> NFC_STACK_STATE_UNINITIALIZED then (Inl EALREADY, s)
      else
        let p = (case cfg of Some x \<Rightarrow> x | None \<Rightarrow> NFC_PROFILE_NDEF);
            p = (if p = NFC_PROFILE_NONE then CONFIG_NFC_STACK_DEFAULT_PROFILE else p) in
        io_case (sk_on_asm (apdu_assembler_init None)) init_fail (\<lambda>_.
        io_case (sk_on_router aid_router_init) init_fail_asm (\<lambda>_.
        io_case (already_ok (sk_on_store (nfc_store_init None))) init_fail_router (\<lambda>_.
        io_case sk_ram_init init_fail_store (\<lambda>_.
        io_case (already_ok (sk_on_world (on_hal (hal_init H)))) init_fail_store (\<lambda>_.
        io_case stack_init_protocol_listeners (init_fail_transport H) (\<lambda>_.
        io_case (sk_on_world (on_hal (hal_register_callbacks H))) (init_fail_listeners H) (\<lambda>_.
        io_case stack_register_listen_profiles (init_fail_listeners H) io_return)))))))
          (s\<lparr>sk_stats := nfc_stack_stats_zero, sk_default_profile := p,
             sk_state := NFC_STACK_STATE_INITIALIZED, sk_env := (sk_env s)\<lparr>se_active_tag := []\<rparr>\<rparr>))"

definition nfc_stack_start :: "'h nfc_hal \<Rightarrow> nfc_uid option \<Rightarrow> ('h nfc_stack, unit) io" where
  "nfc_stack_start H uid s =
     (if sk_state s = NFC_STACK_STATE_STARTED then (Inr (), s)
      else if sk_state s \<noteq> NFC_STACK_STATE_INITIALIZED \<and> sk_state s \<noteq> NFC_STACK_STATE_STOPPED then (Inl ENODEV, s)
      else if (case uid of None \<Rightarrow> False | Some u \<Rightarrow> unat (uid_len u) \<notin> {4, 7, 10}) then (Inl EINVAL, s)
      else
        io_bind (sk_goto NFC_STACK_STATE_STARTED) (\<lambda>_.
        io_case (sk_on_world (on_hal (hal_start H uid)))
          (\<lambda>e. io_bind (sk_goto NFC_STACK_STATE_ERROR) (\<lambda>_. io_bind (sk_error e) (\<lambda>_. io_fail EIO)))
          (\<lambda>_. sk_upd_stats (ks_start_count_update (\<lambda>n. n + 1)))) s)"

definition nfc_stack_stop :: "'h nfc_hal \<Rightarrow> ('h nfc_stack, unit) io" where
  "nfc_stack_stop H s =
     (if sk_state s = NFC_STACK_STATE_UNINITIALIZED then (Inl ENODEV, s)
      else if sk_state s = NFC_STACK_STATE_INITIALIZED \<or> sk_state s = NFC_STACK_STATE_STOPPED then (Inr (), s)
      else
        io_case (sk_on_world (on_hal (hal_stop H)))
          (\<lambda>e. io_bind (sk_goto NFC_STACK_STATE_ERROR) (\<lambda>_. io_bind (sk_error e) (\<lambda>_. io_fail EIO)))
          (\<lambda>_. io_bind (sk_goto NFC_STACK_STATE_STOPPED) (\<lambda>_.
             sk_upd_stats (ks_stop_count_update (\<lambda>n. n + 1)))) s)"

definition nfc_stack_shutdown :: "'h nfc_hal \<Rightarrow> ('h nfc_stack, unit) io" where
  "nfc_stack_shutdown H s =
     (if sk_state s = NFC_STACK_STATE_UNINITIALIZED then (Inr (), s)
      else
        io_bind (if sk_state s = NFC_STACK_STATE_STARTED then ignore (nfc_stack_stop H) else io_return ()) (\<lambda>_.
        io_bind (sk_on_world (\<lambda>w. (Inr (), w\<lparr>lw_hal := hal_shutdown H (lw_hal w)\<rparr>))) (\<lambda>_.
        io_bind stack_shutdown_protocol_listeners (\<lambda>_.
        io_bind (ignore (sk_on_store nfc_store_shutdown)) (\<lambda>_.
        io_bind (ignore (sk_on_router aid_router_shutdown)) (\<lambda>_.
        io_bind (ignore (sk_on_asm apdu_assembler_shutdown)) (\<lambda>_.
        sk_goto NFC_STACK_STATE_UNINITIALIZED)))))) s)"

text \<open>The guards and the epilogue that load and save share; \<open>op\<close> is the store operation.\<close>

definition nfc_stack_with_tag ::
  "(string option \<Rightarrow> 'h listen_world nfc_service option list \<Rightarrow> ('h listen_world, unit) store_io)
    \<Rightarrow> (nfc_stack_stats \<Rightarrow> nfc_stack_stats) \<Rightarrow> string option \<Rightarrow> ('h nfc_stack, unit) io" where
  "nfc_stack_with_tag op count tag s =
     (if sk_state s = NFC_STACK_STATE_STARTED then (Inl EBUSY, s)
      else if sk_state s \<noteq> NFC_STACK_STATE_INITIALIZED \<and> sk_state s \<noteq> NFC_STACK_STATE_STOPPED then (Inl ENODEV, s)
      else case tag of
        None \<Rightarrow> (Inl EINVAL, s)
      | Some t \<Rightarrow>
          let svcs = nfc_stack_listen_services 6 in
          if length svcs = 0 then (Inl ENODEV, s)
          else io_bind (sk_on_both (op (Some t) svcs)) (\<lambda>_.
            io_bind (io_modify (\<lambda>s. s\<lparr>sk_env := (sk_env s)
                \<lparr>se_active_tag := take (CONFIG_NFC_STORE_MAX_TAG_LEN - 1) t\<rparr>\<rparr>)) (\<lambda>_.
            sk_upd_stats count)) s)"

definition nfc_stack_load :: "(bytes \<Rightarrow> u16) \<Rightarrow> string option \<Rightarrow> ('h nfc_stack, unit) io" where
  "nfc_stack_load crc = nfc_stack_with_tag (nfc_store_load crc False) (ks_load_count_update (\<lambda>n. n + 1))"

definition nfc_stack_save :: "(bytes \<Rightarrow> u16) \<Rightarrow> string option \<Rightarrow> ('h nfc_stack, unit) io" where
  "nfc_stack_save crc = nfc_stack_with_tag (nfc_store_save crc False) (ks_save_count_update (\<lambda>n. n + 1))"

section \<open>Transport callbacks\<close>

definition nfc_stack_on_field_on :: "'h nfc_stack \<Rightarrow> 'h nfc_stack" where
  "nfc_stack_on_field_on s = s\<lparr>sk_asm := apdu_assembler_on_field_on_handler (sk_asm s)\<rparr>"

definition nfc_stack_on_field_off :: "'h nfc_hal \<Rightarrow> 'h nfc_stack \<Rightarrow> 'h nfc_stack" where
  "nfc_stack_on_field_off H s =
     (case apdu_assembler_on_field_off_handler (stack_service H) (sk_asm s, sk_router s, sk_env s) of
        (a, r, e) \<Rightarrow> s\<lparr>sk_asm := a, sk_router := r, sk_env := e\<rparr>)"

text \<open>The second component counts the \<open>net_buf_unref\<close> calls.\<close>

definition nfc_stack_on_apdu :: "'h nfc_hal \<Rightarrow> bytes option \<Rightarrow> 'h nfc_stack \<Rightarrow> 'h nfc_stack \<times> nat" where
  "nfc_stack_on_apdu H apdu s =
     (case apdu_assembler_on_apdu_handler (stack_service H) (stack_send_response H) apdu
             (sk_asm s, sk_router s, sk_env s) of
        ((a, r, e), n) \<Rightarrow> (s\<lparr>sk_asm := a, sk_router := r, sk_env := e\<rparr>, n))"

end
