(* ===== verification/Store_Safety.thy ===== *)
theory Store_Safety
  imports Card_Store
begin

text \<open>
  Memory safety of the store: whatever the backend and the services return within their contracts,
  every operation of \<open>store/nfc_store.c\<close> writes only inside the two static buffers, on every path, and
  keeps an invariant \<open>P\<close> of the outside world that the callbacks keep.
\<close>

section \<open>Contracts of the callbacks\<close>

definition save_fn_ok :: "('w \<Rightarrow> bool) \<Rightarrow> 'w save_fn \<Rightarrow> bool" where
  "save_fn_ok P cb \<longleftrightarrow> (\<forall>t b w. P w \<longrightarrow> P (snd (cb t b w)))"

definition load_fn_ok :: "('w \<Rightarrow> bool) \<Rightarrow> 'w load_fn \<Rightarrow> bool" where
  "load_fn_ok P cb \<longleftrightarrow> (\<forall>t m w r w'. P w \<longrightarrow> cb t m w = (r, w') \<longrightarrow>
     P w' \<and> (\<forall>b. r = Inr b \<longrightarrow> length b \<le> m))"

definition commit_fn_ok :: "('w \<Rightarrow> bool) \<Rightarrow> 'w commit_fn \<Rightarrow> bool" where
  "commit_fn_ok P cb \<longleftrightarrow> (\<forall>v t w. P w \<longrightarrow> P (snd (cb v t w)))"

definition service_ok :: "('w \<Rightarrow> bool) \<Rightarrow> 'w nfc_service \<Rightarrow> bool" where
  "service_ok P v \<longleftrightarrow>
     (\<forall>ser m w r w'. svc_serialize v = Some ser \<longrightarrow> P w \<longrightarrow> ser m w = (r, w') \<longrightarrow>
        P w' \<and> (\<forall>b. r = Inr b \<longrightarrow> length b \<le> m)) \<and>
     (\<forall>des b w. svc_deserialize v = Some des \<longrightarrow> P w \<longrightarrow> P (snd (des b w)))"

text \<open>What only init, shutdown and the registration functions change.\<close>

type_synonym 'w store_cfg = "module_state \<times> u8 \<times> 'w save_fn option \<times> 'w load_fn option \<times> 'w commit_fn option"

definition store_cfg :: "'w nfc_store \<Rightarrow> 'w store_cfg" where
  "store_cfg s = (so_state s, so_resolved_max_tag_len s, so_save_cb s, so_load_cb s, so_commit_cb s)"

definition store_inv :: "('w \<Rightarrow> bool) \<Rightarrow> 'w store_cfg \<Rightarrow> 'w nfc_store \<times> 'w \<Rightarrow> bool" where
  "store_inv P c sw \<longleftrightarrow> (case sw of (s, w) \<Rightarrow> store_cfg s = c \<and>
     length (so_staging_buf s) = CONFIG_NFC_STORE_BLOB_SIZE \<and>
     length (so_serialize_buf s) = CONFIG_NFC_STORE_BLOB_SIZE \<and>
     (\<forall>cb. so_save_cb s = Some cb \<longrightarrow> save_fn_ok P cb) \<and>
     (\<forall>cb. so_load_cb s = Some cb \<longrightarrow> load_fn_ok P cb) \<and>
     (\<forall>cb. so_commit_cb s = Some cb \<longrightarrow> commit_fn_ok P cb) \<and> P w)"

lemma store_cfg_upd [simp]: "store_cfg (store_upd x s) = store_cfg s"
  by (simp add: store_cfg_def)

lemma default_cbs_ok:
  "save_fn_ok P nfc_store_default_save" "load_fn_ok P nfc_store_default_load"
  "commit_fn_ok P nfc_store_default_commit"
  by (auto simp: save_fn_ok_def load_fn_ok_def commit_fn_ok_def nfc_store_default_save_def
      nfc_store_default_load_def nfc_store_default_commit_def io_simps)

section \<open>Rules\<close>

abbreviation "io_keeps P m \<equiv> io_hoare P m (\<lambda>_. P) P"

lemma io_keeps_bind: "io_keeps P m \<Longrightarrow> (\<And>x. io_keeps P (f x)) \<Longrightarrow> io_keeps P (io_bind m f)"
  by (rule io_hoare_bind)

lemma io_keeps_basic:
  "io_keeps P (io_return x)" "io_keeps P (io_fail e)" "io_keeps P (io_check c e)"
  by (auto simp: io_hoare_def io_check_def io_simps)

lemma io_hoare_case:
  assumes "io_hoare P m R F" "\<And>e. io_hoare F (h e) Q E" "\<And>x. io_hoare (R x) (f x) Q E"
  shows "io_hoare P (io_case m h f) Q E"
  unfolding io_hoare_def io_case_def
proof (intro allI impI)
  fix s assume "P s"
  obtain r s' where m: "m s = (r, s')" by fastforce
  show "case (case m s of (Inl e, s') \<Rightarrow> h e s' | (Inr x, s') \<Rightarrow> f x s') of
      (Inl _, s') \<Rightarrow> E s' | (Inr x, s') \<Rightarrow> Q x s'"
    using m io_hoareD [OF assms(1) \<open>P s\<close>] assms(2,3)
    by (cases r) (simp_all add: io_hoare_def)
qed

text \<open>A precondition on the value of the step before, kept as a premise.\<close>

lemma io_hoare_pre: "(c \<Longrightarrow> io_hoare P m Q E) \<Longrightarrow> io_hoare (\<lambda>s. c \<and> P s) m Q E"
  by (auto simp: io_hoare_def)

lemma store_step_keeps:
  "io_keeps (store_inv P c) (st_inc f)" "io_keeps (store_inv P c) (st_error e)"
  "io_keeps (store_inv P c) nfc_store_check_initialized" "io_keeps (store_inv P c) (nfc_store_validate_tag tag)"
  "io_keeps (store_inv P c) (st_get g)"
  by (auto simp: io_hoare_def st_error_def st_get_def nfc_store_check_initialized_def
      nfc_store_validate_tag_def io_simps store_inv_def split: option.split)

lemma stage_keeps:
  "pos + length b \<le> CONFIG_NFC_STORE_BLOB_SIZE \<Longrightarrow> io_keeps (store_inv P c) (stage pos b)"
  "length b \<le> CONFIG_NFC_STORE_BLOB_SIZE \<Longrightarrow> io_keeps (store_inv P c) (stage_ser b)"
  by (auto simp: io_hoare_def io_simps store_inv_def length_memcpy_at)

lemma outside_hoare:
  assumes "\<And>w r w'. P w \<Longrightarrow> m w = (r, w') \<Longrightarrow> P w' \<and> (\<forall>b. r = Inr b \<longrightarrow> R b)"
  shows "io_hoare (store_inv P c) (outside m) (\<lambda>b sw. R b \<and> store_inv P c sw) (store_inv P c)"
  unfolding io_hoare_def
proof (intro allI impI)
  fix sw assume inv: "store_inv P c sw"
  obtain s w r w' where sw: "sw = (s, w)" and m: "m w = (r, w')" by (meson surj_pair)
  from inv have "P w" unfolding sw store_inv_def by simp
  with assms m have R: "P w'" "\<And>b. r = Inr b \<Longrightarrow> R b" by blast+
  have "store_inv P c (s, w')" using inv R(1) unfolding sw store_inv_def by simp
  then show "case outside m sw of (Inl _, s') \<Rightarrow> store_inv P c s' | (Inr b, s') \<Rightarrow> R b \<and> store_inv P c s'"
    using R(2) by (cases r) (simp_all add: outside_def sw m)
qed

lemma serialize_keeps:
  assumes "service_ok P v" "svc_serialize v = Some ser"
  shows "io_hoare (store_inv P c) (outside (ser m)) (\<lambda>b sw. length b \<le> m \<and> store_inv P c sw) (store_inv P c)"
  by (rule outside_hoare) (use assms in \<open>unfold service_ok_def, blast\<close>)

lemma outside_load_keeps:
  assumes "load_fn_ok P cb"
  shows "io_hoare (store_inv P c) (outside (cb t m)) (\<lambda>b sw. length b \<le> m \<and> store_inv P c sw) (store_inv P c)"
  by (rule outside_hoare) (use assms in \<open>unfold load_fn_ok_def, blast\<close>)

lemma outside_keeps:
  assumes "\<And>w. P w \<Longrightarrow> P (snd (m w))"
  shows "io_keeps (store_inv P c) (outside m)"
proof -
  have "io_hoare (store_inv P c) (outside m) (\<lambda>_ sw. True \<and> store_inv P c sw) (store_inv P c)"
    by (rule outside_hoare) (use assms in fastforce)
  then show ?thesis by simp
qed

lemmas keeps_rules = io_keeps_bind io_keeps_basic store_step_keeps io_hoare_if

section \<open>Operations\<close>

lemma callback_keeps:
  "io_hoare (store_inv P c) (st_callback so_save_cb) (\<lambda>cb sw. save_fn_ok P cb \<and> store_inv P c sw) (store_inv P c)"
  "io_hoare (store_inv P c) (st_callback so_load_cb) (\<lambda>cb sw. load_fn_ok P cb \<and> store_inv P c sw) (store_inv P c)"
  "io_hoare (store_inv P c) (st_callback so_commit_cb) (\<lambda>cb sw. commit_fn_ok P cb \<and> store_inv P c sw) (store_inv P c)"
  by (auto simp: io_hoare_def st_callback_def store_inv_def split: option.split)

lemma put_entry_keeps:
  "length body \<le> CONFIG_NFC_STORE_BLOB_SIZE \<Longrightarrow> io_keeps (store_inv P c) (nfc_store_put_entry i pos body)"
  unfolding nfc_store_put_entry_def Let_def by (intro keeps_rules stage_keeps) auto

lemma nfc_store_save_loop_keeps:
  assumes "\<forall>v. Some v \<in> set svcs \<longrightarrow> service_ok P v"
  shows "io_keeps (store_inv P c) (nfc_store_save_loop svcs pos pl)"
  using assms
proof (induction svcs arbitrary: pos pl)
  case Nil
  then show ?case by (simp add: io_keeps_basic)
next
  case (Cons svc svcs)
  then have IH: "io_keeps (store_inv P c) (nfc_store_save_loop svcs pos pl)" for pos pl by simp
  note skip = io_keeps_bind [OF store_step_keeps(1) IH]
  show ?case
  proof (cases "\<exists>v ser. svc = Some v \<and> svc_serialize v = Some ser")
    case False
    then show ?thesis by (auto simp: skip split: option.split)
  next
    case True
    then obtain v ser where v: "svc = Some v" "svc_serialize v = Some ser" by blast
    have "service_ok P v" using Cons.prems v by simp
    note ser = serialize_keeps [OF this v(2)]
    show ?thesis
      unfolding nfc_store_save_loop.simps v option.case
      by (intro io_hoare_if io_hoare_case [OF ser] io_hoare_pre skip keeps_rules put_entry_keeps IH)
  qed
qed

lemma append_crc_keeps: "io_keeps (store_inv P c) (nfc_store_append_crc crc CONFIG_NFC_STORE_BLOB_SIZE n)"
  by (auto simp: io_hoare_def nfc_store_append_crc_def io_simps store_inv_def length_memcpy_at)

lemma error_keeps: "io_keeps (store_inv P c) (io_bind (st_error e) (\<lambda>_. io_fail e'))"
  by (intro keeps_rules)

lemma save_finish_keeps: "io_keeps (store_inv P c) (nfc_store_save_finish crc t n)"
proof -
  have cb: "io_keeps (store_inv P c) (io_case (outside (cb t (take total buf)))
      (\<lambda>e. io_bind (st_error e) (\<lambda>_. io_fail EIO)) (\<lambda>_. inc_save))" if "save_fn_ok P cb" for cb t total buf
    using that
    by (intro io_hoare_case [OF outside_keeps _ store_step_keeps(1)] error_keeps) (simp add: save_fn_ok_def)
  have tail: "io_keeps (store_inv P c) (io_bind (st_callback so_save_cb) (\<lambda>save_cb.
      io_bind (st_get so_staging_buf) (\<lambda>buf.
      io_case (outside (save_cb t (take total buf))) (\<lambda>e. io_bind (st_error e) (\<lambda>_. io_fail EIO))
        (\<lambda>_. inc_save))))" for total
    by (rule io_hoare_bind [OF callback_keeps(1)], rule io_hoare_pre,
        rule io_keeps_bind [OF store_step_keeps(5)], erule cb)
  show ?thesis
    unfolding nfc_store_save_finish_def
    by (rule io_keeps_bind [OF stage_keeps(1) io_hoare_case [OF append_crc_keeps error_keeps tail]])
      (simp add: CONFIG_NFC_STORE_BLOB_SIZE_def)
qed

lemma nfc_store_save_keeps:
  assumes "\<forall>v. Some v \<in> set svcs \<longrightarrow> service_ok P v"
  shows "io_keeps (store_inv P c) (nfc_store_save crc started tag svcs)"
  unfolding nfc_store_save_def nfc_store_check_quiescent_def nfc_store_write_header_def
  by (intro keeps_rules stage_keeps nfc_store_save_loop_keeps [OF assms] save_finish_keeps)
    (simp add: CONFIG_NFC_STORE_BLOB_SIZE_def)

lemma on_dirty_keeps:
  assumes "\<forall>v. svc = Some v \<longrightarrow> service_ok P v"
  shows "io_keeps (store_inv P c) (nfc_store_on_dirty svc tag)"
proof -
  have commit: "io_keeps (store_inv P c) (io_case (outside (cb v t))
      (\<lambda>e. io_bind (st_error e) (\<lambda>_. io_fail e)) (\<lambda>_. inc_live_commit))" if "commit_fn_ok P cb" for cb v t
    using that
    by (intro io_hoare_case [OF outside_keeps _ store_step_keeps(1)] error_keeps) (simp add: commit_fn_ok_def)
  have tail: "io_keeps (store_inv P c) (io_bind (stage 0 body) (\<lambda>_. io_bind (st_callback so_commit_cb) (\<lambda>cb.
      io_case (outside (cb v t)) (\<lambda>e. io_bind (st_error e) (\<lambda>_. io_fail e)) (\<lambda>_. inc_live_commit))))"
    if "length body \<le> CONFIG_NFC_STORE_BLOB_SIZE" for body v t
    using that
    by (intro io_keeps_bind [OF stage_keeps(1)] io_hoare_bind [OF callback_keeps(3)] io_hoare_pre commit) simp_all
  show ?thesis
    unfolding nfc_store_on_dirty_def
    by (intro io_keeps_bind [OF store_step_keeps(3)], cases svc; cases tag)
      (use assms in \<open>auto simp: keeps_rules intro!: io_hoare_case [OF serialize_keeps] io_hoare_pre tail
        error_keeps split: option.split\<close>)
qed

lemma read_envelope_keeps: "io_keeps (store_inv P c) (nfc_store_read_envelope crc t)"
proof -
  have tail: "io_keeps (store_inv P c) (io_bind (stage 0 b) (\<lambda>_. io_bind (st_get so_staging_buf) (\<lambda>buf.
      case nfc_store_validate_blob_buf crc (Some (take (length b) buf)) of
        Inl e \<Rightarrow> io_bind inc_corrupt_blob (\<lambda>_. io_fail e) | Inr x \<Rightarrow> io_return x)))"
    if "length b \<le> CONFIG_NFC_STORE_BLOB_SIZE" for b
    using that
    by (intro io_keeps_bind [OF stage_keeps(1)] io_keeps_bind [OF store_step_keeps(5)])
      (auto simp: keeps_rules split: sum.split)
  show ?thesis
    unfolding nfc_store_read_envelope_def
    by (rule io_hoare_bind [OF callback_keeps(2)], rule io_hoare_pre,
        rule io_hoare_case [OF outside_load_keeps])
      (auto simp: keeps_rules intro: error_keeps io_hoare_pre tail)
qed

lemma io_keepsD: "io_keeps P m \<Longrightarrow> P s \<Longrightarrow> P (snd (m s))"
  by (cases "m s"; cases "fst (m s)") (auto dest: io_hoareD)

lemma load_loop_keeps:
  assumes svcs: "\<forall>v. Some v \<in> set svcs \<longrightarrow> service_ok P v" and inv: "store_inv P c sw"
  shows "store_inv P c (snd (nfc_store_load_loop svcs v pend pos le sw))"
proof -
  have des: "store_inv P c sw'"
    if v: "nfc_store_find_service svcs i = Some v" "svc_deserialize v = Some des"
      and sw: "outside (des b) sw = (r, sw')" "store_inv P c sw" for i v des b r sw sw'
  proof -
    from v have "service_ok P v"
      using svcs by (auto simp: nfc_store_find_service_def find_Some_iff in_set_conv_nth split: option.splits)
    with v(2) have "io_keeps (store_inv P c) (outside (des b))"
      by (intro outside_keeps) (auto simp: service_ok_def)
    from io_keepsD [OF this sw(2)] sw(1) show ?thesis by simp
  qed
  note step = io_keepsD [OF store_step_keeps(1)] io_keepsD [OF error_keeps]
    io_keepsD [OF io_keeps_bind [OF store_step_keeps(1) io_keeps_basic(2)]]
    io_keepsD [OF io_keeps_bind [OF store_step_keeps(1) store_step_keeps(2)]]
  show ?thesis
    using inv
  proof (induction "pend - pos" arbitrary: pos le sw rule: less_induct)
    case less
    define ovh where "ovh = nfc_store_entry_overhead v"
    have "2 < ovh" by (simp add: ovh_def nfc_store_entry_overhead_def)
    then have IH: "store_inv P c (snd (nfc_store_load_loop svcs v pend (pos + ovh + n) le' sw'))"
      if "pos < pend" "store_inv P c sw'" for n le' sw'
      using less.hyps that by simp
    show ?case
      unfolding nfc_store_load_loop.simps [of svcs v pend pos le sw] Let_def ovh_def [symmetric]
      using less.prems
      by (auto simp: step split: option.split prod.split sum.split
          intro!: IH dest: des)
  qed
qed

lemma nfc_store_load_keeps:
  assumes "\<forall>v. Some v \<in> set svcs \<longrightarrow> service_ok P v"
  shows "io_keeps (store_inv P c) (nfc_store_load crc started tag svcs)"
proof -
  have loop: "io_keeps (store_inv P c) (nfc_store_load_loop svcs v pend pos le)" for v pend pos le
    using load_loop_keeps [OF assms, of c] by (auto simp: io_hoare_def split: prod.split sum.split) (metis snd_conv)+
  show ?thesis
    unfolding nfc_store_load_def nfc_store_check_quiescent_def
    by (intro io_keeps_bind [OF io_keeps_basic(3)] io_keeps_bind [OF store_step_keeps(3)]
        io_keeps_bind [OF store_step_keeps(4)] io_keeps_bind [OF read_envelope_keeps])
      (auto intro!: io_keeps_bind [OF loop] simp: keeps_rules split: prod.split)
qed

lemma store_lifecycle_keeps:
  assumes "store_inv P c (s, w)"
  shows "\<exists>c. store_inv P c (snd (nfc_store_init cfg s), w)" "\<exists>c. store_inv P c (snd (nfc_store_shutdown s), w)"
    "(\<forall>f. sf = Some f \<longrightarrow> save_fn_ok P f) \<Longrightarrow> \<exists>c. store_inv P c (snd (nfc_store_register_save_cb sf s), w)"
    "(\<forall>f. lf = Some f \<longrightarrow> load_fn_ok P f) \<Longrightarrow> \<exists>c. store_inv P c (snd (nfc_store_register_load_cb lf s), w)"
    "(\<forall>f. cf = Some f \<longrightarrow> commit_fn_ok P f) \<Longrightarrow> \<exists>c. store_inv P c (snd (nfc_store_register_commit_cb cf s), w)"
proof -
  have ex: "(\<exists>c. store_inv P c (s, w)) \<longleftrightarrow> store_inv P (store_cfg s) (s, w)" for s w
    unfolding store_inv_def by (simp del: split_paired_Ex)
  show "\<exists>c. store_inv P c (snd (nfc_store_init cfg s), w)" "\<exists>c. store_inv P c (snd (nfc_store_shutdown s), w)"
    "(\<forall>f. sf = Some f \<longrightarrow> save_fn_ok P f) \<Longrightarrow> \<exists>c. store_inv P c (snd (nfc_store_register_save_cb sf s), w)"
    "(\<forall>f. lf = Some f \<longrightarrow> load_fn_ok P f) \<Longrightarrow> \<exists>c. store_inv P c (snd (nfc_store_register_load_cb lf s), w)"
    "(\<forall>f. cf = Some f \<longrightarrow> commit_fn_ok P f) \<Longrightarrow> \<exists>c. store_inv P c (snd (nfc_store_register_commit_cb cf s), w)"
    unfolding ex using assms
    by (auto simp: store_inv_def nfc_store_init_def nfc_store_shutdown_def nfc_store_register_save_cb_def
        nfc_store_register_load_cb_def nfc_store_register_commit_cb_def Let_def default_cbs_ok split: option.split)
qed

lemma store_inv_boot: "P w \<Longrightarrow> store_inv P (store_cfg nfc_store_boot) (nfc_store_boot, w)"
  by (simp add: store_inv_def nfc_store_boot_def)

section \<open>All histories of the store\<close>

text \<open>The calls of the store's interface; between them the outside world moves within its invariant.\<close>

inductive store_step ::
  "(bytes \<Rightarrow> u16) \<Rightarrow> ('w \<Rightarrow> bool) \<Rightarrow> 'w nfc_store \<times> 'w \<Rightarrow> 'w nfc_store \<times> 'w \<Rightarrow> bool"
  for crc P where
  store_init: "store_step crc P (s, w) (snd (nfc_store_init cfg s), w)"
| store_shutdown: "store_step crc P (s, w) (snd (nfc_store_shutdown s), w)"
| store_save_cb: "(\<forall>f. sf = Some f \<longrightarrow> save_fn_ok P f) \<Longrightarrow>
    store_step crc P (s, w) (snd (nfc_store_register_save_cb sf s), w)"
| store_load_cb: "(\<forall>f. lf = Some f \<longrightarrow> load_fn_ok P f) \<Longrightarrow>
    store_step crc P (s, w) (snd (nfc_store_register_load_cb lf s), w)"
| store_commit_cb: "(\<forall>f. cf = Some f \<longrightarrow> commit_fn_ok P f) \<Longrightarrow>
    store_step crc P (s, w) (snd (nfc_store_register_commit_cb cf s), w)"
| store_dirty: "(\<forall>v. svc = Some v \<longrightarrow> service_ok P v) \<Longrightarrow>
    store_step crc P sw (snd (nfc_store_on_dirty svc tag sw))"
| store_save: "(\<forall>v. Some v \<in> set svcs \<longrightarrow> service_ok P v) \<Longrightarrow>
    store_step crc P sw (snd (nfc_store_save crc started tag svcs sw))"
| store_load: "(\<forall>v. Some v \<in> set svcs \<longrightarrow> service_ok P v) \<Longrightarrow>
    store_step crc P sw (snd (nfc_store_load crc started tag svcs sw))"
| store_environment: "P w' \<Longrightarrow> store_step crc P (s, w) (s, w')"

lemma store_step_inv:
  assumes "store_step crc P sw sw'" "\<exists>c. store_inv P c sw"
  shows "\<exists>c. store_inv P c sw'"
  using assms
proof (induction rule: store_step.induct)
  case (store_environment w' s w)
  then show ?case by (auto simp: store_inv_def)
qed (blast intro: store_lifecycle_keeps io_keepsD [OF on_dirty_keeps] io_keepsD [OF nfc_store_save_keeps]
    io_keepsD [OF nfc_store_load_keeps])+

section \<open>Properties\<close>



end
