(* ===== verification/Listen_Safety.thy ===== *)
theory Listen_Safety
  imports Listen_Stack Store_Safety
begin

text \<open>
  The invariant of the listen stack, over every sequence of API calls, received frames and field
  events, with any HAL: buffers keep their size in every layer, and the state machine of
  \<open>nfc_stack.c\<close> agrees with the modules it drives, partial failures of init included.
\<close>

section \<open>The layers keep their invariants\<close>

definition world_ok :: "bool \<Rightarrow> 'h listen_world \<Rightarrow> bool" where
  "world_ok i w \<longleftrightarrow> ndef_listener_inv (lw_ndef w) \<and> ram_inv (lw_ram w) \<and> nl_initialized (lw_ndef w) = i"

lemma ndef_serialize_length:
  assumes "ndef_data_ok d" "ndef_serialize (Some d) (Some m) = Inr b"
  shows "length b \<le> m"
  using assms
  by (auto simp: ndef_serialize_def ndef_data_ok_def ndef_blob_total_len_def ndef_blob_payload_len_def
      split: if_splits)

lemma ndef_listener_keeps_initialized:
  "nl_initialized (snd (ndef_listener_serialize m l)) = nl_initialized l"
  "nl_initialized (snd (ndef_listener_deserialize b l)) = nl_initialized l"
  by (auto simp: ndef_lifecycle_defs ndef_listener_sync_file_len_def ndef_listener_pad_ndef_file_def
      split: prod.split sum.split)

lemma ndef_store_service_ok: "service_ok (world_ok i) ndef_store_service"
proof -
  have ser: "world_ok i (w\<lparr>lw_ndef := l\<rparr>) \<and> (\<forall>b. r = Inr b \<longrightarrow> length b \<le> m)"
    if "world_ok i w" "ndef_listener_serialize (Some m) (lw_ndef w) = (r, l)"
    for m r l and w :: "'h listen_world"
    using that ndef_inv_serialize [of "lw_ndef w" "Some m"] ndef_listener_keeps_initialized(1) [of "Some m" "lw_ndef w"]
    by (auto simp: world_ok_def ndef_listener_serialize_def Let_def ndef_listener_inv_def
        intro: ndef_serialize_length split: if_splits)
  have des: "world_ok i (w\<lparr>lw_ndef := l\<rparr>)"
    if "world_ok i w" "ndef_listener_deserialize (Some b) (lw_ndef w) = (r, l)"
    for b r l and w :: "'h listen_world"
    using that ndef_inv_deserialize [of "lw_ndef w" "Some b"] ndef_listener_keeps_initialized(2) [of "Some b" "lw_ndef w"]
    by (simp add: world_ok_def)
  show ?thesis
    unfolding service_ok_def ndef_store_service_def
    by (clarsimp split: prod.splits, intro conjI allI impI) (blast dest: ser des)+
qed

lemma ram_callbacks_ok:
  "save_fn_ok (world_ok i) ram_save_cb" "load_fn_ok (world_ok i) ram_load_cb"
proof -
  have sv: "ram_inv x'" if "ram_inv x" "nfc_store_ram_save_cb t b x = (r, x')" for t b x r x'
    using that ram_save_ok [of x t b] ram_save_error [of t b x] by (cases r) auto
  then show "save_fn_ok (world_ok i) ram_save_cb"
    by (auto simp: save_fn_ok_def ram_save_cb_def world_ok_def split: prod.splits)
  show "load_fn_ok (world_ok i) ram_load_cb"
    unfolding load_fn_ok_def
    by (auto simp: ram_load_cb_def world_ok_def ram_load_spec split: option.splits if_splits)
qed

text \<open>The store of the stack: its buffers, and callbacks that are unset, the defaults, or those of the
  RAM backend.\<close>

definition store_ok :: "'h listen_world nfc_store \<Rightarrow> bool" where
  "store_ok s \<longleftrightarrow> length (so_staging_buf s) = CONFIG_NFC_STORE_BLOB_SIZE \<and>
     length (so_serialize_buf s) = CONFIG_NFC_STORE_BLOB_SIZE \<and>
     so_save_cb s \<in> {None, Some nfc_store_default_save, Some ram_save_cb} \<and>
     so_load_cb s \<in> {None, Some nfc_store_default_load, Some ram_load_cb} \<and>
     so_commit_cb s \<in> {None, Some nfc_store_default_commit}"

lemma store_ok_inv: "store_ok s \<Longrightarrow> world_ok i w \<Longrightarrow> store_inv (world_ok i) (store_cfg s) (s, w)"
  by (auto simp: store_ok_def store_inv_def default_cbs_ok ram_callbacks_ok)

lemma store_inv_ok:
  assumes "store_inv (world_ok i) (store_cfg s) (s', w')" "store_ok s"
  shows "store_ok s' \<and> world_ok i w' \<and> store_cfg s' = store_cfg s"
  using assms by (auto simp: store_ok_def store_inv_def store_cfg_def)

lemma store_op_ok:
  assumes "io_keeps (store_inv (world_ok i) (store_cfg s)) m" "store_ok s" "world_ok i w"
    "m (s, w) = (r, (s', w'))"
  shows "store_ok s' \<and> world_ok i w' \<and> store_cfg s' = store_cfg s"
  using io_keepsD [OF assms(1) store_ok_inv [OF assms(2,3)]] assms(4) store_inv_ok [OF _ assms(2)] by simp

section \<open>Effects of the listener\<close>

definition env_ok :: "bool \<Rightarrow> 'h listen_world store_cfg \<Rightarrow> 'h stack_env \<Rightarrow> bool" where
  "env_ok i c e \<longleftrightarrow> store_ok (se_store e) \<and> store_cfg (se_store e) = c \<and> world_ok i (se_world e) \<and>
     length (se_active_tag e) < CONFIG_NFC_STORE_MAX_TAG_LEN"

lemma env_ok_dirty:
  assumes "env_ok i c e"
  shows "env_ok i c (nfc_stack_on_service_dirty e)"
proof -
  let ?m = "nfc_store_on_dirty (Some ndef_store_service) (Some (se_active_tag e)) :: ('h listen_world, unit) store_io"
  obtain r s' w' where m: "?m (se_store e, se_world e) = (r, (s', w'))" by (metis surj_pair)
  have "io_keeps (store_inv (world_ok i) (store_cfg (se_store e))) ?m"
    by (rule on_dirty_keeps) (simp add: ndef_store_service_ok)
  from store_op_ok [OF this _ _ m] assms show ?thesis
    by (simp add: nfc_stack_on_service_dirty_def env_ok_def m)
qed

lemma env_ok_send: "env_ok i c e \<Longrightarrow> env_ok i c (snd (stack_send_response H b e))"
  by (auto simp: stack_send_response_def on_hal_def env_ok_def world_ok_def split: prod.splits)

lemma env_ok_effects: "env_ok i c e \<Longrightarrow> env_ok i c (run_effects H es e)"
  by (induction H es e rule: run_effects.induct) (auto intro: env_ok_dirty env_ok_send)

lemma env_ok_on_ndef:
  assumes e: "env_ok i c e"
    and f: "\<And>l. ndef_listener_inv l \<Longrightarrow> ndef_listener_inv (fst (f l)) \<and> nl_initialized (fst (f l)) = nl_initialized l"
  shows "env_ok i c (on_ndef H f e)"
proof -
  let ?l = "lw_ndef (se_world e)"
  have "env_ok i c (e\<lparr>se_world := (se_world e)\<lparr>lw_ndef := fst (f ?l)\<rparr>\<rparr>)"
    using e f [of ?l] by (simp add: env_ok_def world_ok_def)
  then show ?thesis
    unfolding on_ndef_def by (cases "f ?l") (simp add: env_ok_effects)
qed

lemma env_ok_service:
  assumes "env_ok i c e"
  shows "env_ok i c (call_opt (map_option (\<lambda>f. f aid) (svc_on_select (stack_service H p))) e)"
    "env_ok i c (call_opt (svc_on_deselect (stack_service H p)) e)"
    "env_ok i c (call_opt (svc_on_field_off (stack_service H p)) e)"
    "apdu_in_frame a \<Longrightarrow> env_ok i c (call_opt (map_option (\<lambda>f. f a) (svc_on_apdu (stack_service H p))) e)"
proof -
  have init: "nl_initialized (fst (ndef_listener_on_select l)) = nl_initialized l"
    "nl_initialized (ndef_listener_on_deselect l) = nl_initialized l"
    "nl_initialized (ndef_listener_on_field_off l) = nl_initialized l" for l
    by (simp_all add: ndef_listener_on_select_def ndef_listener_on_deselect_def ndef_listener_on_field_off_def)
  show "env_ok i c (call_opt (map_option (\<lambda>f. f aid) (svc_on_select (stack_service H p))) e)"
    "env_ok i c (call_opt (svc_on_deselect (stack_service H p)) e)"
    "env_ok i c (call_opt (svc_on_field_off (stack_service H p)) e)"
    "apdu_in_frame a \<Longrightarrow> env_ok i c (call_opt (map_option (\<lambda>f. f a) (svc_on_apdu (stack_service H p))) e)"
    unfolding call_opt_def stack_service_def
    by (simp_all add: env_ok_on_ndef [OF assms] ndef_inv_session init ndef_inv_on_apdu ndef_on_apdu_frame(3))
qed

lemma env_ok_dispatch:
  assumes "env_ok i c e" "apdu_in_frame a"
  shows "env_ok i c (snd (aid_router_dispatch (stack_service H) (stack_send_response H) (Some a) (r, e)))"
proof -
  have sw: "env_ok i c (snd (aid_router_send_sw (stack_send_response H) sw (r, e)))" for sw
    using env_ok_send [OF assms(1), of H "sw_bytes sw"]
    by (auto simp: aid_router_send_sw_def split: prod.split sum.split)
  have sel: "env_ok i c (snd (aid_router_select (stack_service H) p x (r, e)))" for p x
    using assms(1) by (auto simp: aid_router_select_def Let_def env_ok_service split: option.split)
  show ?thesis
    using assms sw sel env_ok_service(4) [OF assms]
    by (auto simp: aid_router_dispatch_def split: option.split)
qed

section \<open>The state machine\<close>

text \<open>What is known of the stack: the state, the states of the assembler and the router, the routes, and
  whether the store, the RAM backend and the listener are known to be up.\<close>

definition stack_facts :: "nfc_stack_state \<Rightarrow> module_state \<Rightarrow> module_state \<Rightarrow> (bytes \<Rightarrow> listen_svc option)
    \<Rightarrow> bool \<Rightarrow> bool \<Rightarrow> bool \<Rightarrow> 'h nfc_stack \<Rightarrow> bool" where
  "stack_facts x a rt m st rd nl s \<longleftrightarrow> sk_state s = x \<and> fa_state (sk_asm s) = a \<and> rt_state (sk_router s) = rt \<and>
     aid_map (sk_router s) = m \<and> router_inv (sk_router s) \<and> (st \<longrightarrow> so_state (se_store (sk_env s)) = INITIALIZED) \<and> (rd \<longrightarrow> sk_ram_ready s) \<and>
     (nl \<longrightarrow> nl_initialized (lw_ndef (se_world (sk_env s)))) \<and> store_ok (se_store (sk_env s)) \<and>
     ndef_listener_inv (lw_ndef (se_world (sk_env s))) \<and> ram_inv (lw_ram (se_world (sk_env s))) \<and>
     length (se_active_tag (sk_env s)) < CONFIG_NFC_STORE_MAX_TAG_LEN"

abbreviation "ndef_route \<equiv> [NDEF_AID \<mapsto> SVC_NDEF]"

definition stack_down :: "'h nfc_stack \<Rightarrow> bool" where
  "stack_down = stack_facts NFC_STACK_STATE_UNINITIALIZED UNINITIALIZED UNINITIALIZED Map.empty False False False"

definition stack_up :: "nfc_stack_state \<Rightarrow> 'h nfc_stack \<Rightarrow> bool" where
  "stack_up x = stack_facts x INITIALIZED INITIALIZED ndef_route True True True"

definition stack_inv :: "'h nfc_stack \<Rightarrow> bool" where
  "stack_inv s \<longleftrightarrow> (if sk_state s = NFC_STACK_STATE_UNINITIALIZED then stack_down s else stack_up (sk_state s) s)"

lemma stack_facts_mono:
  "stack_facts x a rt m st rd nl s \<Longrightarrow> (st' \<longrightarrow> st) \<Longrightarrow> (rd' \<longrightarrow> rd) \<Longrightarrow> (nl' \<longrightarrow> nl)
    \<Longrightarrow> stack_facts x a rt m st' rd' nl' s"
  by (auto simp: stack_facts_def)

lemma aid_map_empty: "aid_map r = Map.empty \<Longrightarrow> live_entries r = []"
  by (auto simp: aid_map_def)

lemma router_empty: "rt_table_count r = 0 \<Longrightarrow> aid_map r = Map.empty"
  by (simp add: aid_map_def live_entries_def)

text \<open>A step on one module changes only what is known of that module.\<close>

lemma router_lift:
  assumes "\<And>r. router_inv r \<Longrightarrow> rt_state r = rt \<Longrightarrow> aid_map r = m \<Longrightarrow>
    \<exists>r'. f r = (Inr (), r') \<and> router_inv r' \<and> rt_state r' = rt' \<and> aid_map r' = m'"
  shows "io_hoare (stack_facts x a rt m st rd nl) (sk_on_router f) (\<lambda>_. stack_facts x a rt' m' st rd nl) (\<lambda>_. False)"
  unfolding io_hoare_def
proof (intro allI impI)
  fix s :: "'h nfc_stack" assume s: "stack_facts x a rt m st rd nl s"
  then obtain r' where "f (sk_router s) = (Inr (), r')" "router_inv r'" "rt_state r' = rt'" "aid_map r' = m'"
    using assms [of "sk_router s"] by (auto simp: stack_facts_def)
  with s show "case sk_on_router f s of (Inl _, s') \<Rightarrow> False | (Inr _, s') \<Rightarrow> stack_facts x a rt' m' st rd nl s'"
    by (simp add: sk_on_router_def stack_facts_def)
qed

lemma ndef_lift:
  assumes "\<And>l. ndef_listener_inv l \<Longrightarrow>
    \<exists>res l'. f l = (res, l') \<and> ndef_listener_inv l' \<and> (nl' \<longrightarrow> nl_initialized l') \<and> (res = Inr () \<or> res = Inl EALREADY)"
  shows "io_hoare (stack_facts x a rt m st rd nl)
    (already_ok (sk_on_world (\<lambda>w. case f (lw_ndef w) of (r, l) \<Rightarrow> (r, w\<lparr>lw_ndef := l\<rparr>))))
    (\<lambda>_. stack_facts x a rt m st rd nl') (\<lambda>_. False)"
  unfolding io_hoare_def
proof (intro allI impI)
  fix s :: "'h nfc_stack" assume s: "stack_facts x a rt m st rd nl s"
  then obtain res l' where "f (lw_ndef (se_world (sk_env s))) = (res, l')" "ndef_listener_inv l'"
    "nl' \<longrightarrow> nl_initialized l'" "res = Inr () \<or> res = Inl EALREADY"
    using assms [of "lw_ndef (se_world (sk_env s))"] by (auto simp: stack_facts_def)
  with s show "case already_ok (sk_on_world (\<lambda>w. case f (lw_ndef w) of (r, l) \<Rightarrow> (r, w\<lparr>lw_ndef := l\<rparr>))) s of
      (Inl _, s') \<Rightarrow> False | (Inr _, s') \<Rightarrow> stack_facts x a rt m st rd nl' s'"
    by (elim disjE) (simp_all add: already_ok_def sk_on_world_def io_case_def io_simps stack_facts_def)
qed

lemma hoare_ignore:
  assumes "io_hoare P m (\<lambda>_. Q) Q"
  shows "io_hoare P (ignore m) (\<lambda>_. Q) (\<lambda>_. False)"
  unfolding io_hoare_def
proof (intro allI impI)
  fix s assume "P s"
  obtain r s' where m: "m s = (r, s')" by fastforce
  with assms \<open>P s\<close> have "Q s'" by (cases r) (auto dest: io_hoareD)
  with m show "case ignore m s of (Inl _, s') \<Rightarrow> False | (Inr _, s') \<Rightarrow> Q s'" by (simp add: ignore_def)
qed

lemma hoare_no_fail: "io_hoare P m Q (\<lambda>_. False) \<Longrightarrow> io_hoare P m Q E"
  by (erule io_hoare_weaken) simp_all

lemma hoare_void: "io_hoare P m (\<lambda>_. Q) (\<lambda>_. False) \<Longrightarrow> io_hoare P (ignore m) (\<lambda>_. Q) (\<lambda>_. False)"
  by (rule hoare_ignore, rule hoare_no_fail)

lemma asm_steps:
  "io_hoare (stack_facts x UNINITIALIZED rt m st rd nl) (sk_on_asm (apdu_assembler_init cfg))
     (\<lambda>_. stack_facts x INITIALIZED rt m st rd nl) (\<lambda>_. False)"
  "io_hoare (stack_facts x a rt m st rd nl) (ignore (sk_on_asm apdu_assembler_shutdown))
     (\<lambda>_. stack_facts x UNINITIALIZED rt m st rd nl) (\<lambda>_. False)"
  by (auto simp: io_hoare_def sk_on_asm_def ignore_def apdu_assembler_init_def apdu_assembler_shutdown_def
      stack_facts_def)

lemma router_steps:
  "io_hoare (stack_facts x a UNINITIALIZED m st rd nl) (sk_on_router aid_router_init)
     (\<lambda>_. stack_facts x a INITIALIZED Map.empty st rd nl) (\<lambda>_. False)"
  "io_hoare (stack_facts x a rt m st rd nl) (ignore (sk_on_router aid_router_shutdown))
     (\<lambda>_. stack_facts x a UNINITIALIZED Map.empty st rd nl) (\<lambda>_. False)"
proof -
  show "io_hoare (stack_facts x a UNINITIALIZED m st rd nl) (sk_on_router aid_router_init)
     (\<lambda>_. stack_facts x a INITIALIZED Map.empty st rd nl) (\<lambda>_. False)"
  proof (rule router_lift)
    fix r :: "listen_svc aid_router" assume "router_inv r" "rt_state r = UNINITIALIZED"
    with router_inv_init [of r]
    show "\<exists>r'. aid_router_init r = (Inr (), r') \<and> router_inv r' \<and> rt_state r' = INITIALIZED \<and> aid_map r' = Map.empty"
      by (simp add: aid_router_init_def router_empty)
  qed
  show "io_hoare (stack_facts x a rt m st rd nl) (ignore (sk_on_router aid_router_shutdown))
     (\<lambda>_. stack_facts x a UNINITIALIZED Map.empty st rd nl) (\<lambda>_. False)"
  proof (rule hoare_void, rule router_lift)
    fix r :: "listen_svc aid_router" assume "router_inv r"
    with router_inv_shutdown [of r]
    show "\<exists>r'. aid_router_shutdown r = (Inr (), r') \<and> router_inv r' \<and> rt_state r' = UNINITIALIZED \<and> aid_map r' = Map.empty"
      by (simp add: aid_router_shutdown_def router_empty)
  qed
qed

lemma store_steps_up:
  "io_hoare (stack_facts x a rt m st rd nl) (already_ok (sk_on_store (nfc_store_init cfg)))
     (\<lambda>_. stack_facts x a rt m True rd nl) (\<lambda>_. False)"
  "io_hoare (stack_facts x a rt m st rd nl) (ignore (sk_on_store nfc_store_shutdown))
     (\<lambda>_. stack_facts x a rt m False rd nl) (\<lambda>_. False)"
  "io_hoare (stack_facts x a rt m True rd nl) sk_ram_init
     (\<lambda>_. stack_facts x a rt m True True nl) (\<lambda>_. False)"
  subgoal
    by (auto simp: io_hoare_def sk_on_store_def already_ok_def io_case_def io_simps
      nfc_store_init_def Let_def stack_facts_def store_ok_def)
  subgoal
    by (auto simp: io_hoare_def sk_on_store_def ignore_def nfc_store_shutdown_def stack_facts_def store_ok_def)
  subgoal
    unfolding io_hoare_def
  proof (intro allI impI)
    fix s :: "'h nfc_stack" assume s: "stack_facts x a rt m True rd nl s"
    then have "so_state (se_store (sk_env s)) = INITIALIZED" by (simp add: stack_facts_def)
    with s show "case sk_ram_init s of (Inl _, s') \<Rightarrow> False | (Inr _, s') \<Rightarrow> stack_facts x a rt m True True nl s'"
      by (cases "sk_ram_ready s") (simp_all add: sk_ram_init_def nfc_store_ram_init_def nfc_store_init_def
          nfc_store_register_save_cb_def nfc_store_register_load_cb_def stack_facts_def store_ok_def)
  qed
  done


lemma register_steps:
  "io_hoare (stack_facts x a INITIALIZED Map.empty st rd nl) stack_register_listen_profiles
     (\<lambda>_. stack_facts x a INITIALIZED ndef_route st rd nl) (\<lambda>_. False)"
  unfolding stack_register_listen_profiles_def
proof (rule router_lift)
  fix r :: "listen_svc aid_router"
  assume r: "router_inv r" "rt_state r = INITIALIZED" "aid_map r = Map.empty"
  then show "\<exists>r'. aid_router_register (Some NDEF_AID) (Some SVC_NDEF) r = (Inr (), r') \<and> router_inv r' \<and>
      rt_state r' = INITIALIZED \<and> aid_map r' = ndef_route"
    using aidreg.register_ok [of r NDEF_AID SVC_NDEF]
    by (auto simp: NDEF_AID_def aid_map_empty CONFIG_NFC_ROUTER_MAX_AIDS_def fun_eq_iff)
qed

text \<open>Steps outside the state machine: the HAL, the listener, the counters.\<close>

lemma stack_facts_upd [simp]:
  "stack_facts x a rt m st rd nl (s\<lparr>sk_stats := t\<rparr>) = stack_facts x a rt m st rd nl s"
  "stack_facts x a rt m st rd nl (s\<lparr>sk_default_profile := p\<rparr>) = stack_facts x a rt m st rd nl s"
  by (simp_all add: stack_facts_def)

lemma hal_steps:
  "io_hoare (stack_facts x a rt m st rd nl) (sk_on_world (on_hal f))
     (\<lambda>_. stack_facts x a rt m st rd nl) (stack_facts x a rt m st rd nl)"
  "io_hoare (stack_facts x a rt m st rd nl) (already_ok (sk_on_world (on_hal g)))
     (\<lambda>_. stack_facts x a rt m st rd nl) (stack_facts x a rt m st rd nl)"
  "io_hoare (stack_facts x a rt m st rd nl) (sk_on_world (\<lambda>w. (Inr (), w\<lparr>lw_hal := hal_shutdown H (lw_hal w)\<rparr>)))
     (\<lambda>_. stack_facts x a rt m st rd nl) (\<lambda>_. False)"
  by (auto simp: io_hoare_def sk_on_world_def on_hal_def already_ok_def io_case_def io_simps stack_facts_def
      split: prod.split sum.split)

lemma listener_steps:
  "io_hoare (stack_facts x a rt m st rd nl) stack_init_protocol_listeners
     (\<lambda>_. stack_facts x a rt m st rd True) (\<lambda>_. False)"
  "io_hoare (stack_facts x a rt m st rd nl) stack_shutdown_protocol_listeners
     (\<lambda>_. stack_facts x a rt m st rd False) (\<lambda>_. False)"
proof -
  show "io_hoare (stack_facts x a rt m st rd nl) stack_init_protocol_listeners
     (\<lambda>_. stack_facts x a rt m st rd True) (\<lambda>_. False)"
    unfolding stack_init_protocol_listeners_def
  proof (rule ndef_lift)
    fix l assume "ndef_listener_inv l"
    from ndef_inv_init [OF this, of None None]
    show "\<exists>res l'. ndef_listener_init None None l = (res, l') \<and> ndef_listener_inv l' \<and>
        (True \<longrightarrow> nl_initialized l') \<and> (res = Inr () \<or> res = Inl EALREADY)"
      by (cases "nl_initialized l") (simp_all add: ndef_listener_init_def Let_def)
  qed
  have "io_hoare (stack_facts x a rt m st rd nl) (sk_on_world (\<lambda>w. case ndef_listener_shutdown (lw_ndef w) of
      (r, l) \<Rightarrow> (r, w\<lparr>lw_ndef := l\<rparr>))) (\<lambda>_. stack_facts x a rt m st rd False) (\<lambda>_. False)"
    by (auto simp: io_hoare_def sk_on_world_def ndef_listener_shutdown_def ndef_listener_inv_def stack_facts_def)
  then show "io_hoare (stack_facts x a rt m st rd nl) stack_shutdown_protocol_listeners
     (\<lambda>_. stack_facts x a rt m st rd False) (\<lambda>_. False)"
    unfolding stack_shutdown_protocol_listeners_def by (rule hoare_void)
qed

lemma control_steps:
  "io_hoare (stack_facts x a rt m st rd nl) (sk_goto y) (\<lambda>_. stack_facts y a rt m st rd nl) (\<lambda>_. False)"
  "io_hoare (stack_facts x a rt m st rd nl) (sk_upd_stats f) (\<lambda>_. stack_facts x a rt m st rd nl) (\<lambda>_. False)"
  "io_hoare (stack_facts x a rt m st rd nl) (sk_error e) (\<lambda>_. stack_facts x a rt m st rd nl) (\<lambda>_. False)"
  by (auto simp: io_hoare_def sk_goto_def sk_upd_stats_def sk_error_def io_simps stack_facts_def)


section \<open>The operations\<close>

lemma init_fail_ok:
  "io_hoare (stack_facts x UNINITIALIZED UNINITIALIZED Map.empty st rd nl) (init_fail e) Q stack_down"
  "io_hoare (stack_facts x a UNINITIALIZED Map.empty st rd nl) (init_fail_asm e) Q stack_down"
  "io_hoare (stack_facts x a rt m st rd nl) (init_fail_router e) Q stack_down"
  "io_hoare (stack_facts x a rt m st rd nl) (init_fail_store e) Q stack_down"
  "io_hoare (stack_facts x a rt m st rd nl) (init_fail_transport H e) Q stack_down"
  "io_hoare (stack_facts x a rt m st rd nl) (init_fail_listeners H e) Q stack_down"
proof -
  note nf = hoare_no_fail
  have 1: "io_hoare (stack_facts x UNINITIALIZED UNINITIALIZED Map.empty st rd nl) (init_fail e) Q stack_down" for st rd nl
    unfolding init_fail_def
    by (rule io_hoare_bind [OF nf [OF control_steps(1)]], rule io_hoare_bind [OF nf [OF control_steps(3)]],
        rule io_hoare_basic(2)) (auto simp: stack_down_def elim: stack_facts_mono)
  have 2: "io_hoare (stack_facts x a UNINITIALIZED Map.empty st rd nl) (init_fail_asm e) Q stack_down" for st rd nl
    unfolding init_fail_asm_def by (rule io_hoare_bind [OF nf [OF asm_steps(2)] 1])
  have 3: "io_hoare (stack_facts x a rt m st rd nl) (init_fail_router e) Q stack_down" for st rd nl
    unfolding init_fail_router_def by (rule io_hoare_bind [OF nf [OF router_steps(2)] 2])
  have 4: "io_hoare (stack_facts x a rt m st rd nl) (init_fail_store e) Q stack_down" for st rd nl
    unfolding init_fail_store_def by (rule io_hoare_bind [OF nf [OF store_steps_up(2)] 3])
  have 5: "io_hoare (stack_facts x a rt m st rd nl) (init_fail_transport H e) Q stack_down" for st rd nl
    unfolding init_fail_transport_def by (rule io_hoare_bind [OF nf [OF hal_steps(3)] 4])
  have 6: "io_hoare (stack_facts x a rt m st rd nl) (init_fail_listeners H e) Q stack_down" for st rd nl
    unfolding init_fail_listeners_def by (rule io_hoare_bind [OF nf [OF listener_steps(2)] 5])
  show "io_hoare (stack_facts x UNINITIALIZED UNINITIALIZED Map.empty st rd nl) (init_fail e) Q stack_down"
    "io_hoare (stack_facts x a UNINITIALIZED Map.empty st rd nl) (init_fail_asm e) Q stack_down"
    "io_hoare (stack_facts x a rt m st rd nl) (init_fail_router e) Q stack_down"
    "io_hoare (stack_facts x a rt m st rd nl) (init_fail_store e) Q stack_down"
    "io_hoare (stack_facts x a rt m st rd nl) (init_fail_transport H e) Q stack_down"
    "io_hoare (stack_facts x a rt m st rd nl) (init_fail_listeners H e) Q stack_down"
    by (rule 1 2 3 4 5 6)+
qed

lemma hoare_false: "io_hoare (\<lambda>_. False) m Q E"
  by (simp add: io_hoare_def)

lemma stack_inv_cases:
  "stack_down s \<Longrightarrow> stack_inv s" "stack_up x s \<Longrightarrow> x \<noteq> NFC_STACK_STATE_UNINITIALIZED \<Longrightarrow> stack_inv s"
  "stack_inv s \<Longrightarrow> sk_state s = NFC_STACK_STATE_UNINITIALIZED \<Longrightarrow> stack_down s"
  "stack_inv s \<Longrightarrow> sk_state s \<noteq> NFC_STACK_STATE_UNINITIALIZED \<Longrightarrow> stack_up (sk_state s) s"
  by (auto simp: stack_inv_def stack_down_def stack_up_def stack_facts_def)

lemma hoare_stack_inv:
  assumes "io_hoare P m (\<lambda>_. stack_inv) stack_inv" "P s"
  shows "stack_inv (snd (m s))"
  using io_hoareD [OF assms] by (cases "m s"; cases "fst (m s)") auto

lemma nfc_stack_init_ok:
  assumes "stack_down s" "nfc_stack_init H cfg s = (r, s')"
  shows "case r of Inl _ \<Rightarrow> stack_down s' | Inr _ \<Rightarrow> stack_up NFC_STACK_STATE_INITIALIZED s'"
proof -
  let ?F = "stack_facts NFC_STACK_STATE_INITIALIZED :: _ \<Rightarrow> _ \<Rightarrow> _ \<Rightarrow> _ \<Rightarrow> _ \<Rightarrow> _ \<Rightarrow> 'a nfc_stack \<Rightarrow> bool"
  have "io_hoare (?F UNINITIALIZED UNINITIALIZED Map.empty False False False)
      (io_case (sk_on_asm (apdu_assembler_init None)) init_fail (\<lambda>_.
        io_case (sk_on_router aid_router_init) init_fail_asm (\<lambda>_.
        io_case (already_ok (sk_on_store (nfc_store_init None))) init_fail_router (\<lambda>_.
        io_case sk_ram_init init_fail_store (\<lambda>_.
        io_case (already_ok (sk_on_world (on_hal (hal_init H)))) init_fail_store (\<lambda>_.
        io_case stack_init_protocol_listeners (init_fail_transport H) (\<lambda>_.
        io_case (sk_on_world (on_hal (hal_register_callbacks H))) (init_fail_listeners H) (\<lambda>_.
        io_case stack_register_listen_profiles (init_fail_listeners H) io_return))))))))
      (\<lambda>_. stack_up NFC_STACK_STATE_INITIALIZED) stack_down"
    by (intro io_hoare_case [OF asm_steps(1) hoare_false] io_hoare_case [OF router_steps(1) hoare_false]
        io_hoare_case [OF store_steps_up(1) hoare_false] io_hoare_case [OF store_steps_up(3) hoare_false]
        io_hoare_case [OF hal_steps(2) init_fail_ok(4)] io_hoare_case [OF listener_steps(1) hoare_false]
        io_hoare_case [OF hal_steps(1) init_fail_ok(6)] io_hoare_case [OF register_steps hoare_false] io_hoare_basic(1))
      (simp add: stack_up_def)
  note init = io_hoareD [OF this]
  have st: "sk_state s = NFC_STACK_STATE_UNINITIALIZED" using assms by (simp add: stack_down_def stack_facts_def)
  have "?F UNINITIALIZED UNINITIALIZED Map.empty False False False (s\<lparr>sk_stats := nfc_stack_stats_zero,
      sk_default_profile := p, sk_state := NFC_STACK_STATE_INITIALIZED, sk_env := (sk_env s)\<lparr>se_active_tag := []\<rparr>\<rparr>)" for p
    using assms by (simp add: stack_down_def stack_facts_def CONFIG_NFC_STORE_MAX_TAG_LEN_def)
  note init = init [OF this]
  from assms(2) st show ?thesis
    unfolding nfc_stack_init_def Let_def using init by (cases r) auto
qed

lemma stack_inv_init: "stack_inv s \<Longrightarrow> stack_inv (snd (nfc_stack_init H cfg s))"
proof (cases "sk_state s = NFC_STACK_STATE_UNINITIALIZED")
  case True
  assume "stack_inv s"
  then have "stack_down s" using True by (rule stack_inv_cases(3))
  obtain r s' where r: "nfc_stack_init H cfg s = (r, s')" by fastforce
  from nfc_stack_init_ok [OF \<open>stack_down s\<close> r] show ?thesis
    unfolding r by (cases r) (auto intro: stack_inv_cases)
qed (simp add: nfc_stack_init_def)

lemma start_body_ok:
  "io_hoare (stack_up x) (io_bind (sk_goto NFC_STACK_STATE_STARTED) (\<lambda>_.
      io_case (sk_on_world (on_hal (hal_start H uid)))
        (\<lambda>e. io_bind (sk_goto NFC_STACK_STATE_ERROR) (\<lambda>_. io_bind (sk_error e) (\<lambda>_. io_fail EIO)))
        (\<lambda>_. sk_upd_stats (ks_start_count_update (\<lambda>n. n + 1)))))
    (\<lambda>_. stack_up NFC_STACK_STATE_STARTED) (stack_up NFC_STACK_STATE_ERROR)"
  unfolding stack_up_def
  by (intro io_hoare_bind [OF hoare_no_fail [OF control_steps(1)]] io_hoare_case [OF hal_steps(1)]
      hoare_no_fail [OF control_steps(2)] io_hoare_bind [OF hoare_no_fail [OF control_steps(3)]] io_hoare_basic(2))

lemma stop_body_ok:
  "io_hoare (stack_up x) (io_case (sk_on_world (on_hal (hal_stop H)))
      (\<lambda>e. io_bind (sk_goto NFC_STACK_STATE_ERROR) (\<lambda>_. io_bind (sk_error e) (\<lambda>_. io_fail EIO)))
      (\<lambda>_. io_bind (sk_goto NFC_STACK_STATE_STOPPED) (\<lambda>_. sk_upd_stats (ks_stop_count_update (\<lambda>n. n + 1)))))
    (\<lambda>_. stack_up NFC_STACK_STATE_STOPPED) (stack_up NFC_STACK_STATE_ERROR)"
  unfolding stack_up_def
  by (intro io_hoare_bind [OF hoare_no_fail [OF control_steps(1)]] io_hoare_case [OF hal_steps(1)]
      hoare_no_fail [OF control_steps(2)] io_hoare_bind [OF hoare_no_fail [OF control_steps(3)]] io_hoare_basic(2))

lemma hoare_up_inv:
  assumes "io_hoare P m (\<lambda>_. stack_up x) (stack_up y)" "P s"
    "x \<noteq> NFC_STACK_STATE_UNINITIALIZED" "y \<noteq> NFC_STACK_STATE_UNINITIALIZED"
  shows "stack_inv (snd (m s))"
proof -
  obtain r s' where m: "m s = (r, s')" by fastforce
  show ?thesis
    unfolding m using io_hoareD [OF assms(1,2)] m assms(3,4) by (cases r) (auto intro: stack_inv_cases(2))
qed

lemma stack_inv_start: "stack_inv s \<Longrightarrow> stack_inv (snd (nfc_stack_start H uid s))"
  using hoare_up_inv [OF start_body_ok, of "sk_state s" s H uid] stack_inv_cases(4) [of s]
  unfolding nfc_stack_start_def by auto

lemma stack_inv_stop: "stack_inv s \<Longrightarrow> stack_inv (snd (nfc_stack_stop H s))"
  using hoare_up_inv [OF stop_body_ok, of "sk_state s" s H] stack_inv_cases(4) [of s]
  unfolding nfc_stack_stop_def by simp


lemma shutdown_body_ok:
  "io_hoare (stack_facts x a rt m st rd nl)
      (io_bind (sk_on_world (\<lambda>w. (Inr (), w\<lparr>lw_hal := hal_shutdown H (lw_hal w)\<rparr>))) (\<lambda>_.
        io_bind stack_shutdown_protocol_listeners (\<lambda>_.
        io_bind (ignore (sk_on_store nfc_store_shutdown)) (\<lambda>_.
        io_bind (ignore (sk_on_router aid_router_shutdown)) (\<lambda>_.
        io_bind (ignore (sk_on_asm apdu_assembler_shutdown)) (\<lambda>_.
        sk_goto NFC_STACK_STATE_UNINITIALIZED)))))) (\<lambda>_. stack_down) (\<lambda>_. False)"
  unfolding stack_down_def
  by (intro io_hoare_bind [OF hal_steps(3)] io_hoare_bind [OF listener_steps(2)] io_hoare_bind [OF store_steps_up(2)]
      io_hoare_bind [OF router_steps(2)] io_hoare_bind [OF asm_steps(2)] io_hoare_weaken [OF control_steps(1)])
    (auto elim: stack_facts_mono)

text \<open>Shutdown succeeds from every state and takes the stack down, even when the HAL fails to stop.\<close>

lemma nfc_stack_shutdown_ok:
  assumes "stack_inv s"
  shows "\<exists>s'. nfc_stack_shutdown H s = (Inr (), s') \<and> stack_down s'"
proof (cases "sk_state s = NFC_STACK_STATE_UNINITIALIZED")
  case True
  with assms show ?thesis by (simp add: nfc_stack_shutdown_def stack_inv_def)
next
  case False
  let ?stop = "if sk_state s = NFC_STACK_STATE_STARTED then ignore (nfc_stack_stop H) else io_return ()"
  define t where "t = snd (?stop s)"
  have stop: "?stop s = (Inr (), t)"
    by (simp add: t_def ignore_def io_return_def)
  have "stack_inv t" using assms stack_inv_stop [OF assms] by (simp add: t_def ignore_def io_return_def)
  then obtain x a rt m st rd nl where "stack_facts x a rt m st rd nl t"
    unfolding stack_inv_def stack_down_def stack_up_def by (meson)
  from io_hoareD [OF shutdown_body_ok this] False stop show ?thesis
    by (cases "nfc_stack_shutdown H s"; cases "fst (nfc_stack_shutdown H s)")
      (auto simp: nfc_stack_shutdown_def io_bind_def)
qed

lemma on_both_ok:
  fixes f :: "('h listen_world, 'a) store_io"
  assumes "\<And>i c. io_keeps (store_inv (world_ok i) c) f"
  shows "io_hoare (stack_facts x a rt m st rd nl) (sk_on_both f)
    (\<lambda>_. stack_facts x a rt m st rd nl) (stack_facts x a rt m st rd nl)"
  unfolding io_hoare_def
proof (intro allI impI)
  fix s :: "'h nfc_stack" assume s: "stack_facts x a rt m st rd nl s"
  obtain r t w where f: "f (se_store (sk_env s), se_world (sk_env s)) = (r, (t, w))" by (metis surj_pair)
  have "store_ok t \<and> world_ok (nl_initialized (lw_ndef (se_world (sk_env s)))) w \<and>
      store_cfg t = store_cfg (se_store (sk_env s))"
    using s by (intro store_op_ok [OF assms _ _ f]) (simp_all add: stack_facts_def world_ok_def)
  with s have "stack_facts x a rt m st rd nl (s\<lparr>sk_env := (sk_env s)\<lparr>se_store := t, se_world := w\<rparr>\<rparr>)"
    by (auto simp: stack_facts_def world_ok_def store_cfg_def)
  then show "case sk_on_both f s of (Inl _, s') \<Rightarrow> stack_facts x a rt m st rd nl s'
      | (Inr _, s') \<Rightarrow> stack_facts x a rt m st rd nl s'"
    by (cases r) (simp_all add: sk_on_both_def f)
qed

lemma with_tag_body_ok:
  assumes "\<And>i c. io_keeps (store_inv (world_ok i) c) f"
  shows "io_hoare (stack_up x) (io_bind (sk_on_both f) (\<lambda>_.
      io_bind (io_modify (\<lambda>s. s\<lparr>sk_env := (sk_env s)\<lparr>se_active_tag := take (CONFIG_NFC_STORE_MAX_TAG_LEN - 1) t\<rparr>\<rparr>)) (\<lambda>_.
      sk_upd_stats g))) (\<lambda>_. stack_up x) (stack_up x)"
proof -
  have tag: "io_hoare (stack_facts x a rt m st rd nl)
      (io_modify (\<lambda>s. s\<lparr>sk_env := (sk_env s)\<lparr>se_active_tag := take (CONFIG_NFC_STORE_MAX_TAG_LEN - 1) t\<rparr>\<rparr>))
      (\<lambda>_. stack_facts x a rt m st rd nl) E" for a rt m st rd nl E
    by (auto simp: io_hoare_def io_simps stack_facts_def CONFIG_NFC_STORE_MAX_TAG_LEN_def)
  show ?thesis
    unfolding stack_up_def
    by (rule io_hoare_bind [OF on_both_ok [OF assms]], rule io_hoare_bind [OF tag], rule hoare_no_fail [OF control_steps(2)])
qed

lemma stack_inv_load_save:
  assumes "stack_inv s"
  shows "stack_inv (snd (nfc_stack_load crc tag s))" "stack_inv (snd (nfc_stack_save crc tag s))"
proof -
  have svcs: "\<forall>v. Some v \<in> set (nfc_stack_listen_services n) \<longrightarrow> service_ok (world_ok i) v" for n i
    by (auto simp: nfc_stack_listen_services_def ndef_store_service_ok)
  have up: "stack_up (sk_state s) s" if "sk_state s \<noteq> NFC_STACK_STATE_UNINITIALIZED"
    using stack_inv_cases(4) [OF assms that] .
  note ld = hoare_up_inv [OF with_tag_body_ok [OF nfc_store_load_keeps [OF svcs]] up]
  note sv = hoare_up_inv [OF with_tag_body_ok [OF nfc_store_save_keeps [OF svcs]] up]
  show "stack_inv (snd (nfc_stack_load crc tag s))" "stack_inv (snd (nfc_stack_save crc tag s))"
    unfolding nfc_stack_load_def nfc_stack_save_def nfc_stack_with_tag_def Let_def
    using assms by (auto simp del: One_nat_def split: option.split intro!: ld sv)
qed


lemma stack_inv_callbacks:
  assumes "stack_inv s"
  shows "stack_inv (nfc_stack_on_field_on s)" "stack_inv (nfc_stack_on_field_off H s)"
    "stack_inv (fst (nfc_stack_on_apdu H apdu s))"
proof -
  have upd: "stack_inv (s\<lparr>sk_asm := a, sk_router := r, sk_env := e\<rparr>)"
    if "fa_state a = fa_state (sk_asm s)" "rt_state r = rt_state (sk_router s)" "aid_map r = aid_map (sk_router s)"
      "router_inv r" "env_ok (nl_initialized (lw_ndef (se_world (sk_env s)))) (store_cfg (se_store (sk_env s))) e" for a r e
    using that assms
    by (auto simp: stack_inv_def stack_down_def stack_up_def stack_facts_def env_ok_def world_ok_def store_cfg_def)
  have env: "env_ok (nl_initialized (lw_ndef (se_world (sk_env s)))) (store_cfg (se_store (sk_env s))) (sk_env s)"
    and r: "router_inv (sk_router s)"
    and st: "fa_state (sk_asm s) = INITIALIZED \<Longrightarrow> rt_state (sk_router s) = INITIALIZED"
    using assms
    by (auto simp: stack_inv_def stack_down_def stack_up_def stack_facts_def env_ok_def world_ok_def split: if_splits)
  show "stack_inv (nfc_stack_on_field_on s)"
    using upd [of "apdu_assembler_on_field_on_handler (sk_asm s)" "sk_router s" "sk_env s"] env r
    by (simp add: nfc_stack_on_field_on_def apdu_assembler_on_field_on_handler_def fa_upd_def)
  show "stack_inv (nfc_stack_on_field_off H s)"
    unfolding nfc_stack_on_field_off_def apdu_assembler_on_field_off_handler_def aid_router_field_off_def
    using upd r env router_inv_field_off [OF r, of "stack_service H"]
    by (auto simp: fa_upd_def aid_router_field_off_def env_ok_service split: option.split intro!: upd)
  show "stack_inv (fst (nfc_stack_on_apdu H apdu s))"
  proof (cases "apdu = None \<or> fa_state (sk_asm s) \<noteq> INITIALIZED")
    case True
    then show ?thesis
      using assms by (auto simp: nfc_stack_on_apdu_def apdu_assembler_on_apdu_handler_def split: option.split)
  next
    case False
    then obtain d where d: "apdu = Some d" and fa: "fa_state (sk_asm s) = INITIALIZED" by auto
    show ?thesis
    proof (cases "apdu_parse (Some d) (fa_extended_apdu_support (sk_asm s))")
      case (Inl e)
      then show ?thesis
        using d fa upd [of _ "sk_router s"] r env_ok_send [OF env, of H]
        by (simp add: nfc_stack_on_apdu_def apdu_assembler_on_apdu_handler_def Let_def fa_upd_def)
    next
      case (Inr a)
      note fr = apdu_parse_in_frame [OF Inr]
      obtain r' e' where de: "aid_router_dispatch (stack_service H) (stack_send_response H) (Some a)
          (sk_router s, sk_env s) = (r', e')" by fastforce
      have "rt_state r' = INITIALIZED" "aid_map r' = aid_map (sk_router s)"
        using aid_router_dispatch_refines [OF r st [OF fa] fr, of "stack_service H" "stack_send_response H" "sk_env s"]
        by (auto simp: de split: prod.splits)
      moreover have "router_inv r'"
        using router_inv_dispatch [OF r, of "stack_service H" "stack_send_response H" "Some a" "sk_env s"] de by simp
      moreover note env_ok_dispatch [OF env fr, of H "sk_router s", unfolded de snd_conv]
      ultimately show ?thesis
        using d fa upd st [OF fa] Inr de
        by (simp add: nfc_stack_on_apdu_def apdu_assembler_on_apdu_handler_def Let_def fa_upd_def)
    qed
  qed
qed

section \<open>All histories of the stack\<close>

inductive stack_step :: "(bytes \<Rightarrow> u16) \<Rightarrow> 'h nfc_hal \<Rightarrow> 'h nfc_stack \<Rightarrow> 'h nfc_stack \<Rightarrow> bool" for crc H where
  stack_init: "stack_step crc H s (snd (nfc_stack_init H cfg s))"
| stack_start: "stack_step crc H s (snd (nfc_stack_start H uid s))"
| stack_stop: "stack_step crc H s (snd (nfc_stack_stop H s))"
| stack_shutdown: "stack_step crc H s (snd (nfc_stack_shutdown H s))"
| stack_load: "stack_step crc H s (snd (nfc_stack_load crc tag s))"
| stack_save: "stack_step crc H s (snd (nfc_stack_save crc tag s))"
| stack_field_on: "stack_step crc H s (nfc_stack_on_field_on s)"
| stack_field_off: "stack_step crc H s (nfc_stack_on_field_off H s)"
| stack_apdu: "stack_step crc H s (fst (nfc_stack_on_apdu H apdu s))"

lemma stack_step_inv:
  assumes "stack_step crc H s s'" "stack_inv s"
  shows "stack_inv s'"
  using assms
proof (induction rule: stack_step.induct)
  case (stack_shutdown s)
  then show ?case using nfc_stack_shutdown_ok [of s H] stack_inv_cases(1) by fastforce
qed (simp_all add: stack_inv_init stack_inv_start stack_inv_stop stack_inv_load_save stack_inv_callbacks)

lemma stack_inv_boot: "stack_inv (nfc_stack_boot h)"
  by (auto simp: stack_inv_def stack_down_def stack_facts_def nfc_stack_boot_def apdu_assembler_boot_def
      aid_router_boot_def router_empty router_inv_boot [unfolded aid_router_boot_def] nfc_store_boot_def store_ok_def
      ndef_inv_boot ram_inv_boot CONFIG_NFC_STORE_MAX_TAG_LEN_def)

lemma stack_reachable_inv: "rtranclp (stack_step crc H) (nfc_stack_boot h) s \<Longrightarrow> stack_inv s"
  by (induction rule: rtranclp_induct) (auto intro: stack_inv_boot stack_step_inv)

section \<open>Properties\<close>


text \<open>A HAL whose calls succeed and that records the responses it is given.\<close>

definition recording_hal :: "bytes list nfc_hal" where
  "recording_hal = \<lparr>hal_init = (\<lambda>h. (Inr (), h)), hal_shutdown = (\<lambda>h. h), hal_register_callbacks = (\<lambda>h. (Inr (), h)),
     hal_start = (\<lambda>_ h. (Inr (), h)), hal_stop = (\<lambda>h. (Inr (), h)), hal_send_response = (\<lambda>b h. (Inr (), h @ [b]))\<rparr>"




end
