(* ===== verification/Listen_Cards.thy ===== *)
theory Listen_Cards
  imports Listen_Safety
begin

text \<open>
  Saving and loading the emulated card through the whole listen stack: \<open>nfc_stack_save\<close> and
  \<open>nfc_stack_load\<close> over the store, the NDEF listener and the RAM backend.
\<close>

section \<open>The RAM backend on the stack's state\<close>

interpretation stack_ram: blob_backend ram_save_cb ram_load_cb "\<lambda>w. ram_map (lw_ram w)" "\<lambda>w. ram_inv (lw_ram w)"
proof
  fix w w' :: "'h listen_world" and t b
  assume inv: "ram_inv (lw_ram w)" and s: "ram_save_cb t b w = (Inr (), w')"
  then obtain x where "nfc_store_ram_save_cb t b (lw_ram w) = (Inr (), x)" "w' = w\<lparr>lw_ram := x\<rparr>"
    by (auto simp: ram_save_cb_def split: prod.splits)
  with ram_save_ok [OF inv] show "ram_inv (lw_ram w') \<and> ram_map (lw_ram w') = (ram_map (lw_ram w))(t \<mapsto> b)" by simp
next
  fix w w' :: "'h listen_world" and t b e
  assume "ram_save_cb t b w = (Inl e, w')"
  then show "w' = w" by (auto simp: ram_save_cb_def split: prod.splits dest!: ram_save_error)
next
  fix w :: "'h listen_world" and t m
  assume "ram_inv (lw_ram w)"
  then show "ram_load_cb t m w = (case ram_map (lw_ram w) t of None \<Rightarrow> (Inl ENOENT, w)
      | Some b \<Rightarrow> if length b \<le> m then (Inr b, w) else (Inl ENOSPC, w))"
    by (simp add: ram_load_cb_def ram_load_spec split: option.split)
qed

section \<open>Idle stacks\<close>

definition stack_idle :: "'h nfc_stack \<Rightarrow> bool" where
  "stack_idle s \<longleftrightarrow> (sk_state s = NFC_STACK_STATE_INITIALIZED \<or> sk_state s = NFC_STACK_STATE_STOPPED) \<and>
     stack_up (sk_state s) s"

definition ram_backed :: "'h nfc_stack \<Rightarrow> bool" where
  "ram_backed s \<longleftrightarrow> so_save_cb (se_store (sk_env s)) = Some ram_save_cb \<and>
     so_load_cb (se_store (sk_env s)) = Some ram_load_cb \<and>
     so_resolved_max_tag_len (se_store (sk_env s)) = of_nat CONFIG_NFC_STORE_MAX_TAG_LEN"

definition short_tag :: "string \<Rightarrow> bool" where
  "short_tag t \<longleftrightarrow> t \<noteq> [] \<and> length t < CONFIG_NFC_STORE_MAX_TAG_LEN"

abbreviation "ndef_of s \<equiv> nl_model (lw_ndef (se_world (sk_env s)))"
abbreviation "slots_of s \<equiv> lw_ram (se_world (sk_env s))"

lemma idle_store:
  assumes "stack_idle s"
  shows "store_ready (se_store (sk_env s))" "ram_inv (slots_of s)" "ndef_listener_inv (lw_ndef (se_world (sk_env s)))"
    "nl_initialized (lw_ndef (se_world (sk_env s)))"
  using assms by (auto simp: stack_idle_def stack_up_def stack_facts_def store_ready_def store_ok_def)

lemma idle_tag_ok:
  "so_resolved_max_tag_len s = of_nat CONFIG_NFC_STORE_MAX_TAG_LEN \<Longrightarrow> short_tag t \<Longrightarrow> tag_ok s t"
  by (simp add: tag_ok_def short_tag_def CONFIG_NFC_STORE_MAX_TAG_LEN_def)

text \<open>What an idle stack does with a tag is what the store does, plus the bookkeeping.\<close>

lemma with_tag_idle:
  assumes "stack_idle s" "short_tag t"
    "op (Some t) [Some ndef_store_service] (se_store (sk_env s), se_world (sk_env s)) = (r, (st, w))"
  shows "nfc_stack_with_tag op g (Some t) s = (case r of
      Inl e \<Rightarrow> (Inl e, s\<lparr>sk_env := (sk_env s)\<lparr>se_store := st, se_world := w\<rparr>\<rparr>)
    | Inr _ \<Rightarrow> (Inr (), s\<lparr>sk_env := (sk_env s)\<lparr>se_store := st, se_world := w, se_active_tag := t\<rparr>,
        sk_stats := g (sk_stats s)\<rparr>))"
proof -
  have t: "take (CONFIG_NFC_STORE_MAX_TAG_LEN - 1) t = t"
    using assms(2) by (simp add: short_tag_def CONFIG_NFC_STORE_MAX_TAG_LEN_def)
  have i: "sk_state s \<noteq> NFC_STACK_STATE_STARTED"
    "\<not> (sk_state s \<noteq> NFC_STACK_STATE_INITIALIZED \<and> sk_state s \<noteq> NFC_STACK_STATE_STOPPED)"
    using assms(1) by (auto simp: stack_idle_def)
  show ?thesis
    unfolding nfc_stack_with_tag_def Let_def
    using i assms(3) t
    by (cases r) (auto simp: nfc_stack_listen_services_def io_bind_def sk_on_both_def io_modify_def sk_upd_stats_def
        simp del: One_nat_def)
qed

lemma collect_ndef:
  assumes "ndef_listener_serialize (Some CONFIG_NFC_STORE_BLOB_SIZE) (lw_ndef w) = (Inr b, l)" "length b \<le> 518"
  shows "collect [Some ndef_store_service] NFC_STORE_BLOB_HDR_SIZE w =
    (Inr [(NFC_PERSIST_ID_NDEF, nfc_store_flags_for_persist_id NFC_PERSIST_ID_NDEF True, b)], w\<lparr>lw_ndef := l\<rparr>)"
  using assms by (simp add: ndef_store_service_def CONFIG_NFC_STORE_BLOB_SIZE_def)

lemma restore_ndef:
  "restore [Some ndef_store_service] [(NFC_PERSIST_ID_NDEF, b)] None w =
    (case ndef_listener_deserialize (Some b) (lw_ndef w) of
       (Inl e, l) \<Rightarrow> (Some e, w\<lparr>lw_ndef := l\<rparr>) | (Inr _, l) \<Rightarrow> (None, w\<lparr>lw_ndef := l\<rparr>))"
  by (simp add: nfc_store_find_service_def ndef_store_service_def split: prod.split sum.split)

lemma ndef_listener_serialize_small:
  assumes "ndef_listener_inv l" "ndef_listener_serialize (Some m) l = (Inr b, l')"
  shows "length b \<le> 518"
  using assms ndef_inv_sync [OF assms(1)]
  by (auto simp: ndef_listener_serialize_def Let_def ndef_serialize_def ndef_listener_inv_def ndef_data_ok_def ndef_sizes
      split: if_splits)


section \<open>Round trip\<close>

text \<open>What a save that succeeds stores, and that it fails only for want of a slot.\<close>

lemma nfc_stack_save_stores:
  assumes s: "stack_idle s" "ram_backed s" "short_tag t"
    and b: "ndef_listener_serialize (Some CONFIG_NFC_STORE_BLOB_SIZE) (lw_ndef (se_world (sk_env s))) = (Inr b, l)"
  shows "\<exists>st. nfc_stack_save crc (Some t) s =
    (let w1 = (se_world (sk_env s))\<lparr>lw_ndef := l\<rparr>;
         blob = card_blob crc [(NFC_PERSIST_ID_NDEF, nfc_store_flags_for_persist_id NFC_PERSIST_ID_NDEF True, b)] in
     case nfc_store_ram_save_cb t blob (slots_of s) of
       (Inl _, x) \<Rightarrow> (Inl EIO, s\<lparr>sk_env := (sk_env s)\<lparr>se_store := st, se_world := w1\<lparr>lw_ram := x\<rparr>\<rparr>\<rparr>)
     | (Inr _, x) \<Rightarrow> (Inr (), s\<lparr>
         sk_env := (sk_env s)\<lparr>se_store := st, se_world := w1\<lparr>lw_ram := x\<rparr>, se_active_tag := t\<rparr>,
         sk_stats := ks_save_count_update (\<lambda>n. n + 1) (sk_stats s)\<rparr>))"
proof -
  let ?s = "se_store (sk_env s)" and ?w = "se_world (sk_env s)"
  let ?blob = "card_blob crc [(NFC_PERSIST_ID_NDEF, nfc_store_flags_for_persist_id NFC_PERSIST_ID_NDEF True, b)]"
  note rd = idle_store(1) [OF s(1)]
  have tk: "tag_ok ?s t" and cb: "so_save_cb ?s = Some ram_save_cb"
    using s idle_tag_ok by (auto simp: ram_backed_def)
  have "length b \<le> 518"
    using ndef_listener_serialize_small [OF idle_store(3) [OF s(1)] b] .
  note c = collect_ndef [OF b this]
  obtain r x where x: "nfc_store_ram_save_cb t ?blob (slots_of s) = (r, x)" by fastforce
  from nfc_store_save_spec [OF rd tk cb, of crc "[Some ndef_store_service]" ?w] c x
  obtain st where "nfc_store_save crc False (Some t) [Some ndef_store_service] (?s, ?w) =
      (case r of Inl _ \<Rightarrow> Inl EIO | Inr _ \<Rightarrow> Inr (), (st, ?w\<lparr>lw_ndef := l, lw_ram := x\<rparr>))"
    by (cases r) (auto simp: ram_save_cb_def simp del: split_paired_Ex collect.simps)
  note eq = with_tag_idle [where op = "nfc_store_save crc False", OF s(1,3) this]
  show ?thesis
    unfolding nfc_stack_save_def eq Let_def x by (rule exI [of _ st]) (cases r; simp)
qed

lemma nfc_stack_load_stored:
  assumes s: "stack_idle s" "ram_backed s" "short_tag t"
    and b: "ram_map (slots_of s) t = Some (card_blob crc [(NFC_PERSIST_ID_NDEF, fl, b)])" "length b \<le> 518"
    and l: "ndef_listener_deserialize (Some b) (lw_ndef (se_world (sk_env s))) = (Inr (), l)"
  shows "\<exists>st. nfc_stack_load crc (Some t) s = (Inr (), s\<lparr>
    sk_env := (sk_env s)\<lparr>se_store := st, se_world := (se_world (sk_env s))\<lparr>lw_ndef := l\<rparr>, se_active_tag := t\<rparr>,
    sk_stats := ks_load_count_update (\<lambda>n. n + 1) (sk_stats s)\<rparr>)"
proof -
  let ?s = "se_store (sk_env s)" and ?w = "se_world (sk_env s)"
  have tk: "tag_ok ?s t" and cb: "so_load_cb ?s = Some ram_load_cb"
    using s idle_tag_ok by (auto simp: ram_backed_def)
  have "8 + length (card_payload [(NFC_PERSIST_ID_NDEF, fl, b)]) \<le> CONFIG_NFC_STORE_BLOB_SIZE"
    using b(2) by (simp add: card_payload_def CONFIG_NFC_STORE_BLOB_SIZE_def)
  from stack_ram.load_card_blob [OF idle_store(2) [OF s(1)] idle_store(1) [OF s(1)] tk cb b(1) this,
      of "[Some ndef_store_service]"]
  obtain st where "nfc_store_load crc False (Some t) [Some ndef_store_service] (?s, ?w) =
      (Inr (), (st, ?w\<lparr>lw_ndef := l\<rparr>))"
    by (auto simp: restore_ndef l simp del: split_paired_Ex restore.simps)
  note eq = with_tag_idle [where op = "nfc_store_load crc False", OF s(1,3) this]
  show ?thesis
    unfolding nfc_stack_load_def eq by (rule exI [of _ st]) simp
qed

section \<open>The backend over the life cycle\<close>

text \<open>What init and shutdown do to the store's callbacks.\<close>

definition backend_is :: "'h listen_world store_cfg \<Rightarrow> bool \<Rightarrow> 'h nfc_stack \<Rightarrow> bool" where
  "backend_is c r s \<longleftrightarrow> store_cfg (se_store (sk_env s)) = c \<and> sk_ram_ready s = r"

definition cfg_up :: "'h listen_world save_fn \<Rightarrow> 'h listen_world load_fn \<Rightarrow> 'h listen_world store_cfg" where
  "cfg_up sv ld = (INITIALIZED, of_nat CONFIG_NFC_STORE_MAX_TAG_LEN, Some sv, Some ld, Some nfc_store_default_commit)"

lemma backend_kept:
  "io_hoare (backend_is c r) (sk_on_asm f) (\<lambda>_. backend_is c r) (backend_is c r)"
  "io_hoare (backend_is c r) (sk_on_router g) (\<lambda>_. backend_is c r) (backend_is c r)"
  "io_hoare (backend_is c r) (sk_on_world h) (\<lambda>_. backend_is c r) (backend_is c r)"
  "io_hoare (backend_is c r) (sk_goto x) (\<lambda>_. backend_is c r) (backend_is c r)"
  by (auto simp: io_hoare_def sk_on_asm_def sk_on_router_def sk_on_world_def sk_goto_def io_simps backend_is_def
      split: prod.split sum.split)

lemma hoare_true: "io_hoare P m (\<lambda>_ _. True) (\<lambda>_. True)"
  by (simp add: io_hoare_def split: prod.split sum.split)

lemma hoare_any_error: "io_hoare P m Q E \<Longrightarrow> io_hoare P m Q (\<lambda>_. True)"
  by (erule io_hoare_weaken) simp_all

lemma keeps_ignore:
  assumes "io_keeps P m"
  shows "io_keeps P (ignore m)"
  using hoare_ignore [OF assms] by (rule hoare_no_fail)

lemma keeps_already_ok: "io_keeps P m \<Longrightarrow> io_keeps P (already_ok m)"
  unfolding already_ok_def by (rule io_hoare_case) (auto simp: io_hoare_def io_simps)

lemma fatal: "io_hoare P (io_bind m (\<lambda>_. k)) Q (\<lambda>_. True)" if "\<And>P. io_hoare P k Q (\<lambda>_. True)"
  by (rule io_hoare_bind [OF hoare_any_error [OF hoare_true] that])

lemma init_fails:
  "io_hoare P (init_fail e) Q (\<lambda>_. True)" "io_hoare P (init_fail_asm e) Q (\<lambda>_. True)"
  "io_hoare P (init_fail_router e) Q (\<lambda>_. True)" "io_hoare P (init_fail_store e) Q (\<lambda>_. True)"
  "io_hoare P (init_fail_transport H e) Q (\<lambda>_. True)" "io_hoare P (init_fail_listeners H e) Q (\<lambda>_. True)"
  unfolding init_fail_listeners_def init_fail_transport_def init_fail_store_def init_fail_router_def
    init_fail_asm_def init_fail_def
  by (intro fatal; simp add: io_hoare_def io_fail_def)+

lemma store_init_backend:
  "io_hoare (\<lambda>s. so_state (se_store (sk_env s)) = UNINITIALIZED \<and> sk_ram_ready s = r)
     (already_ok (sk_on_store (nfc_store_init None)))
     (\<lambda>_. backend_is (cfg_up nfc_store_default_save nfc_store_default_load) r) (\<lambda>_. True)"
  by (auto simp: io_hoare_def already_ok_def sk_on_store_def io_case_def io_simps nfc_store_init_def backend_is_def
      store_cfg_def cfg_up_def)

lemma ram_init_backend:
  "io_hoare (backend_is (cfg_up nfc_store_default_save nfc_store_default_load) r) sk_ram_init
     (\<lambda>_. backend_is (if r then cfg_up nfc_store_default_save nfc_store_default_load
        else cfg_up ram_save_cb ram_load_cb) True) (\<lambda>_. True)"
  unfolding io_hoare_def
proof (intro allI impI)
  fix s :: "'h nfc_stack"
  assume s: "backend_is (cfg_up nfc_store_default_save nfc_store_default_load) r s"
  then have "so_state (se_store (sk_env s)) = INITIALIZED" by (simp add: backend_is_def store_cfg_def cfg_up_def)
  with s show "case sk_ram_init s of (Inl _, s') \<Rightarrow> True | (Inr _, s') \<Rightarrow> backend_is
      (if r then cfg_up nfc_store_default_save nfc_store_default_load else cfg_up ram_save_cb ram_load_cb) True s'"
    by (cases r) (simp_all add: sk_ram_init_def nfc_store_ram_init_def nfc_store_init_def nfc_store_register_save_cb_def
        nfc_store_register_load_cb_def backend_is_def store_cfg_def cfg_up_def)
qed

lemma nfc_stack_init_backend:
  assumes "nfc_stack_init H cfg s = (Inr (), s')" "so_state (se_store (sk_env s)) = UNINITIALIZED"
  shows "backend_is (if sk_ram_ready s then cfg_up nfc_store_default_save nfc_store_default_load
      else cfg_up ram_save_cb ram_load_cb) True s'"
proof -
  let ?P = "\<lambda>t :: 'a nfc_stack. so_state (se_store (sk_env t)) = UNINITIALIZED \<and> sk_ram_ready t = sk_ram_ready s"
  let ?c = "if sk_ram_ready s then cfg_up nfc_store_default_save nfc_store_default_load else cfg_up ram_save_cb ram_load_cb"
  have asm: "io_hoare ?P (sk_on_asm f) (\<lambda>_. ?P) ?P" "io_hoare ?P (sk_on_router g) (\<lambda>_. ?P) ?P" for f g
    by (auto simp: io_hoare_def sk_on_asm_def sk_on_router_def split: prod.split sum.split)
  have "io_hoare ?P
      (io_case (sk_on_asm (apdu_assembler_init None)) init_fail (\<lambda>_.
        io_case (sk_on_router aid_router_init) init_fail_asm (\<lambda>_.
        io_case (already_ok (sk_on_store (nfc_store_init None))) init_fail_router (\<lambda>_.
        io_case sk_ram_init init_fail_store (\<lambda>_.
        io_case (already_ok (sk_on_world (on_hal (hal_init H)))) init_fail_store (\<lambda>_.
        io_case stack_init_protocol_listeners (init_fail_transport H) (\<lambda>_.
        io_case (sk_on_world (on_hal (hal_register_callbacks H))) (init_fail_listeners H) (\<lambda>_.
        io_case stack_register_listen_profiles (init_fail_listeners H) io_return))))))))
      (\<lambda>_. backend_is ?c True) (\<lambda>_. True)"
    unfolding stack_init_protocol_listeners_def stack_register_listen_profiles_def
    by (intro io_hoare_case [OF asm(1) init_fails(1)] io_hoare_case [OF asm(2) init_fails(2)]
        io_hoare_case [OF store_init_backend init_fails(3)] io_hoare_case [OF ram_init_backend init_fails(4)]
        io_hoare_case [OF keeps_already_ok [OF backend_kept(3)] init_fails(4)]
        io_hoare_case [OF keeps_already_ok [OF backend_kept(3)] init_fails(5)]
        io_hoare_case [OF backend_kept(3) init_fails(6)] io_hoare_case [OF backend_kept(2) init_fails(6)]
        io_hoare_basic(1))
  note body = io_hoareD(1) [OF this]
  from assms have st: "sk_state s = NFC_STACK_STATE_UNINITIALIZED"
    by (auto simp: nfc_stack_init_def split: if_splits)
  show ?thesis
    by (rule body [OF _ assms(1) [unfolded nfc_stack_init_def Let_def, simplified st, simplified]]) (use assms(2) in simp)
qed


lemma nfc_stack_shutdown_backend:
  assumes "nfc_stack_shutdown H s = (r, s')" "sk_state s \<noteq> NFC_STACK_STATE_UNINITIALIZED"
  shows "so_state (se_store (sk_env s')) = UNINITIALIZED \<and> sk_ram_ready s' = sk_ram_ready s"
proof -
  let ?P = "\<lambda>t :: 'a nfc_stack. sk_ram_ready t = sk_ram_ready s"
  let ?Q = "\<lambda>t. so_state (se_store (sk_env t)) = UNINITIALIZED \<and> sk_ram_ready t = sk_ram_ready s"
  have world: "io_keeps ?P (sk_on_world f)" "io_hoare ?P (sk_on_store nfc_store_shutdown) (\<lambda>_. ?Q) ?Q"
    "io_keeps ?Q (sk_on_asm g)" "io_keeps ?Q (sk_on_router h)" "io_keeps ?Q (sk_goto x)" for f :: "('a listen_world, 'b) io" and g h x
    by (auto simp: io_hoare_def sk_on_world_def sk_on_store_def sk_on_asm_def sk_on_router_def sk_goto_def io_simps
        nfc_store_shutdown_def split: prod.split sum.split)
  have stop: "sk_ram_ready (snd (nfc_stack_stop H t)) = sk_ram_ready t" for t
    by (auto simp: nfc_stack_stop_def io_case_def io_bind_def sk_on_world_def on_hal_def sk_goto_def sk_error_def
        sk_upd_stats_def io_simps split: prod.split sum.split)
  then have "io_keeps ?P (if sk_state s = NFC_STACK_STATE_STARTED then ignore (nfc_stack_stop H) else io_return ())"
    by (auto simp: io_hoare_def ignore_def io_simps)
  then have "io_hoare ?P
      (io_bind (if sk_state s = NFC_STACK_STATE_STARTED then ignore (nfc_stack_stop H) else io_return ()) (\<lambda>_.
        io_bind (sk_on_world (\<lambda>w. (Inr (), w\<lparr>lw_hal := hal_shutdown H (lw_hal w)\<rparr>))) (\<lambda>_.
        io_bind stack_shutdown_protocol_listeners (\<lambda>_.
        io_bind (ignore (sk_on_store nfc_store_shutdown)) (\<lambda>_.
        io_bind (ignore (sk_on_router aid_router_shutdown)) (\<lambda>_.
        io_bind (ignore (sk_on_asm apdu_assembler_shutdown)) (\<lambda>_.
        sk_goto NFC_STACK_STATE_UNINITIALIZED))))))) (\<lambda>_. ?Q) (\<lambda>_. True)"
    unfolding stack_shutdown_protocol_listeners_def
    by (rule io_hoare_bind [OF hoare_any_error])
      (intro io_hoare_bind [OF hoare_any_error [OF world(1)]] io_hoare_bind [OF hoare_any_error [OF keeps_ignore [OF world(1)]]]
        io_hoare_bind [OF hoare_any_error [OF hoare_ignore [OF world(2)]]]
        io_hoare_bind [OF hoare_any_error [OF keeps_ignore [OF world(4)]]]
        io_hoare_bind [OF hoare_any_error [OF keeps_ignore [OF world(3)]]] hoare_any_error [OF world(5)])
  note body = io_hoareD(1) [OF this]
  have r: "r = Inr ()"
    using assms by (auto simp: nfc_stack_shutdown_def io_bind_def ignore_def sk_on_world_def sk_goto_def
        stack_shutdown_protocol_listeners_def io_simps split: if_splits prod.splits sum.splits)
  show ?thesis
    using body [of s "()" s'] assms r by (simp add: nfc_stack_shutdown_def)
qed

lemma collect_ndef_cases:
  assumes "ndef_listener_inv (lw_ndef w)"
  shows "\<exists>w'. collect [Some ndef_store_service] NFC_STORE_BLOB_HDR_SIZE w = (Inl EIO, w') \<or>
    (\<exists>es. collect [Some ndef_store_service] NFC_STORE_BLOB_HDR_SIZE w = (Inr es, w'))"
proof -
  obtain r l where r: "ndef_listener_serialize (Some CONFIG_NFC_STORE_BLOB_SIZE) (lw_ndef w) = (r, l)" by fastforce
  show ?thesis
  proof (cases r)
    case (Inl e)
    with r show ?thesis by (simp add: ndef_store_service_def)
  next
    case (Inr b)
    with r have b: "ndef_listener_serialize (Some CONFIG_NFC_STORE_BLOB_SIZE) (lw_ndef w) = (Inr b, l)" by simp
    from collect_ndef [OF b ndef_listener_serialize_small [OF assms b]] show ?thesis by blast
  qed
qed

lemma default_backend_fails:
  assumes s: "stack_idle s" "backend_is (cfg_up nfc_store_default_save nfc_store_default_load) True s" "short_tag t"
  shows "fst (nfc_stack_save crc (Some t) s) = Inl EIO \<and> fst (nfc_stack_load crc (Some t) s) = Inl ENOENT"
proof -
  let ?s = "se_store (sk_env s)" and ?w = "se_world (sk_env s)" and ?svcs = "[Some ndef_store_service]"
  have cb: "so_save_cb ?s = Some nfc_store_default_save" "so_load_cb ?s = Some nfc_store_default_load"
    and tk: "tag_ok ?s t" and st: "so_state ?s = INITIALIZED"
    using s idle_tag_ok [of ?s t] by (auto simp: backend_is_def cfg_up_def store_cfg_def)
  obtain w' where "collect ?svcs NFC_STORE_BLOB_HDR_SIZE ?w = (Inl EIO, w') \<or>
      (\<exists>es. collect ?svcs NFC_STORE_BLOB_HDR_SIZE ?w = (Inr es, w'))"
    using collect_ndef_cases [OF idle_store(3) [OF s(1)]] by blast
  then have "\<exists>st. nfc_store_save crc False (Some t) ?svcs (?s, ?w) = (Inl EIO, (st, w'))"
    using nfc_store_save_spec [OF idle_store(1) [OF s(1)] tk cb(1), of crc ?svcs ?w]
    by (elim disjE exE) (auto simp: nfc_store_default_save_def io_simps simp del: collect.simps split_paired_Ex)
  then obtain st where "nfc_store_save crc False (Some t) ?svcs (?s, ?w) = (Inl EIO, (st, w'))" by blast
  note sv = with_tag_idle [where op = "nfc_store_save crc False", OF s(1,3) this]
  have "nfc_store_load crc False (Some t) ?svcs (?s, ?w) = (Inl ENOENT, (?s, ?w))"
    using tk st cb(2) by (simp add: nfc_store_load_def nfc_store_check_quiescent_def nfc_store_read_envelope_def io_simps
        io_bind_def io_case_def outside_def nfc_store_default_load_def)
  note ld = with_tag_idle [where op = "nfc_store_load crc False", OF s(1,3) this]
  show ?thesis unfolding nfc_stack_save_def nfc_stack_load_def sv ld by simp
qed

section \<open>A first start\<close>

text \<open>Init from boot with a HAL that does not fail.\<close>

lemma recording_init:
  "\<exists>s. nfc_stack_init recording_hal cfg (nfc_stack_boot h) = (Inr (), s) \<and> slots_of s = nfc_store_ram_boot \<and>
     lw_ndef (se_world (sk_env s)) = snd (ndef_listener_init None None ndef_listener_boot)"
proof -
  have st: "so_state nfc_store_boot = UNINITIALIZED" by (simp add: nfc_store_boot_def)
  have ni: "nl_initialized ndef_listener_boot = False" by (simp add: ndef_listener_boot_def)
  have li: "ndef_listener_init None None ndef_listener_boot = (Inr (), snd (ndef_listener_init None None ndef_listener_boot))"
    by (simp add: ndef_listener_init_def ni Let_def)
  define l where "l = snd (ndef_listener_init None None ndef_listener_boot)"
  have li: "ndef_listener_init None None ndef_listener_boot = (Inr (), l)"
    by (simp add: ndef_listener_init_def ni Let_def l_def)
  obtain r0 where r0: "aid_router_init (aid_router_boot :: listen_svc aid_router) = (Inr (), r0)" "r0 = snd (aid_router_init aid_router_boot)"
    by (simp add: aid_router_init_def aid_router_boot_def)
  have "router_inv r0" "rt_state r0 = INITIALIZED" "live_entries r0 = []"
    using r0 router_inv_init [OF router_inv_boot] by (simp_all add: aid_router_init_def aid_router_boot_def live_entries_def)
  from aidreg.register_ok [of r0 NDEF_AID SVC_NDEF] this
  obtain r1 where r1: "aid_router_register (Some NDEF_AID) (Some SVC_NDEF) r0 = (Inr (), r1)"
    by (auto simp: NDEF_AID_def CONFIG_NFC_ROUTER_MAX_AIDS_def)
  show ?thesis
    unfolding l_def [symmetric]
    by (simp add: nfc_stack_init_def nfc_stack_boot_def recording_hal_def Let_def io_case_def sk_on_asm_def
        apdu_assembler_init_def apdu_assembler_boot_def sk_on_router_def r0(1) already_ok_def sk_on_store_def
        nfc_store_init_def st sk_ram_init_def nfc_store_ram_init_def nfc_store_register_save_cb_def
        nfc_store_register_load_cb_def sk_on_world_def on_hal_def stack_init_protocol_listeners_def li
        stack_register_listen_profiles_def r1 io_simps)
qed

lemma fresh_listener:
  defines "l \<equiv> snd (ndef_listener_init None None ndef_listener_boot)"
  shows "nd_cc (nl_model l) = ndef_listener_build_cc True" "ndef_nlen (nl_model l) = 0" "nl_writable l"
proof -
  have z: "replicate 502 (0 :: u8) ! 1 = 0" "replicate 502 (0 :: u8) ! 0 = 0" by (rule nth_replicate; simp)+
  show "nd_cc (nl_model l) = ndef_listener_build_cc True" "nl_writable l"
    by (simp_all add: l_def ndef_listener_init_def ndef_listener_boot_def ndef_data_reset_def
        ndef_listener_pad_ndef_file_def Let_def)
  show "ndef_nlen (nl_model l) = 0"
    by (simp add: l_def ndef_listener_init_def ndef_listener_boot_def ndef_data_reset_def ndef_nlen_def be16_def
        ndef_listener_pad_ndef_file_def ndef_pad_file_def memset_at_def memcpy_at_def Let_def ndef_sizes z)
qed


text \<open>With such a HAL, init succeeds from every stack that is down.\<close>

lemma init_with_good_hal:
  assumes "stack_down s" "\<And>h. \<exists>h'. hal_init H h = (Inr (), h')" "\<And>h. \<exists>h'. hal_register_callbacks H h = (Inr (), h')"
  shows "\<exists>s'. nfc_stack_init H cfg s = (Inr (), s')"
proof -
  let ?F = "stack_facts NFC_STACK_STATE_INITIALIZED :: _ \<Rightarrow> _ \<Rightarrow> _ \<Rightarrow> _ \<Rightarrow> _ \<Rightarrow> _ \<Rightarrow> 'a nfc_stack \<Rightarrow> bool"
  have hal: "io_hoare (?F a rt m st rd nl) (sk_on_world (on_hal f)) (\<lambda>_. ?F a rt m st rd nl) (\<lambda>_. False)"
    "io_hoare (?F a rt m st rd nl) (already_ok (sk_on_world (on_hal f))) (\<lambda>_. ?F a rt m st rd nl) (\<lambda>_. False)"
    if f: "\<And>h. \<exists>h'. f h = (Inr (), h')" for f a rt m st rd nl
  proof -
    have "f h = (Inr (), snd (f h))" for h using f [of h] by auto
    then have f': "f = (\<lambda>h. (Inr (), snd (f h)))" by blast
    show "io_hoare (?F a rt m st rd nl) (sk_on_world (on_hal f)) (\<lambda>_. ?F a rt m st rd nl) (\<lambda>_. False)"
      "io_hoare (?F a rt m st rd nl) (already_ok (sk_on_world (on_hal f))) (\<lambda>_. ?F a rt m st rd nl) (\<lambda>_. False)"
      by (subst f', simp add: io_hoare_def sk_on_world_def on_hal_def already_ok_def io_case_def io_simps stack_facts_def)+
  qed
  have "io_hoare (?F UNINITIALIZED UNINITIALIZED Map.empty False False False)
      (io_case (sk_on_asm (apdu_assembler_init None)) init_fail (\<lambda>_.
        io_case (sk_on_router aid_router_init) init_fail_asm (\<lambda>_.
        io_case (already_ok (sk_on_store (nfc_store_init None))) init_fail_router (\<lambda>_.
        io_case sk_ram_init init_fail_store (\<lambda>_.
        io_case (already_ok (sk_on_world (on_hal (hal_init H)))) init_fail_store (\<lambda>_.
        io_case stack_init_protocol_listeners (init_fail_transport H) (\<lambda>_.
        io_case (sk_on_world (on_hal (hal_register_callbacks H))) (init_fail_listeners H) (\<lambda>_.
        io_case stack_register_listen_profiles (init_fail_listeners H) io_return))))))))
      (\<lambda>_ _. True) (\<lambda>_. False)"
    by (intro io_hoare_case [OF asm_steps(1) hoare_false] io_hoare_case [OF router_steps(1) hoare_false]
        io_hoare_case [OF store_steps_up(1) hoare_false] io_hoare_case [OF store_steps_up(3) hoare_false]
        io_hoare_case [OF hal(2) [OF assms(2)] hoare_false] io_hoare_case [OF listener_steps(1) hoare_false]
        io_hoare_case [OF hal(1) [OF assms(3)] hoare_false] io_hoare_case [OF register_steps hoare_false] io_hoare_basic(1))
      simp
  note init = io_hoareD(2) [OF this]
  have st: "sk_state s = NFC_STACK_STATE_UNINITIALIZED" using assms(1) by (simp add: stack_down_def stack_facts_def)
  have F: "?F UNINITIALIZED UNINITIALIZED Map.empty False False False (s\<lparr>sk_stats := nfc_stack_stats_zero,
      sk_default_profile := p, sk_state := NFC_STACK_STATE_INITIALIZED, sk_env := (sk_env s)\<lparr>se_active_tag := []\<rparr>\<rparr>)" for p
    using assms(1) by (simp add: stack_down_def stack_facts_def CONFIG_NFC_STORE_MAX_TAG_LEN_def)
  obtain r s' where r: "nfc_stack_init H cfg s = (r, s')" by fastforce
  show ?thesis
    using init [OF F] r st by (cases r) (auto simp: nfc_stack_init_def Let_def)
qed

lemma first_start:
  obtains s where "nfc_stack_init recording_hal None (nfc_stack_boot []) = (Inr (), s)" "stack_idle s" "ram_backed s"
    "slots_of s = nfc_store_ram_boot" "ndef_nlen (ndef_of s) = 0" "\<not> ndef_listener_cc_is_zero_placeholder (ndef_of s)"
    "nd_cc (ndef_of s) = ndef_listener_build_cc True"
proof -
  obtain s where s: "nfc_stack_init recording_hal None (nfc_stack_boot []) = (Inr (), s)"
    "slots_of s = nfc_store_ram_boot"
    "lw_ndef (se_world (sk_env s)) = snd (ndef_listener_init None None ndef_listener_boot)"
    using recording_init by blast
  have st: "so_state (se_store (sk_env (nfc_stack_boot ([] :: bytes list)))) = UNINITIALIZED"
    "\<not> sk_ram_ready (nfc_stack_boot ([] :: bytes list))"
    by (simp_all add: nfc_stack_boot_def nfc_store_boot_def)
  have "ram_backed s"
    using nfc_stack_init_backend [OF s(1) st(1)] st(2)
    by (simp add: backend_is_def ram_backed_def store_cfg_def cfg_up_def)
  moreover have "stack_down (nfc_stack_boot [])"
    using stack_inv_boot [of "[]"] by (simp add: stack_inv_def nfc_stack_boot_def)
  from nfc_stack_init_ok [OF this s(1)] have "stack_idle s"
    by (simp add: stack_idle_def) (simp add: stack_up_def stack_facts_def)
  moreover have "\<not> ndef_listener_cc_is_zero_placeholder (ndef_of s)"
    by (simp add: s(3) fresh_listener ndef_listener_cc_is_zero_placeholder_def ndef_listener_build_cc_def Let_def)
  ultimately show ?thesis
    using that s fresh_listener(1,2) by simp
qed

section \<open>Properties\<close>

text \<open>C3. A saved card comes back: if a save under a tag succeeds, then a later load of that tag, by any idle
  stack that sees the same slot, succeeds and restores the capability container, the NDEF length and the
  NDEF message.\<close>

theorem nfc_stack_save_load:
  assumes s: "stack_idle s" "ram_backed s" "short_tag t"
    and card: "ndef_nlen (ndef_of s) \<le> CONFIG_NFC_NDEF_MAX_SIZE" "\<not> ndef_listener_cc_is_zero_placeholder (ndef_of s)"
    and sv: "nfc_stack_save crc (Some t) s = (Inr (), s1)"
    and s2: "stack_idle s2" "ram_backed s2" "ram_map (slots_of s2) t = ram_map (slots_of s1) t"
  shows "\<exists>s3. nfc_stack_load crc (Some t) s2 = (Inr (), s3) \<and> nd_cc (ndef_of s3) = nd_cc (ndef_of s) \<and>
    ndef_nlen (ndef_of s3) = ndef_nlen (ndef_of s) \<and> ndef_message (ndef_of s3) = ndef_message (ndef_of s)"
proof -
  let ?l = "lw_ndef (se_world (sk_env s))"
  have "18 + ndef_nlen (ndef_of s) \<le> CONFIG_NFC_STORE_BLOB_SIZE"
    using card(1) by (simp add: ndef_sizes CONFIG_NFC_STORE_BLOB_SIZE_def)
  from ndef_listener_save_load [OF idle_store(3,4) [OF s(1)] card idle_store(4) [OF s2(1)] this]
  obtain b l t' where b: "ndef_listener_serialize (Some CONFIG_NFC_STORE_BLOB_SIZE) ?l = (Inr b, l)"
    and des: "ndef_listener_deserialize (Some b) (lw_ndef (se_world (sk_env s2))) = (Inr (), t')"
    and t': "nd_cc (nl_model t') = nd_cc (ndef_of s)" "ndef_nlen (nl_model t') = ndef_nlen (ndef_of s)"
      "ndef_message (nl_model t') = ndef_message (ndef_of s)"
    by blast
  have len: "length b \<le> 518"
    using ndef_listener_serialize_small [OF idle_store(3) [OF s(1)] b] .
  let ?blob = "card_blob crc [(NFC_PERSIST_ID_NDEF, nfc_store_flags_for_persist_id NFC_PERSIST_ID_NDEF True, b)]"
  obtain x where x: "nfc_store_ram_save_cb t ?blob (slots_of s) = (Inr (), x)" "slots_of s1 = x"
    using nfc_stack_save_stores [OF s b, of crc] sv
    by (cases "nfc_store_ram_save_cb t ?blob (slots_of s)"; cases "fst (nfc_store_ram_save_cb t ?blob (slots_of s))")
      (auto simp: Let_def)
  then have "ram_map (slots_of s2) t = Some ?blob"
    using ram_save_ok [OF idle_store(2) [OF s(1)] x(1)] s2(3) by simp
  from nfc_stack_load_stored [OF s2(1,2) s(3) this len des] t' show ?thesis by auto
qed



theorem nfc_stack_save_load_witness:
  "\<exists>s s1 (s2 :: bytes list nfc_stack) s3. nfc_stack_init recording_hal None (nfc_stack_boot []) = (Inr (), s) \<and>
     nfc_stack_save (\<lambda>_. 0) (Some ''card'') s = (Inr (), s1) \<and> slots_of s2 = slots_of s1 \<and>
     nfc_stack_load (\<lambda>_. 0) (Some ''card'') s2 = (Inr (), s3) \<and> nd_cc (ndef_of s3) = nd_cc (ndef_of s)"
proof -
  obtain s where s: "nfc_stack_init recording_hal None (nfc_stack_boot []) = (Inr (), s)" "stack_idle s" "ram_backed s"
    "slots_of s = nfc_store_ram_boot" "ndef_nlen (ndef_of s) = 0" "\<not> ndef_listener_cc_is_zero_placeholder (ndef_of s)"
    by (rule first_start)
  have tag: "short_tag ''card''" by (simp add: short_tag_def CONFIG_NFC_STORE_MAX_TAG_LEN_def)
  have nl: "ndef_nlen (ndef_of s) \<le> CONFIG_NFC_NDEF_MAX_SIZE" by (simp add: s(5))
  obtain b l where b: "ndef_listener_serialize (Some CONFIG_NFC_STORE_BLOB_SIZE) (lw_ndef (se_world (sk_env s))) = (Inr b, l)"
    using ndef_listener_save_load [OF idle_store(3,4) [OF s(2)] nl s(6) idle_store(4) [OF s(2)], of CONFIG_NFC_STORE_BLOB_SIZE] s(5)
    by (auto simp: CONFIG_NFC_STORE_BLOB_SIZE_def)
  let ?blob = "card_blob (\<lambda>_. 0) [(NFC_PERSIST_ID_NDEF, nfc_store_flags_for_persist_id NFC_PERSIST_ID_NDEF True, b)]"
  have "length ?blob \<le> CONFIG_NFC_STORE_BLOB_SIZE"
    using ndef_listener_serialize_small [OF idle_store(3) [OF s(2)] b] by (simp add: card_payload_def CONFIG_NFC_STORE_BLOB_SIZE_def)
  with ram_save_room [OF idle_store(2) [OF s(2)], of "''card''" ?blob] tag
  have "fst (nfc_store_ram_save_cb ''card'' ?blob (slots_of s)) = Inr ()"
    by (auto simp: s(4) short_tag_def nfc_store_ram_boot_def CONFIG_NFC_STORE_RAM_SLOT_COUNT_def)
  then obtain x where x: "nfc_store_ram_save_cb ''card'' ?blob (slots_of s) = (Inr (), x)"
    by (cases "nfc_store_ram_save_cb ''card'' ?blob (slots_of s)") simp
  then obtain s1 where s1: "nfc_stack_save (\<lambda>_. 0) (Some ''card'') s = (Inr (), s1)" "slots_of s1 = x"
    using nfc_stack_save_stores [OF s(2,3) tag b, of "\<lambda>_. 0"] by (auto simp: Let_def)
  let ?s2 = "s\<lparr>sk_env := (sk_env s)\<lparr>se_world := (se_world (sk_env s))\<lparr>lw_ram := x\<rparr>\<rparr>\<rparr>"
  have "stack_idle ?s2" "ram_backed ?s2"
    using s(2,3) ram_save_ok [OF idle_store(2) [OF s(2)] x]
    by (simp_all add: stack_idle_def ram_backed_def stack_up_def stack_facts_def)
  moreover have "ram_map (slots_of ?s2) ''card'' = ram_map (slots_of s1) ''card''" using s1 by simp
  ultimately obtain s3 where "nfc_stack_load (\<lambda>_. 0) (Some ''card'') ?s2 = (Inr (), s3)" "nd_cc (ndef_of s3) = nd_cc (ndef_of s)"
    using nfc_stack_save_load [OF s(2,3) tag nl s(6) s1(1)] by blast
  moreover have "slots_of ?s2 = slots_of s1" using s1 by simp
  ultimately show ?thesis using s(1) s1(1) by blast
qed

text \<open>C17. The RAM backend does not survive a restart of the stack: after a shutdown and a successful
  re-initialisation every save fails with EIO and every load with ENOENT, whatever is in the slots,
  because the backend's init is a no-op once it has run while the store's shutdown has reset the
  callbacks.\<close>

theorem nfc_stack_reinit_loses_backend:
  assumes "rtranclp (stack_step crc H) (nfc_stack_boot h) s" "sk_state s \<noteq> NFC_STACK_STATE_UNINITIALIZED"
    "nfc_stack_shutdown H s = (Inr (), s1)" "nfc_stack_init H cfg s1 = (Inr (), s2)" "short_tag t"
  shows "fst (nfc_stack_save crc (Some t) s2) = Inl EIO \<and> fst (nfc_stack_load crc (Some t) s2) = Inl ENOENT"
proof -
  note inv = stack_reachable_inv [OF assms(1)]
  have rd: "sk_ram_ready s"
    using stack_inv_cases(4) [OF inv assms(2)] by (simp add: stack_up_def stack_facts_def)
  from nfc_stack_shutdown_backend [OF assms(3,2)] rd
  have "so_state (se_store (sk_env s1)) = UNINITIALIZED" "sk_ram_ready s1" by simp_all
  with nfc_stack_init_backend [OF assms(4)]
  have b: "backend_is (cfg_up nfc_store_default_save nfc_store_default_load) True s2" by simp
  have "stack_down s1"
    using nfc_stack_shutdown_ok [OF inv, of H] assms(3) by auto
  from nfc_stack_init_ok [OF this assms(4)] have "stack_idle s2"
    by (simp add: stack_idle_def) (simp add: stack_up_def stack_facts_def)
  with b assms(5) show ?thesis by (intro default_backend_fails)
qed


theorem nfc_stack_reinit_loses_backend_witness:
  "\<exists>s s1 s2. nfc_stack_init recording_hal None (nfc_stack_boot []) = (Inr (), s) \<and>
     nfc_stack_shutdown recording_hal s = (Inr (), s1) \<and> nfc_stack_init recording_hal None s1 = (Inr (), s2) \<and>
     fst (nfc_stack_save (\<lambda>_. 0) (Some ''card'') s2) = Inl EIO"
proof -
  obtain s where s: "nfc_stack_init recording_hal None (nfc_stack_boot []) = (Inr (), s)" "stack_idle s"
    by (rule first_start)
  have "rtranclp (stack_step (\<lambda>_. 0) recording_hal) (nfc_stack_boot []) (snd (nfc_stack_init recording_hal None (nfc_stack_boot [])))"
    by (intro r_into_rtranclp stack_init)
  then have reach: "rtranclp (stack_step (\<lambda>_. 0) recording_hal) (nfc_stack_boot []) s" by (simp add: s(1))
  obtain s1 where s1: "nfc_stack_shutdown recording_hal s = (Inr (), s1)" "stack_down s1"
    using nfc_stack_shutdown_ok [OF stack_reachable_inv [OF reach]] by blast
  obtain s2 where s2: "nfc_stack_init recording_hal None s1 = (Inr (), s2)"
    using init_with_good_hal [OF s1(2), of recording_hal None] by (auto simp: recording_hal_def)
  have "fst (nfc_stack_save (\<lambda>_. 0) (Some ''card'') s2) = Inl EIO"
    using nfc_stack_reinit_loses_backend [OF reach _ s1(1) s2, of "''card''"] s(2)
    by (auto simp: stack_idle_def short_tag_def CONFIG_NFC_STORE_MAX_TAG_LEN_def)
  with s(1) s1(1) s2 show ?thesis by blast
qed

end
