(* ===== verification/Listen_Loopback.thy ===== *)
theory Listen_Loopback
  imports Listen_Cards
begin

text \<open>
  The two halves of the stack against each other: the reader of \<open>ndef_poller.c\<close> talks to the emulated
  card of the listen stack over a perfect field.  The listen stack is shown to keep the Type-4 contract
  of the poller, so the poller reads exactly the card that is emulated.
\<close>

section \<open>One exchange\<close>

text \<open>The reader's command is delivered as a frame; its answer is what the listen side hands to the HAL.\<close>

definition loopback :: "bytes \<Rightarrow> (bytes list nfc_stack, bytes) io" where
  "loopback tx s =
     (let s1 = s\<lparr>sk_env := (sk_env s)\<lparr>se_world := (se_world (sk_env s))\<lparr>lw_hal := []\<rparr>\<rparr>\<rparr>;
          s2 = fst (nfc_stack_on_apdu recording_hal (Some tx) s1) in
      case lw_hal (se_world (sk_env s2)) of [] \<Rightarrow> (Inl EIO, s2) | rsp # _ \<Rightarrow> (Inr rsp, s2))"

definition loop_sel :: "bytes list nfc_stack \<Rightarrow> ndef_file_sel option" where
  "loop_sel s = (case rt_active (sk_router s) of None \<Rightarrow> None | Some _ \<Rightarrow> Some (nl_file_sel (lw_ndef (se_world (sk_env s)))))"

definition loop_ok :: "bytes list nfc_stack \<Rightarrow> bool" where
  "loop_ok s \<longleftrightarrow> stack_up NFC_STACK_STATE_STARTED s"

lemma recording_send:
  "snd (stack_send_response recording_hal b e) = e\<lparr>se_world := (se_world e)\<lparr>lw_hal := lw_hal (se_world e) @ [b]\<rparr>\<rparr>"
  by (simp add: stack_send_response_def on_hal_def recording_hal_def)

text \<open>An exchange whose routing makes the listener do \<open>f\<close> and answer \<open>b\<close>.\<close>

lemma loopback_exchange:
  assumes ok: "loop_ok s" and p: "\<And>ext. apdu_parse (Some tx) ext = Inr a"
    and route: "route_spec ndef_route a (rt_active (sk_router s)) = (Some SVC_NDEF, [act])"
    and act: "\<And>e. run_action (stack_service recording_hal) (stack_send_response recording_hal) act e = on_ndef recording_hal f e"
    and f: "f (lw_ndef (se_world (sk_env s))) = (l, [Eff_Send b])"
  shows "\<exists>s'. loopback tx s = (Inr b, s') \<and> loop_ok s' \<and> rt_active (sk_router s') = Some SVC_NDEF \<and>
    lw_ndef (se_world (sk_env s')) = l"
proof -
  let ?s1 = "s\<lparr>sk_env := (sk_env s)\<lparr>se_world := (se_world (sk_env s))\<lparr>lw_hal := []\<rparr>\<rparr>\<rparr>"
  have up: "stack_up NFC_STACK_STATE_STARTED ?s1"
    using ok by (simp add: loop_ok_def stack_up_def stack_facts_def)
  then have fa: "fa_state (sk_asm ?s1) = INITIALIZED" and r: "router_inv (sk_router ?s1)"
    "rt_state (sk_router ?s1) = INITIALIZED" "aid_map (sk_router ?s1) = ndef_route"
    by (simp_all add: stack_up_def stack_facts_def)
  obtain r' e' where d: "aid_router_dispatch (stack_service recording_hal) (stack_send_response recording_hal) (Some a)
      (sk_router ?s1, sk_env ?s1) = (r', e')" by fastforce
  have fr: "apdu_in_frame a" using p [of False] by (rule apdu_parse_in_frame)
  have de: "rt_active r' = Some SVC_NDEF" "e' = on_ndef recording_hal f (sk_env ?s1)"
    using aid_router_dispatch_refines [OF r(1,2) fr, of "stack_service recording_hal" "stack_send_response recording_hal"
        "sk_env ?s1"] route act r(3) d by simp_all
  let ?s2 = "fst (nfc_stack_on_apdu recording_hal (Some tx) ?s1)"
  have s2: "sk_router ?s2 = r'" "sk_env ?s2 = e'" "sk_state ?s2 = NFC_STACK_STATE_STARTED"
    using fa p d up by (simp_all add: nfc_stack_on_apdu_def apdu_assembler_on_apdu_handler_def Let_def fa_upd_def
        stack_up_def stack_facts_def)
  have e': "lw_ndef (se_world e') = l" "lw_hal (se_world e') = [b]"
    using f by (simp_all add: de(2) on_ndef_def recording_send)
  have "stack_inv ?s2"
    using stack_inv_callbacks(3) stack_inv_cases(2) [OF up] by blast
  then have "loop_ok ?s2"
    using stack_inv_cases(4) [of ?s2] s2(3) by (simp add: loop_ok_def)
  then show ?thesis
    using s2 e' de(1) by (simp add: loopback_def Let_def)
qed


section \<open>The listen stack is a Type-4 tag\<close>

lemma sw_ok_bytes: "sw_bytes NFC_SW_OK = [0x90, 0x00]"
  by (simp add: sw_bytes_def hi8_def lo8_def)

lemma loop_select_app:
  assumes "loop_ok s"
  shows "\<exists>s'. loopback SELECT_APP_V2 s = (Inr [0x90, 0x00], s') \<and> loop_ok s' \<and>
    rt_active (sk_router s') = Some SVC_NDEF \<and>
    lw_ndef (se_world (sk_env s')) = (lw_ndef (se_world (sk_env s)))\<lparr>nl_file_sel := NDEF_FILE_NONE\<rparr>"
proof -
  let ?a = "\<lparr>apdu_cla = 0, apdu_ins = 0xA4, apdu_p1 = 4, apdu_p2 = 0, apdu_data = Some (NDEF_AID @ [0]),
    apdu_lc = of_nat (length NDEF_AID), apdu_le = ucast (0 :: u8), apdu_has_le = True, apdu_extended = False\<rparr>"
  have eq: "SELECT_APP_V2 = apdu_encode 0 0xA4 4 0 NDEF_AID (Some 0)"
    by (simp add: SELECT_APP_V2_def apdu_encode_def NDEF_AID_def lo8_def)
  have p: "apdu_parse (Some SELECT_APP_V2) ext = Inr ?a" for ext
    unfolding eq by (subst apdu_parse_short_body) (simp_all add: NDEF_AID_def)
  have rt: "route_spec ndef_route ?a c = (Some SVC_NDEF, [Act_Select SVC_NDEF NDEF_AID])" for c
    by (cases c) (simp_all add: route_spec_def apdu_is_select_by_aid_def apdu_body_def NDEF_AID_def, metis listen_svc.exhaust)
  have act: "run_action (stack_service recording_hal) send (Act_Select SVC_NDEF NDEF_AID) e =
      on_ndef recording_hal ndef_listener_on_select e" for send e
    by (simp add: stack_service_def call_opt_def)
  have sel: "ndef_listener_on_select l = (l\<lparr>nl_file_sel := NDEF_FILE_NONE\<rparr>, [Eff_Send [0x90, 0x00]])" for l
    by (simp add: ndef_listener_on_select_def ndef_listener_send_sw_def sw_ok_bytes del: One_nat_def)
  show ?thesis
    by (rule loopback_exchange [OF assms p rt act sel])
qed

text \<open>A command that is not a SELECT of an application goes to the selected listener.\<close>

lemma loop_command:
  assumes ok: "loop_ok s" and sel: "rt_active (sk_router s) = Some SVC_NDEF"
    and p: "\<And>ext. apdu_parse (Some tx) ext = Inr a" "\<not> apdu_is_select_by_aid a"
    and f: "ndef_listener_on_apdu (Some a) (lw_ndef (se_world (sk_env s))) = (l, [Eff_Send b])"
  shows "\<exists>s'. loopback tx s = (Inr b, s') \<and> loop_ok s' \<and> rt_active (sk_router s') = Some SVC_NDEF \<and>
    lw_ndef (se_world (sk_env s')) = l"
proof (rule loopback_exchange [where f = "ndef_listener_on_apdu (Some a)" and act = "Act_Deliver SVC_NDEF a", OF ok p(1) _ _ f])
  show "route_spec ndef_route a (rt_active (sk_router s)) = (Some SVC_NDEF, [Act_Deliver SVC_NDEF a])"
    using p(2) sel by (simp add: route_spec_def)
qed (simp add: stack_service_def call_opt_def)

lemma loop_select_file:
  assumes ok: "loop_ok s" and sel: "rt_active (sk_router s) = Some SVC_NDEF"
    and x: "(x = 0x03 \<and> f = NDEF_FILE_CC) \<or> (x = 0x04 \<and> f = NDEF_FILE_NDEF)"
  shows "\<exists>s'. loopback [0x00, 0xA4, 0x00, 0x0C, 0x02, 0xE1, x] s = (Inr [0x90, 0x00], s') \<and> loop_ok s' \<and>
    rt_active (sk_router s') = Some SVC_NDEF \<and>
    lw_ndef (se_world (sk_env s')) = (lw_ndef (se_world (sk_env s)))\<lparr>nl_file_sel := f\<rparr>"
proof -
  let ?a = "\<lparr>apdu_cla = 0, apdu_ins = 0xA4, apdu_p1 = 0, apdu_p2 = 0x0C, apdu_data = Some [0xE1, x],
    apdu_lc = 2, apdu_le = 0, apdu_has_le = False, apdu_extended = False\<rparr>"
  have "[0x00, 0xA4, 0x00, 0x0C, 0x02, 0xE1, x] = apdu_encode 0 0xA4 0 0x0C [0xE1, x] None"
    by (simp add: apdu_encode_def lo8_def)
  then have p: "apdu_parse (Some [0x00, 0xA4, 0x00, 0x0C, 0x02, 0xE1, x]) ext = Inr ?a" for ext
    by (simp add: apdu_parse_short_body)
  have "ndef_listener_on_apdu (Some ?a) l = (l\<lparr>nl_file_sel := f\<rparr>, [Eff_Send [0x90, 0x00]])" for l
    using x by (elim disjE) (simp_all add: ndef_listener_on_apdu_def ndef_listener_handle_select_file_def Let_def
        ndef_listener_select_p2_valid_def ndef_listener_send_sw_def sw_ok_bytes unat_be16)
  then show ?thesis
    by (intro loop_command [OF ok sel p]) (auto simp: apdu_is_select_by_aid_def)
qed

lemma loop_read_binary:
  assumes ok: "loop_ok s" and sel: "rt_active (sk_router s) = Some SVC_NDEF"
    and l: "l = lw_ndef (se_world (sk_env s))" "nl_file_sel l \<noteq> NDEF_FILE_NONE" and n: "0 < n" "n \<le> 253"
    and fl: "fl = (if nl_file_sel l = NDEF_FILE_CC then nd_cc (nl_model l) else nd_ndef_file (nl_model l))" "off + n \<le> length fl"
  shows "\<exists>s'. loopback [0x00, 0xB0, hi8 off, lo8 off, lo8 n] s = (Inr (sub_bytes off n fl @ [0x90, 0x00]), s') \<and> loop_ok s' \<and>
    rt_active (sk_router s') = Some SVC_NDEF \<and> lw_ndef (se_world (sk_env s')) = l"
proof -
  let ?a = "\<lparr>apdu_cla = 0, apdu_ins = 0xB0, apdu_p1 = hi8 off, apdu_p2 = lo8 off, apdu_data = None, apdu_lc = 0,
    apdu_le = ucast (lo8 n), apdu_has_le = True, apdu_extended = False\<rparr>"
  have "[0x00, 0xB0, hi8 off, lo8 off, lo8 n] = apdu_encode 0 0xB0 (hi8 off) (lo8 off) [] (Some (lo8 n))"
    by (simp add: apdu_encode_def)
  then have p: "apdu_parse (Some [0x00, 0xB0, hi8 off, lo8 off, lo8 n]) ext = Inr ?a" for ext
    by (simp add: apdu_parse_no_body)
  have inv: "ndef_data_ok (nl_model l)"
    using ok by (simp add: l loop_ok_def stack_up_def stack_facts_def ndef_listener_inv_def)
  then have len: "length fl = (if nl_file_sel l = NDEF_FILE_CC then NFC_NDEF_CC_LEN else NDEF_FILE_BUF_SIZE)"
    by (simp add: fl(1) ndef_data_ok_def)
  have off: "apdu_offset ?a = off"
    using fl(2) len by (intro apdu_offset_hi_lo) (auto simp: ndef_sizes split: if_splits)
  have le: "unat (apdu_le ?a) = n"
    using n by (simp add: unsigned_ucast_eq byte_simps)
  have "ndef_listener_handle_read_binary ?a l = (l, [Eff_Send (sub_bytes off n fl @ sw_bytes NFC_SW_OK)])"
    using ndef_read_binary_exact [of l ?a n] l(2) n fl len off le by simp
  then have "ndef_listener_on_apdu (Some ?a) l = (l, [Eff_Send (sub_bytes off n fl @ [0x90, 0x00])])"
    by (simp add: ndef_listener_on_apdu_def sw_ok_bytes [simplified])
  then show ?thesis
    by (intro loop_command [OF ok sel p]) (auto simp: apdu_is_select_by_aid_def l(1))
qed

lemma loop_sel_Some: "loop_sel s \<noteq> None \<longleftrightarrow> rt_active (sk_router s) = Some SVC_NDEF"
  by (cases "rt_active (sk_router s)") (auto simp: loop_sel_def split: listen_svc.split, metis listen_svc.exhaust)

interpretation stack_tag: type4_tag loopback loop_ok loop_sel "\<lambda>s. nd_cc (ndef_of s)" "\<lambda>s. nd_ndef_file (ndef_of s)"
proof (unfold_locales, goal_cases)
  case (1 t)
  from loop_select_app [OF this] show ?case by (auto simp: loop_sel_def)
next
  case (2 t)
  from 2(2) have "rt_active (sk_router t) = Some SVC_NDEF" by (rule loop_sel_Some [THEN iffD1])
  from loop_select_file [OF 2(1) this, of "0x03" NDEF_FILE_CC] show ?case by (auto simp: loop_sel_def SELECT_CC_def)
next
  case (3 t)
  from 3(2) have "rt_active (sk_router t) = Some SVC_NDEF" by (rule loop_sel_Some [THEN iffD1])
  from loop_select_file [OF 3(1) this, of "0x04" NDEF_FILE_NDEF] show ?case by (auto simp: loop_sel_def)
next
  case (4 t f n off)
  then have sel: "rt_active (sk_router t) = Some SVC_NDEF" by (metis loop_sel_Some option.distinct(1))
  with 4 have f: "nl_file_sel (lw_ndef (se_world (sk_env t))) = f" by (simp add: loop_sel_def)
  from loop_read_binary [OF 4(1) sel refl _ 4(4,5) refl, of off] 4 f sel show ?case
    by (auto simp: loop_sel_def)
next
  case (5 t)
  then show ?case by (simp add: loop_ok_def stack_up_def stack_facts_def ndef_listener_inv_def ndef_data_ok_def)
next
  case (6 t)
  then show ?case by (simp add: loop_ok_def stack_up_def stack_facts_def ndef_listener_inv_def ndef_data_ok_def ndef_sizes)
qed

section \<open>Properties\<close>

text \<open>C1. End to end: a reader in front of a started listen stack reads exactly the emulated card, its
  capability container and its NDEF message, whenever the card's own length field is valid and its
  capability container announces the NDEF file; reading does not change the card.\<close>

theorem poller_reads_emulated_card:
  assumes "stack_up NFC_STACK_STATE_STARTED t" "rs_active s"
    and "nd_cc (ndef_of t) ! 7 = 0x04" "nd_cc (ndef_of t) ! 9 = 0xE1" "nd_cc (ndef_of t) ! 10 = 0x04"
    and "ndef_nlen (ndef_of t) \<le> CONFIG_NFC_NDEF_MAX_SIZE"
  shows "\<exists>d t'. ndef_poller_read (\<lambda>tx _. loopback tx) (Some s) (d0, t) = (Inr (), (d, t')) \<and>
    ndef_consistent d \<and> nd_cc d = nd_cc (ndef_of t) \<and> ndef_message d = ndef_message (ndef_of t) \<and>
    nd_cc (ndef_of t') = nd_cc (ndef_of t) \<and> nd_ndef_file (ndef_of t') = nd_ndef_file (ndef_of t)"
proof -
  let ?n = "ndef_nlen (ndef_of t)" and ?f = "nd_ndef_file (ndef_of t)"
  have ok: "loop_ok t" using assms(1) by (simp add: loop_ok_def)
  have len: "length ?f = 502" "length (nd_cc (ndef_of t)) = 15"
    using assms(1) by (simp_all add: stack_up_def stack_facts_def ndef_listener_inv_def ndef_data_ok_def ndef_sizes)
  have n: "?n \<le> 500" "2 + ?n \<le> length ?f" using assms(6) len by (simp_all add: ndef_sizes)
  obtain d t' where run: "ndef_poller_read (\<lambda>tx _. loopback tx) (Some s) (d0, t) = (Inr (), (d, t'))"
    and d: "nd_cc d = nd_cc (ndef_of t)" "nd_cc_len d = NFC_NDEF_CC_LEN" "nd_ndef_file_len d = 2 + ?n"
      "nd_ndef_file d = take (2 + ?n) ?f @ replicate (CONFIG_NFC_NDEF_MAX_SIZE - ?n) 0"
    and t': "nd_cc (ndef_of t') = nd_cc (ndef_of t)" "nd_ndef_file (ndef_of t') = ?f"
    using stack_tag.ndef_poller_read_spec [OF ok assms(2-5), of ?n d0] assms(6) n(2) by (auto simp: ndef_nlen_def)
  have nd: "ndef_nlen d = ?n"
    using n by (intro ndef_nlen_take [OF d(4)]) simp_all
  moreover have "ndef_message d = ndef_message (ndef_of t)"
    unfolding ndef_message_def nd d(4) sub_bytes_def using n by (simp add: drop_take)
  moreover have "ndef_consistent d"
    using d nd n len by (simp add: ndef_consistent_def ndef_data_ok_def ndef_sizes)
  ultimately show ?thesis using run d t' by blast
qed


theorem poller_reads_emulated_card_witness:
  "\<exists>s t d t'. nfc_stack_init recording_hal None (nfc_stack_boot []) = (Inr (), s) \<and>
     nfc_stack_start recording_hal None s = (Inr (), t) \<and>
     ndef_poller_read (\<lambda>tx _. loopback tx) (Some (nfc_reader_session_zero\<lparr>rs_active := True\<rparr>)) (ndef_data_reset, t)
       = (Inr (), (d, t')) \<and> nd_cc d = ndef_listener_build_cc True"
proof -
  obtain s where s: "nfc_stack_init recording_hal None (nfc_stack_boot []) = (Inr (), s)" "stack_idle s"
    "ndef_nlen (ndef_of s) = 0" "nd_cc (ndef_of s) = ndef_listener_build_cc True"
    by (rule first_start)
  obtain t where t: "nfc_stack_start recording_hal None s = (Inr (), t)" "lw_ndef (se_world (sk_env t)) = lw_ndef (se_world (sk_env s))"
    using s(2) by (auto simp: nfc_stack_start_def stack_idle_def recording_hal_def io_case_def io_bind_def sk_goto_def
        sk_on_world_def on_hal_def sk_upd_stats_def io_simps)
  have "stack_up (sk_state s) s" using s(2) by (simp add: stack_idle_def)
  from io_hoareD(1) [OF start_body_ok this] have "stack_up NFC_STACK_STATE_STARTED t"
    using t(1) s(2) by (auto simp: nfc_stack_start_def stack_idle_def)
  moreover have "ndef_listener_build_cc True ! 7 = 0x04" "ndef_listener_build_cc True ! 9 = 0xE1" "ndef_listener_build_cc True ! 10 = 0x04"
    by (simp_all add: ndef_listener_build_cc_def Let_def)
  ultimately obtain d t' where "ndef_poller_read (\<lambda>tx _. loopback tx) (Some (nfc_reader_session_zero\<lparr>rs_active := True\<rparr>)) (ndef_data_reset, t)
       = (Inr (), (d, t'))" "nd_cc d = ndef_listener_build_cc True"
    using poller_reads_emulated_card [of t "nfc_reader_session_zero\<lparr>rs_active := True\<rparr>" ndef_data_reset] s t(2) by auto
  with s(1) t(1) show ?thesis by blast
qed

end
