(* ===== verification/Crypto1.thy ===== *)
theory Crypto1
  imports Nfc_Prelude
begin

text \<open>
  The Crypto1 stream cipher and the nonce generator of MIFARE Classic (\<open>protocols/classic/crypto1.c\<close>).
  The reader feeds its nonce in clear, byte by byte; the card feeds the encrypted nonce, as a word.
  Both are shown to reach the same cipher state, and the card is shown to recover the reader's answer.
\<close>

section \<open>Definitions\<close>

record crypto1 =
  cr_odd :: u32
  cr_even :: u32

definition LF_POLY_ODD :: u32 where "LF_POLY_ODD = 0x29CE5C"
definition LF_POLY_EVEN :: u32 where "LF_POLY_EVEN = 0x870804"

definition SWAPENDIAN :: "u32 \<Rightarrow> u32" where
  "SWAPENDIAN x = (let x = (drop_bit 8 x AND 0x00FF00FF) OR push_bit 8 (x AND 0x00FF00FF) in drop_bit 16 x OR push_bit 16 x)"

definition BEBIT :: "u32 \<Rightarrow> nat \<Rightarrow> u32" where
  "BEBIT x n = drop_bit (n XOR 24) x AND 1"

definition nfc_util_even_parity32 :: "u32 \<Rightarrow> u8" where
  "nfc_util_even_parity32 data =
     (let data = data XOR drop_bit 16 data; data = data XOR drop_bit 8 data in
      ucast (drop_bit (unat (data AND 0x0F)) (0x6996 :: u32) AND 1))"

definition crypto1_reset :: "crypto1 \<Rightarrow> crypto1" where
  "crypto1_reset c = c\<lparr>cr_odd := 0, cr_even := 0\<rparr>"

text \<open>The loop of \<open>crypto1_init\<close> runs over \<open>i = 47, 45, \<dots>, 1\<close>.\<close>

definition crypto1_init_step :: "u64 \<Rightarrow> nat \<Rightarrow> crypto1 \<Rightarrow> crypto1" where
  "crypto1_init_step key i c =
     \<lparr>cr_odd = push_bit 1 (cr_odd c) OR ucast (drop_bit ((i - 1) XOR 7) key AND 1),
      cr_even = push_bit 1 (cr_even c) OR ucast (drop_bit (i XOR 7) key AND 1)\<rparr>"

definition crypto1_init :: "u64 \<Rightarrow> crypto1" where
  "crypto1_init key = fold (crypto1_init_step key) (map (\<lambda>k. 47 - 2 * k) [0..<24]) \<lparr>cr_odd = 0, cr_even = 0\<rparr>"

definition crypto1_filter :: "u32 \<Rightarrow> u32" where
  "crypto1_filter inp =
     (let out = drop_bit (unat (inp AND 0xF)) 0xF22C0 AND 16;
          out = out OR (drop_bit (unat (drop_bit 4 inp AND 0xF)) 0x6C9C0 AND 8);
          out = out OR (drop_bit (unat (drop_bit 8 inp AND 0xF)) 0x3C8B0 AND 4);
          out = out OR (drop_bit (unat (drop_bit 12 inp AND 0xF)) 0x1E458 AND 2);
          out = out OR (drop_bit (unat (drop_bit 16 inp AND 0xF)) 0x0D938 AND (1 :: u32)) in
      drop_bit (unat out) 0xEC57E80A AND 1)"

definition crypto1_bit :: "u8 \<Rightarrow> bool \<Rightarrow> crypto1 \<Rightarrow> u8 \<times> crypto1" where
  "crypto1_bit inp is_encrypted c =
     (let out = ucast (crypto1_filter (cr_odd c));
          feed = ucast (out AND (if is_encrypted then 1 else 0));
          feed = feed XOR (if inp \<noteq> 0 then 1 else 0);
          feed = feed XOR (LF_POLY_ODD AND cr_odd c);
          feed = feed XOR (LF_POLY_EVEN AND cr_even c);
          even = push_bit 1 (cr_even c) OR ucast (nfc_util_even_parity32 feed) in
      (out, \<lparr>cr_odd = even, cr_even = cr_odd c\<rparr>))"

text \<open>The loops over the bits of a byte and of a word; \<open>i\<close> is the loop counter.\<close>

fun crypto1_bits :: "(nat \<Rightarrow> u8) \<Rightarrow> bool \<Rightarrow> nat list \<Rightarrow> crypto1 \<Rightarrow> u8 list \<times> crypto1" where
  "crypto1_bits f e [] c = ([], c)"
| "crypto1_bits f e (i # is) c =
     (let (o1, c1) = crypto1_bit (f i) e c; (os, c2) = crypto1_bits f e is c1 in (o1 # os, c2))"

definition crypto1_byte :: "u8 \<Rightarrow> bool \<Rightarrow> crypto1 \<Rightarrow> u8 \<times> crypto1" where
  "crypto1_byte inp e c =
     (let (os, c') = crypto1_bits (\<lambda>i. drop_bit i inp AND 1) e [0..<8] c in
      (fold (\<lambda>i out. out OR push_bit i (os ! i)) [0..<8] 0, c'))"

definition crypto1_word :: "u32 \<Rightarrow> bool \<Rightarrow> crypto1 \<Rightarrow> u32 \<times> crypto1" where
  "crypto1_word inp e c =
     (let (os, c') = crypto1_bits (\<lambda>i. ucast (BEBIT inp i)) e [0..<32] c in
      (fold (\<lambda>i out. out OR push_bit (24 XOR i) (ucast (os ! i))) [0..<32] 0, c'))"

definition prng_step :: "u32 \<Rightarrow> u32" where
  "prng_step x = drop_bit 1 x OR
     push_bit 31 (drop_bit 16 x XOR drop_bit 18 x XOR drop_bit 19 x XOR drop_bit 21 x)"

definition crypto1_prng_successor :: "u32 \<Rightarrow> nat \<Rightarrow> u32" where
  "crypto1_prng_successor x n = SWAPENDIAN ((prng_step ^^ n) (SWAPENDIAN x))"

text \<open>The loops over a message; the keystream argument of \<open>crypto1_encrypt\<close> may be NULL.\<close>

fun crypto1_decrypt :: "bytes \<Rightarrow> crypto1 \<Rightarrow> bytes \<times> crypto1" where
  "crypto1_decrypt [] c = ([], c)"
| "crypto1_decrypt (x # xs) c =
     (let (k, c1) = crypto1_byte 0 False c; (ys, c2) = crypto1_decrypt xs c1 in ((k XOR x) # ys, c2))"

fun crypto1_encrypt :: "bytes option \<Rightarrow> bytes \<Rightarrow> crypto1 \<Rightarrow> bytes \<times> crypto1" where
  "crypto1_encrypt ks [] c = ([], c)"
| "crypto1_encrypt ks (x # xs) c =
     (let (k, c1) = crypto1_byte (case ks of None \<Rightarrow> 0 | Some s \<Rightarrow> s ! 0) False c;
          (ys, c2) = crypto1_encrypt (map_option (drop 1) ks) xs c1 in ((k XOR x) # ys, c2))"

text \<open>The two loops of \<open>crypto1_encrypt_reader_nonce\<close>: the nonce, and the answer from the generator.\<close>

fun encrypt_nonce :: "bytes \<Rightarrow> crypto1 \<Rightarrow> bytes \<times> crypto1" where
  "encrypt_nonce [] c = ([], c)"
| "encrypt_nonce (x # xs) c =
     (let (k, c1) = crypto1_byte x False c; (ys, c2) = encrypt_nonce xs c1 in ((k XOR x) # ys, c2))"

fun encrypt_answer :: "nat \<Rightarrow> u32 \<Rightarrow> crypto1 \<Rightarrow> bytes \<times> crypto1" where
  "encrypt_answer 0 nt c = ([], c)"
| "encrypt_answer (Suc n) nt c =
     (let nt' = crypto1_prng_successor nt 8; (k, c1) = crypto1_byte 0 False c;
          (ys, c2) = encrypt_answer n nt' c1 in ((k XOR ucast nt') # ys, c2))"

definition crypto1_encrypt_reader_nonce :: "u64 \<Rightarrow> u32 \<Rightarrow> bytes \<Rightarrow> bytes \<Rightarrow> bytes \<times> crypto1" where
  "crypto1_encrypt_reader_nonce key cuid nt nr =
     (let nt_num = be32 nt; c = crypto1_init key; (_, c) = crypto1_word (nt_num XOR cuid) False c;
          (nr_enc, c) = encrypt_nonce (take 4 nr) c;
          (ar_enc, c) = encrypt_answer 4 (crypto1_prng_successor nt_num 32) c in (nr_enc @ ar_enc, c))"

definition classic_cuid_from_uid :: "bytes \<Rightarrow> u8 \<Rightarrow> u32" where
  "classic_cuid_from_uid uid uid_len = (if uid_len = 7 then be32 (drop 3 uid) else be32 uid)"


section \<open>Bits\<close>

lemma bit_fold_or:
  "bit (fold (\<lambda>i out. out OR g i) xs (a :: 'a :: len word)) j \<longleftrightarrow> bit a j \<or> (\<exists>i \<in> set xs. bit (g i) j)"
  by (induction xs arbitrary: a) (auto simp: bit_or_iff)

lemma and_one_of_bool: "(x :: 'a :: len word) AND 1 = of_bool (odd x)"
  by (simp add: and_one_eq mod_2_eq_odd)

lemma bit_of_shift: "drop_bit n (w :: 'a :: len word) AND 1 = of_bool (bit w n)"
  by (simp add: and_one_of_bool bit_iff_odd_drop_bit)

lemma crypto1_filter_bit: "\<exists>b. crypto1_filter x = of_bool b"
  unfolding crypto1_filter_def Let_def and_one_of_bool by blast

lemma crypto1_bit_out: "fst (crypto1_bit i e c) = of_bool (odd (crypto1_filter (cr_odd c)))"
proof -
  obtain b where "crypto1_filter (cr_odd c) = of_bool b" using crypto1_filter_bit by blast
  then show ?thesis by (cases b) (simp_all add: crypto1_bit_def Let_def)
qed

text \<open>Feeding an encrypted bit in decrypting mode is feeding the bit in clear.\<close>

lemma crypto1_bit_encrypted:
  "crypto1_bit (of_bool x XOR fst (crypto1_bit i e c)) True c = crypto1_bit (of_bool x) False c"
proof -
  have o1: "ucast (crypto1_filter (cr_odd c)) = (of_bool (odd (crypto1_filter (cr_odd c))) :: u8)"
    using crypto1_bit_out [of 0 False c] by (simp add: crypto1_bit_def Let_def)
  show ?thesis
    unfolding crypto1_bit_out crypto1_bit_def Let_def o1
    by (cases x; cases "odd (crypto1_filter (cr_odd c))") simp_all
qed

lemma crypto1_bits_append:
  "crypto1_bits f e (xs @ ys) c =
    (let (os, c1) = crypto1_bits f e xs c; (ps, c2) = crypto1_bits f e ys c1 in (os @ ps, c2))"
  by (induction xs arbitrary: c) (auto simp: Let_def split: prod.split)

lemma crypto1_bits_map: "crypto1_bits f e (map h xs) c = crypto1_bits (\<lambda>i. f (h i)) e xs c"
  by (induction xs arbitrary: c) (auto simp: Let_def split: prod.split)

lemma crypto1_bits_cong:
  "(\<And>i. i \<in> set xs \<Longrightarrow> f i = g i) \<Longrightarrow> crypto1_bits f e xs c = crypto1_bits g e xs c"
  by (induction xs arbitrary: c) auto

lemma crypto1_bits_length: "crypto1_bits f e xs c = (os, c') \<Longrightarrow> length os = length xs"
  by (induction xs arbitrary: c os c') (auto simp: Let_def split: prod.splits)

lemma crypto1_bits_out: "crypto1_bits f e xs c = (os, c') \<Longrightarrow> o1 \<in> set os \<Longrightarrow> \<exists>b. o1 = of_bool b"
proof (induction xs arbitrary: c os c')
  case (Cons x xs)
  obtain o2 c1 where b: "crypto1_bit (f x) e c = (o2, c1)" by fastforce
  then have "o2 = of_bool (odd (crypto1_filter (cr_odd c)))"
    using crypto1_bit_out [of "f x" e c] by simp
  then have o2: "\<exists>b. o2 = of_bool b" by blast
  obtain ps where ps: "crypto1_bits f e xs c1 = (ps, c')" "os = o2 # ps"
    using Cons.prems(1) b by (auto simp: Let_def split: prod.splits)
  have "o1 = o2 \<or> o1 \<in> set ps" using Cons.prems(2) ps(2) by simp
  then show ?case using o2 Cons.IH [OF ps(1)] by blast
qed simp

lemma crypto1_bits_encrypted:
  assumes "crypto1_bits (\<lambda>i. of_bool (f i)) False xs c = (os, c')" "distinct xs"
    "\<And>k. k < length xs \<Longrightarrow> g (xs ! k) = of_bool (f (xs ! k)) XOR os ! k"
  shows "crypto1_bits g True xs c = (os, c')"
  using assms
proof (induction xs arbitrary: c os)
  case (Cons x xs)
  obtain o1 c1 where b: "crypto1_bit (of_bool (f x)) False c = (o1, c1)" by fastforce
  obtain ps where ps: "crypto1_bits (\<lambda>i. of_bool (f i)) False xs c1 = (ps, c')" "os = o1 # ps"
    using Cons.prems(1) b by (auto simp: Let_def split: prod.splits)
  have "crypto1_bits g True xs c1 = (ps, c')"
  proof (rule Cons.IH [OF ps(1)])
    fix k assume "k < length xs"
    then show "g (xs ! k) = of_bool (f (xs ! k)) XOR ps ! k"
      using Cons.prems(3) [of "Suc k"] ps(2) by simp
  qed (use Cons.prems(2) in simp)
  moreover have "crypto1_bit (g x) True c = (o1, c1)"
    using Cons.prems(3) [of 0] ps(2) crypto1_bit_encrypted [of "f x" "of_bool (f x)" False c] b by simp
  ultimately show ?case using ps(2) by simp
qed simp

section \<open>Bytes\<close>

lemma crypto1_byte_bit:
  assumes "crypto1_bits f e [0..<8] c = (os, c')"
  shows "bit (fold (\<lambda>i out. out OR push_bit i (os ! i)) [0..<8] (0 :: u8)) j \<longleftrightarrow> j < 8 \<and> odd (os ! j)"
proof -
  have len: "length os = 8" using crypto1_bits_length [OF assms] by simp
  have b: "bit (push_bit i (os ! i)) j \<longleftrightarrow> i = j \<and> j < 8 \<and> odd (os ! j)" if i: "i < 8" for i
  proof -
    obtain v where "os ! i = of_bool v"
      using crypto1_bits_out [OF assms nth_mem] i len by auto
    then show ?thesis by (cases v) (auto simp: bit_exp_iff)
  qed
  show ?thesis by (auto simp: bit_fold_or b)
qed

text \<open>The card's decrypting feed of an encrypted byte.\<close>

lemma crypto1_byte_encrypted:
  assumes "crypto1_byte x False c = (k, c')"
  shows "crypto1_byte (k XOR x) True c = (k, c')"
proof -
  obtain os where os: "crypto1_bits (\<lambda>i. drop_bit i x AND 1) False [0..<8] c = (os, c')"
    and k: "k = fold (\<lambda>i out. out OR push_bit i (os ! i)) [0..<8] 0"
    using assms by (auto simp: crypto1_byte_def Let_def split: prod.splits)
  have len: "length os = 8" using crypto1_bits_length [OF os] by simp
  have "crypto1_bits (\<lambda>i. drop_bit i (k XOR x) AND 1) True [0..<8] c = (os, c')"
  proof (rule crypto1_bits_encrypted [where f = "\<lambda>i. bit x i"])
    show "crypto1_bits (\<lambda>i. of_bool (bit x i)) False [0..<8] c = (os, c')"
      using os by (simp add: bit_of_shift)
    fix n assume n: "n < length [0..<8 :: nat]"
    obtain v where v: "os ! n = of_bool v"
      using crypto1_bits_out [OF os nth_mem] n len by auto
    have "bit k n = v" unfolding k crypto1_byte_bit [OF os] using n v by simp
    then show "drop_bit ([0..<8] ! n) (k XOR x) AND 1 = of_bool (bit x ([0..<8] ! n)) XOR os ! n"
      unfolding bit_of_shift using n v by (cases v; cases "bit x n") (simp_all add: bit_xor_iff del: upt_Suc)
  qed simp
  with k show ?thesis by (simp add: crypto1_byte_def Let_def)
qed


section \<open>Words\<close>

fun crypto1_bytes :: "bytes \<Rightarrow> bool \<Rightarrow> crypto1 \<Rightarrow> bytes \<times> crypto1" where
  "crypto1_bytes [] e c = ([], c)"
| "crypto1_bytes (x # xs) e c =
     (let (k, c1) = crypto1_byte x e c; (ks, c2) = crypto1_bytes xs e c1 in (k # ks, c2))"

lemma xor_24:
  assumes "j < 8" "k < 4"
  shows "(8 * k + j) XOR 24 = 8 * (3 - k) + (j :: nat)"
proof -
  from assms have "j = 0 \<or> j = 1 \<or> j = 2 \<or> j = 3 \<or> j = 4 \<or> j = 5 \<or> j = 6 \<or> j = 7" "k = 0 \<or> k = 1 \<or> k = 2 \<or> k = 3"
    by linarith+
  then show ?thesis by (elim disjE) (simp_all del: add_2_eq_Suc')
qed

lemma xor_24_div: "p < 32 \<Longrightarrow> p XOR 24 = 8 * (3 - p div 8) + p mod (8 :: nat)"
  using xor_24 [of "p mod 8" "p div 8"] by simp

lemma upt_32: "[0..<32] = [0..<8] @ map ((+) 8) [0..<8] @ map ((+) 16) [0..<8] @ map ((+) (24 :: nat)) [0..<8]"
  by (simp add: upt_rec)

lemma bebit_byte:
  assumes "length b = 4" "k < 4" "j < 8"
  shows "ucast (BEBIT (be32 b) (8 * k + j)) = drop_bit j (b ! k) AND 1"
proof -
  have "8 * (3 - k) + j < 32" using assms by linarith
  then have "BEBIT (be32 b) (8 * k + j) = of_bool (bit (b ! k) j)"
    unfolding BEBIT_def xor_24 [OF assms(3,2)] bit_of_shift be32_bit [OF assms(1)] using assms by simp
  then show ?thesis unfolding bit_of_shift by (cases "bit (b ! k) j") simp_all
qed

lemma crypto1_word_bits:
  assumes "length b = 4" "k < 4"
  shows "crypto1_bits (\<lambda>i. ucast (BEBIT (be32 b) i)) e (map ((+) (8 * k)) [0..<8]) c =
    crypto1_bits (\<lambda>i. drop_bit i (b ! k) AND 1) e [0..<8] c"
  unfolding crypto1_bits_map using bebit_byte [OF assms] by (intro crypto1_bits_cong) simp

lemma crypto1_word_out:
  assumes "length os = 32" "\<And>o1. o1 \<in> set os \<Longrightarrow> \<exists>b. o1 = of_bool b"
  shows "bit (fold (\<lambda>i out. out OR push_bit (24 XOR i) (ucast (os ! i))) [0..<32] (0 :: u32)) p \<longleftrightarrow>
    p < 32 \<and> odd (os ! (p XOR 24) :: u8)"
proof -
  have inv: "24 XOR i = p \<longleftrightarrow> i = p XOR 24" for i :: nat
    by (metis xor.assoc xor.commute xor_self_eq xor.left_neutral)
  have lt: "i XOR 24 < 32" if "i < 32" for i :: nat
    using that by (simp add: xor_24_div)
  have b: "bit (push_bit (24 XOR i) (ucast (os ! i) :: u32)) p \<longleftrightarrow> i = p XOR 24 \<and> p < 32 \<and> odd (os ! i)" if i: "i < 32" for i
  proof -
    obtain v where "os ! i = of_bool v"
      using assms(2) [OF nth_mem] i assms(1) by auto
    then show ?thesis using inv [of i] by (cases v) (auto simp: bit_exp_iff)
  qed
  show ?thesis
    unfolding bit_fold_or using b lt [of p] by (auto simp del: upt_Suc)
qed

abbreviation gather8 :: "u8 list \<Rightarrow> u8" where
  "gather8 os \<equiv> fold (\<lambda>i out. out OR push_bit i (os ! i)) [0..<8] 0"

lemma crypto1_word_gather:
  assumes os: "crypto1_bits f0 e [0..<8] c0 = (o0, c1)" "crypto1_bits f1 e [0..<8] c1 = (o1, c2)"
    "crypto1_bits f2 e [0..<8] c2 = (o2, c3)" "crypto1_bits f3 e [0..<8] c3 = (o3, c4)"
  shows "fold (\<lambda>i out. out OR push_bit (24 XOR i) (ucast ((o0 @ o1 @ o2 @ o3) ! i))) [0..<32] (0 :: u32) =
    be32 [gather8 o0, gather8 o1, gather8 o2, gather8 o3]" (is "?w = be32 ?ks")
proof (rule bit_eq_lanesI)
  fix k j :: nat assume k: "k < 4" and j: "j < 8"
  let ?os = "o0 @ o1 @ o2 @ o3"
  have len: "length o0 = 8" "length o1 = 8" "length o2 = 8" "length o3 = 8"
    using crypto1_bits_length [OF os(1)] crypto1_bits_length [OF os(2)]
      crypto1_bits_length [OF os(3)] crypto1_bits_length [OF os(4)] by (simp_all only: length_upt)
  then have l: "length ?os = 32" "length ?ks = 4" by simp_all
  have out: "\<And>x. x \<in> set ?os \<Longrightarrow> \<exists>v. x = of_bool v"
    using crypto1_bits_out [OF os(1)] crypto1_bits_out [OF os(2)]
      crypto1_bits_out [OF os(3)] crypto1_bits_out [OF os(4)] by (auto simp only: set_append Un_iff)
  have p: "8 * k + j < 32" "(8 * k + j) div 8 = k" "(8 * k + j) mod 8 = j" using k j by auto
  have lhs: "bit ?w (8 * k + j) \<longleftrightarrow> odd (?os ! (8 * (3 - k) + j))"
    using crypto1_word_out [OF l(1) out, of "8 * k + j"] p unfolding xor_24_div [OF p(1)] p(2,3) by blast
  have rhs: "bit (be32 ?ks) (8 * k + j) \<longleftrightarrow> bit (?ks ! (3 - k)) j"
    using be32_bit [OF l(2), of "8 * k + j"] p(1) unfolding p(2,3) by blast
  have "k = 0 \<or> k = 1 \<or> k = 2 \<or> k = 3" using k by linarith
  moreover have "odd (?os ! (8 * (3 - k) + j)) \<longleftrightarrow> odd ([o0, o1, o2, o3] ! (3 - k) ! j)"
    using calculation j len by (elim disjE) (simp_all add: nth_append)
  moreover have "bit (?ks ! (3 - k)) j \<longleftrightarrow> odd ([o0, o1, o2, o3] ! (3 - k) ! j)"
    using calculation(1) j crypto1_byte_bit [OF os(1), of j] crypto1_byte_bit [OF os(2), of j]
      crypto1_byte_bit [OF os(3), of j] crypto1_byte_bit [OF os(4), of j]
    by (elim disjE) (simp_all del: upt_Suc upt_rec_numeral)
  ultimately show "bit ?w (8 * k + j) = bit (be32 ?ks) (8 * k + j)"
    unfolding lhs rhs by blast
qed

lemma crypto1_word_bytes:
  assumes "length b = 4" "crypto1_bytes b e c = (ks, c')"
  shows "crypto1_word (be32 b) e c = (be32 ks, c')"
proof -
  obtain b0 b1 b2 b3 where b: "b = [b0, b1, b2, b3]"
    using assms(1) by (auto simp: length_Suc_conv eval_nat_numeral)
  let ?f = "\<lambda>x i. drop_bit i x AND 1"
  obtain o0 c1 where o0: "crypto1_bits (?f b0) e [0..<8] c = (o0, c1)" by fastforce
  obtain o1 c2 where o1: "crypto1_bits (?f b1) e [0..<8] c1 = (o1, c2)" by fastforce
  obtain o2 c3 where o2: "crypto1_bits (?f b2) e [0..<8] c2 = (o2, c3)" by fastforce
  obtain o3 c4 where o3: "crypto1_bits (?f b3) e [0..<8] c3 = (o3, c4)" by fastforce
  note os = o0 o1 o2 o3
  have ks: "ks = [gather8 o0, gather8 o1, gather8 o2, gather8 o3]" "c' = c4"
    using assms(2) os by (auto simp: b crypto1_byte_def Let_def split: prod.splits simp del: upt_Suc)
  have "map ((+) (8 * 0)) [0..<8] = [0..<8 :: nat]" by (simp add: map_idI)
  then have "crypto1_bits (\<lambda>i. ucast (BEBIT (be32 b) i)) e [0..<32] c = (o0 @ o1 @ o2 @ o3, c4)"
    unfolding upt_32
    using crypto1_word_bits [OF assms(1), of 0 e c] crypto1_word_bits [OF assms(1), of 1 e c1]
      crypto1_word_bits [OF assms(1), of 2 e c2] crypto1_word_bits [OF assms(1), of 3 e c3] os
    by (simp add: crypto1_bits_append b del: upt_Suc upt_rec_numeral)
  then show ?thesis unfolding ks crypto1_word_gather [OF os, symmetric]
    by (simp add: crypto1_word_def Let_def del: upt_Suc upt_rec_numeral)
qed

section \<open>The nonce generator\<close>

lemma prng_step_bit: "i < 31 \<Longrightarrow> bit (prng_step x) i \<longleftrightarrow> bit x (Suc i)"
  by (simp add: prng_step_def bit_or_iff bit_drop_bit_eq bit_push_bit_iff bit_xor_iff)

lemma prng_steps_bit: "i + n < 32 \<Longrightarrow> bit ((prng_step ^^ n) x) i \<longleftrightarrow> bit x (i + n)"
proof (induction n arbitrary: i)
  case (Suc n)
  then show ?case using prng_step_bit [of i "(prng_step ^^ n) x"] by simp
qed simp

lemma mask_00FF00FF: "(0x00FF00FF :: u32) = mask 8 OR push_bit 16 (mask 8)"
  by (simp add: mask_eq_exp_minus_1)

lemma swapendian_bit_lane:
  assumes "k < 4" "i < 8"
  shows "bit (SWAPENDIAN x) (8 * k + i) \<longleftrightarrow> bit x (8 * (3 - k) + i)"
proof -
  define m where "m = (0x00FF00FF :: u32)"
  have m: "bit m j \<longleftrightarrow> j < 8 \<or> (16 \<le> j \<and> j < 24)" for j
    unfolding m_def mask_00FF00FF by (auto simp: bit_or_iff bit_push_bit_iff bit_mask_iff)
  from assms(1) have "k = 0 \<or> k = 1 \<or> k = 2 \<or> k = 3" by linarith
  then show ?thesis using assms(2) unfolding SWAPENDIAN_def m_def [symmetric] Let_def
    by (elim disjE) (simp_all add: bit_or_iff bit_and_iff bit_drop_bit_eq bit_push_bit_iff m add.commute)
qed

lemma swapendian_twice [simp]: "SWAPENDIAN (SWAPENDIAN x) = x"
  by (rule bit_eq_lanesI) (simp add: swapendian_bit_lane)

text \<open>The reader takes the low byte of the generator after 40, 48, 56 and 64 steps; together they are
  the word after 64 steps, which is what the card compares with.\<close>

lemma prng_successor_low:
  assumes "k < 4" "i < 8"
  shows "bit (ucast (crypto1_prng_successor x (64 - 8 * k)) :: u8) i \<longleftrightarrow>
    bit (crypto1_prng_successor x 64) (8 * k + i)"
proof -
  let ?y = "SWAPENDIAN x"
  have "(prng_step ^^ 64) ?y = (prng_step ^^ (8 * k)) ((prng_step ^^ (64 - 8 * k)) ?y)"
    using assms funpow_add [of "8 * k" "64 - 8 * k" prng_step] by (simp add: fun_eq_iff)
  then have "bit ((prng_step ^^ 64) ?y) (8 * (3 - k) + i) \<longleftrightarrow> bit ((prng_step ^^ (64 - 8 * k)) ?y) (24 + i)"
    using prng_steps_bit [of "8 * (3 - k) + i" "8 * k"] assms by (simp add: algebra_simps)
  then show ?thesis
    using assms swapendian_bit_lane [of 0 i] swapendian_bit_lane [of k i]
    by (simp add: crypto1_prng_successor_def bit_ucast_iff)
qed

lemma prng_successor_bytes:
  "be32 [ucast (crypto1_prng_successor x 40), ucast (crypto1_prng_successor x 48),
     ucast (crypto1_prng_successor x 56), ucast (crypto1_prng_successor x 64)] = crypto1_prng_successor x 64"
proof (rule bit_eq_lanesI)
  fix k i :: nat assume k: "k < 4" and i: "i < 8"
  have kd: "k = 0 \<or> k = 1 \<or> k = 2 \<or> k = 3" using k by linarith
  have "8 * k + i < 32" "(8 * k + i) div 8 = k" "(8 * k + i) mod 8 = i" using k i by auto
  then show "bit (be32 [ucast (crypto1_prng_successor x 40), ucast (crypto1_prng_successor x 48),
     ucast (crypto1_prng_successor x 56), ucast (crypto1_prng_successor x 64)]) (8 * k + i) = bit (crypto1_prng_successor x 64) (8 * k + i)"
    using prng_successor_low [OF k i, of x] kd by (elim disjE) (simp_all add: be32_bit)
qed

lemma prng_successor_add [simp]:
  "crypto1_prng_successor (crypto1_prng_successor x n) m = crypto1_prng_successor x (m + n)"
  by (simp add: crypto1_prng_successor_def funpow_add)

section \<open>Messages\<close>

lemma crypto1_decrypt_encrypt:
  "crypto1_encrypt None xs c = (ys, c') \<Longrightarrow> crypto1_decrypt ys c = (xs, c')"
  by (induction xs arbitrary: c ys) (auto simp: Let_def split: prod.splits)

lemma crypto1_encrypt_length: "crypto1_encrypt ks xs c = (ys, c') \<Longrightarrow> length ys = length xs"
  by (induction ks xs c arbitrary: ys c' rule: crypto1_encrypt.induct) (auto simp: Let_def split: prod.splits)

lemma crypto1_encrypt_state:
  "crypto1_encrypt None xs c = (ys, c') \<Longrightarrow> snd (crypto1_bytes (replicate (length xs) 0) False c) = c'"
  by (induction xs arbitrary: c ys) (force simp: Let_def split: prod.splits)+

section \<open>The authentication handshake\<close>

lemma encrypt_nonce_feeds:
  assumes "encrypt_nonce xs c = (ys, c')"
  shows "length ys = length xs \<and> (\<exists>ks. crypto1_bytes xs False c = (ks, c') \<and> crypto1_bytes ys True c = (ks, c'))"
  using assms
proof (induction xs arbitrary: c ys)
  case (Cons x xs)
  obtain k c1 zs where k: "crypto1_byte x False c = (k, c1)" "encrypt_nonce xs c1 = (zs, c')" "ys = (k XOR x) # zs"
    using Cons.prems by (auto simp: Let_def split: prod.splits)
  from Cons.IH [OF k(2)] crypto1_byte_encrypted [OF k(1)] k show ?case by auto
qed simp

lemma be32_xor:
  assumes "length a = 4" "length b = 4"
  shows "be32 (map2 (XOR) a b) = be32 a XOR be32 b"
proof (rule bit_word_eqI)
  fix j assume "j < LENGTH(32)"
  with assms show "bit (be32 (map2 (XOR) a b)) j = bit (be32 a XOR be32 b) j"
    by (simp add: be32_bit bit_xor_iff)
qed

lemma be32_zero [simp]: "be32 [0, 0, 0, 0] = 0"
  by (simp add: be32_def)

text \<open>The reader's answer decrypts, under the keystream of four zero bytes, to the generator after
  64 steps.\<close>

lemma encrypt_answer_word:
  assumes "encrypt_answer 4 (crypto1_prng_successor x 32) c = (ys, c')"
  shows "length ys = 4 \<and> (\<exists>k. crypto1_word 0 False c = (k, c') \<and> be32 ys XOR k = crypto1_prng_successor x 64)"
proof -
  let ?g = "[ucast (crypto1_prng_successor x 40), ucast (crypto1_prng_successor x 48),
     ucast (crypto1_prng_successor x 56), ucast (crypto1_prng_successor x 64)] :: u8 list"
  obtain ks where ks: "crypto1_bytes [0, 0, 0, 0] False c = (ks, c')" "ys = map2 (XOR) ks ?g" "length ks = 4"
    using assms by (auto simp: eval_nat_numeral Let_def split: prod.splits)
  have "crypto1_word 0 False c = (be32 ks, c')"
    using crypto1_word_bytes [OF _ ks(1)] by simp
  moreover have "be32 ys XOR be32 ks = be32 ?g"
    unfolding ks(2) using be32_xor [OF ks(3), of ?g] by (simp add: xor.assoc xor.commute xor.left_commute)
  ultimately show ?thesis using ks(2,3) prng_successor_bytes [of x] by simp
qed

text \<open>The card's side of the handshake (\<open>crypto1_word (nr, 1)\<close>, \<open>crypto1_word (0, 0)\<close>), on what the reader
  sends.\<close>

lemma crypto1_reader_nonce_accepted:
  assumes "length nr = 4" "crypto1_encrypt_reader_nonce key cuid nt nr = (tx, c)"
    and c0: "crypto1_word (be32 nt XOR cuid) False (crypto1_init key) = (w, c0)"
  shows "length tx = 8 \<and> (\<exists>k0 c1 k1. crypto1_word (be32 (take 4 tx)) True c0 = (k0, c1) \<and>
    crypto1_word 0 False c1 = (k1, c) \<and> be32 (drop 4 tx) XOR k1 = crypto1_prng_successor (be32 nt) 64)"
proof -
  obtain ys c1 zs where e: "encrypt_nonce nr c0 = (ys, c1)"
    "encrypt_answer 4 (crypto1_prng_successor (be32 nt) 32) c1 = (zs, c)" "tx = ys @ zs"
    using assms by (auto simp: crypto1_encrypt_reader_nonce_def Let_def split: prod.splits)
  obtain ks where "length ys = 4" "crypto1_bytes ys True c0 = (ks, c1)"
    using encrypt_nonce_feeds [OF e(1)] assms(1) by auto
  then show ?thesis
    using encrypt_answer_word [OF e(2)] crypto1_word_bytes [of ys True c0 ks c1] e(3) by simp
qed

section \<open>The parity of the feedback\<close>

lemma mask_0F: "(0x0F :: u32) = mask 4" "(0x0F0F0F0F :: u32) = mask 4 OR push_bit 8 (mask 4) OR push_bit 16 (mask 4) OR push_bit 24 (mask 4)"
  by (simp_all add: mask_eq_exp_minus_1)

text \<open>C40. The parity routine folds the word to a byte but looks up only the low half of it: it is the parity of the
  bits under the mask \<open>0x0F0F0F0F\<close>, and \<open>0x10\<close>, with one bit set, has parity 0.\<close>

theorem crypto1_parity_drops_nibbles:
  "nfc_util_even_parity32 data = nfc_util_even_parity32 (data AND 0x0F0F0F0F) \<and>
   nfc_util_even_parity32 0x10 = 0 \<and> odd (length (filter (bit (0x10 :: u32)) [0..<32]))"
proof (intro conjI)
  let ?f = "\<lambda>d :: u32. ((d XOR drop_bit 16 d) XOR drop_bit 8 (d XOR drop_bit 16 d)) AND 0x0F"
  define m where "m = (0x0F0F0F0F :: u32)"
  have f: "bit (?f d) j \<longleftrightarrow> j < 4 \<and> ((bit d j \<noteq> bit d (16 + j)) \<noteq> (bit d (8 + j) \<noteq> bit d (24 + j)))" for d j
    unfolding mask_0F(1) by (auto simp: bit_and_iff bit_xor_iff bit_drop_bit_eq bit_mask_iff)
  have m: "j < 4 \<Longrightarrow> bit m j" "j < 4 \<Longrightarrow> bit m (8 + j)" "j < 4 \<Longrightarrow> bit m (16 + j)" "j < 4 \<Longrightarrow> bit m (24 + j)" for j
    unfolding m_def mask_0F(2) by (simp_all add: bit_or_iff bit_push_bit_iff bit_mask_iff)
  have "?f data = ?f (data AND m)"
  proof (rule bit_word_eqI)
    fix n
    show "bit (?f data) n = bit (?f (data AND m)) n" unfolding f unfolding bit_and_iff using m by blast
  qed
  then show "nfc_util_even_parity32 data = nfc_util_even_parity32 (data AND 0x0F0F0F0F)"
    unfolding nfc_util_even_parity32_def Let_def m_def by (rule arg_cong)
  show "nfc_util_even_parity32 0x10 = 0" by (simp add: nfc_util_even_parity32_def)
  show "odd (length (filter (bit (0x10 :: u32)) [0..<32]))" by (simp add: upt_rec)
qed

end
