(* ===== verification/Classic_Model.thy ===== *)
theory Classic_Model
  imports Crypto1
begin

text \<open>
  The MIFARE Classic data model: the CRC of \<open>protocols/classic/iso14443_crc.c\<close>, the sector geometry of
  \<open>classic_i.c\<close>, and serialisation and comparison of \<open>classic.c\<close>.  A buffer with a length is the list of
  its valid bytes.  The type is kept as its byte, since \<open>classic_deserialize\<close> stores what it read before
  it checks it.
\<close>

section \<open>CRC-A\<close>

abbreviation (input) ISO14443_3A_CRC_INIT :: u16 where "ISO14443_3A_CRC_INIT \<equiv> 0x6363"
abbreviation (input) ISO14443_CRC_SIZE :: nat where "ISO14443_CRC_SIZE \<equiv> 2"

definition iso14443_crc_step :: "u8 \<Rightarrow> u16 \<Rightarrow> u16" where
  "iso14443_crc_step b crc =
     (let byte = b XOR ucast (crc AND 0xFF); byte = byte XOR push_bit 4 byte in
      drop_bit 8 crc XOR push_bit 8 (ucast byte) XOR push_bit 3 (ucast byte) XOR ucast (drop_bit 4 byte))"

definition iso14443_crc_a :: "bytes \<Rightarrow> u16" where
  "iso14443_crc_a data = fold iso14443_crc_step data ISO14443_3A_CRC_INIT"

definition iso14443_crc_append_a :: "bytes \<Rightarrow> bytes" where
  "iso14443_crc_append_a buf =
     (let crc = iso14443_crc_a buf in buf @ [ucast (crc AND 0xFF), ucast (drop_bit 8 crc AND 0xFF)])"

definition iso14443_crc_check_a :: "bytes \<Rightarrow> bool" where
  "iso14443_crc_check_a data \<longleftrightarrow>
     \<not> length data \<le> ISO14443_CRC_SIZE \<and>
     iso14443_crc_a (take (length data - ISO14443_CRC_SIZE) data) =
       le16 (data ! (length data - 2)) (data ! (length data - 1))"

definition iso14443_crc_trim_a :: "bytes \<Rightarrow> bytes" where
  "iso14443_crc_trim_a buf =
     (if ISO14443_CRC_SIZE \<le> length buf then take (length buf - ISO14443_CRC_SIZE) buf else buf)"

section \<open>Data\<close>

abbreviation (input) CLASSIC_FORMAT_VERSION :: u8 where "CLASSIC_FORMAT_VERSION \<equiv> 0x01"
abbreviation (input) CLASSIC_BLOCK_SIZE :: nat where "CLASSIC_BLOCK_SIZE \<equiv> 16"
abbreviation (input) CLASSIC_BLOCK_COUNT_MAX :: nat where "CLASSIC_BLOCK_COUNT_MAX \<equiv> 256"
abbreviation (input) CLASSIC_SECTOR_COUNT_MAX :: u8 where "CLASSIC_SECTOR_COUNT_MAX \<equiv> 40"
abbreviation (input) CLASSIC_KEY_SIZE :: nat where "CLASSIC_KEY_SIZE \<equiv> 6"
abbreviation (input) CLASSIC_BLOCK_MASK_WORDS :: nat where "CLASSIC_BLOCK_MASK_WORDS \<equiv> 8"
abbreviation (input) CLASSIC_BLOCKS_IN_MODEL :: nat where "CLASSIC_BLOCKS_IN_MODEL \<equiv> 256"
abbreviation (input) CLASSIC_TYPE_MINI :: u8 where "CLASSIC_TYPE_MINI \<equiv> 0"
abbreviation (input) CLASSIC_TYPE_1K :: u8 where "CLASSIC_TYPE_1K \<equiv> 1"
abbreviation (input) CLASSIC_TYPE_4K :: u8 where "CLASSIC_TYPE_4K \<equiv> 2"
abbreviation (input) CLASSIC_TYPE_UNKNOWN :: u8 where "CLASSIC_TYPE_UNKNOWN \<equiv> 0xFF"

record classic_data =
  cl_type :: u8
  cl_uid :: bytes
  cl_uid_len :: u8
  cl_sak :: u8
  cl_atqa :: bytes
  cl_block_read_mask :: "u32 list"
  cl_key_a_mask :: u64
  cl_key_b_mask :: u64
  cl_blocks :: "bytes list"

definition classic_data_reset :: classic_data where
  "classic_data_reset = \<lparr>cl_type = CLASSIC_TYPE_UNKNOWN, cl_uid = replicate 10 0, cl_uid_len = 0, cl_sak = 0,
     cl_atqa = replicate 2 0, cl_block_read_mask = replicate CLASSIC_BLOCK_MASK_WORDS 0,
     cl_key_a_mask = 0, cl_key_b_mask = 0,
     cl_blocks = replicate CLASSIC_BLOCKS_IN_MODEL (replicate CLASSIC_BLOCK_SIZE 0)\<rparr>"

section \<open>Geometry\<close>

definition classic_get_total_sectors :: "u8 \<Rightarrow> u8" where
  "classic_get_total_sectors type =
     (if type = CLASSIC_TYPE_MINI then 5 else if type = CLASSIC_TYPE_1K then 16
      else if type = CLASSIC_TYPE_4K then 40 else 0)"

definition classic_get_total_blocks :: "u8 \<Rightarrow> nat" where
  "classic_get_total_blocks type =
     (if type = CLASSIC_TYPE_MINI then 20 else if type = CLASSIC_TYPE_1K then 64
      else if type = CLASSIC_TYPE_4K then 256 else 0)"

definition classic_get_sector_by_block :: "u8 \<Rightarrow> u8" where
  "classic_get_sector_by_block block =
     (if block < 128 then (block OR 0x03) div 4 else 32 + ((block OR 0x0F) - 32 * 4) div 16)"

definition classic_is_sector_trailer :: "u8 \<Rightarrow> bool" where
  "classic_is_sector_trailer block \<longleftrightarrow>
     (if block < 128 then block AND 0x03 = 0x03 else block AND 0x0F = 0x0F)"

definition classic_get_first_block_of_sector :: "u8 \<Rightarrow> u8" where
  "classic_get_first_block_of_sector sector = (if sector < 32 then sector * 4 else 32 * 4 + (sector - 32) * 16)"

definition classic_get_blocks_in_sector :: "u8 \<Rightarrow> u8" where
  "classic_get_blocks_in_sector sector = (if sector < 32 then 4 else 16)"

definition classic_is_block_read :: "classic_data option \<Rightarrow> u8 \<Rightarrow> bool" where
  "classic_is_block_read data block = (case data of None \<Rightarrow> False
   | Some d \<Rightarrow> if CLASSIC_BLOCK_COUNT_MAX \<le> unat block then False
       else cl_block_read_mask d ! (unat block div 32) AND push_bit (unat block mod 32) 1 \<noteq> 0)"

definition classic_set_block_read :: "u8 \<Rightarrow> bytes \<Rightarrow> classic_data \<Rightarrow> classic_data" where
  "classic_set_block_read block block_data d =
     (if CLASSIC_BLOCK_COUNT_MAX \<le> unat block then d
      else d\<lparr>cl_blocks := (cl_blocks d)[unat block := take CLASSIC_BLOCK_SIZE block_data],
             cl_block_read_mask := (cl_block_read_mask d)[unat block div 32 :=
               cl_block_read_mask d ! (unat block div 32) OR push_bit (unat block mod 32) 1]\<rparr>)"

definition classic_is_key_found :: "classic_data option \<Rightarrow> u8 \<Rightarrow> bool \<Rightarrow> bool" where
  "classic_is_key_found data sector key_b = (case data of None \<Rightarrow> False
   | Some d \<Rightarrow> if CLASSIC_SECTOR_COUNT_MAX \<le> sector then False
       else (if key_b then cl_key_b_mask d else cl_key_a_mask d) AND push_bit (unat sector) 1 \<noteq> 0)"

definition classic_set_key_found :: "u8 \<Rightarrow> bool \<Rightarrow> u64 \<Rightarrow> classic_data \<Rightarrow> classic_data" where
  "classic_set_key_found sector key_b key d =
     (if CLASSIC_SECTOR_COUNT_MAX \<le> sector then d
      else if key_b then d\<lparr>cl_key_b_mask := cl_key_b_mask d OR push_bit (unat sector) 1\<rparr>
      else d\<lparr>cl_key_a_mask := cl_key_a_mask d OR push_bit (unat sector) 1\<rparr>)"

definition classic_type_from_name :: "string option \<Rightarrow> u8" where
  "classic_type_from_name name = (case name of None \<Rightarrow> CLASSIC_TYPE_UNKNOWN
   | Some n \<Rightarrow> if n = ''MINI'' then CLASSIC_TYPE_MINI else if n = ''1K'' then CLASSIC_TYPE_1K
       else if n = ''4K'' then CLASSIC_TYPE_4K else CLASSIC_TYPE_UNKNOWN)"

section \<open>Serialisation\<close>

text \<open>The little-endian loops: \<open>n\<close> bytes of a word, and a word from \<open>n\<close> bytes.\<close>

definition le_bytes :: "nat \<Rightarrow> 'a :: len word \<Rightarrow> bytes" where
  "le_bytes n w = map (\<lambda>i. ucast (drop_bit (8 * i) w AND 0xFF)) [0..<n]"

definition of_le_bytes :: "nat \<Rightarrow> bytes \<Rightarrow> 'a :: len word" where
  "of_le_bytes n b = fold (\<lambda>i w. w OR push_bit (8 * i) (ucast (b ! i))) [0..<n] 0"

definition classic_serial_len :: "classic_data \<Rightarrow> nat" where
  "classic_serial_len d = 1 + 1 + 1 + unat (cl_uid_len d) + 1 + 2 + 4 * CLASSIC_BLOCK_MASK_WORDS + 8 * 2 +
     classic_get_total_blocks (cl_type d) * CLASSIC_BLOCK_SIZE"

definition classic_serialize :: "classic_data option \<Rightarrow> nat option \<Rightarrow> bytes result" where
  "classic_serialize data out = (case (data, out) of
     (Some d, Some out_max) \<Rightarrow>
       if cl_type d = CLASSIC_TYPE_UNKNOWN \<or> cl_uid_len d = 0 then Inl EINVAL
       else let blocks_total = classic_get_total_blocks (cl_type d) in
         if blocks_total = 0 then Inl EINVAL
         else if out_max < classic_serial_len d then Inl ENOSPC
         else Inr ([CLASSIC_FORMAT_VERSION, cl_type d, cl_uid_len d] @ take (unat (cl_uid_len d)) (cl_uid d)
           @ [cl_sak d, cl_atqa d ! 0, cl_atqa d ! 1]
           @ concat (map (le_bytes 4) (take CLASSIC_BLOCK_MASK_WORDS (cl_block_read_mask d)))
           @ le_bytes 8 (cl_key_a_mask d) @ le_bytes 8 (cl_key_b_mask d)
           @ concat (map (take CLASSIC_BLOCK_SIZE) (take blocks_total (cl_blocks d))))
   | _ \<Rightarrow> Inl EINVAL)"

text \<open>The result holds what \<open>*data\<close> is afterwards, on the error paths too.\<close>

definition classic_deserialize :: "bytes option \<Rightarrow> classic_data \<Rightarrow> unit result \<times> classic_data" where
  "classic_deserialize inp d = (case inp of
     None \<Rightarrow> (Inl EINVAL, d)
   | Some i \<Rightarrow>
     let d0 = classic_data_reset in
     if length i < 4 then (Inl EBADMSG, d0)
     else if i ! 0 \<noteq> CLASSIC_FORMAT_VERSION then (Inl EBADMSG, d0)
     else let d1 = d0\<lparr>cl_type := i ! 1\<rparr> in
     if cl_type d1 = CLASSIC_TYPE_UNKNOWN \<or> CLASSIC_TYPE_4K < cl_type d1 then (Inl EBADMSG, d1)
     else let d2 = d1\<lparr>cl_uid_len := i ! 2\<rparr>; n = unat (i ! 2) in
     if n = 0 \<or> 10 < n then (Inl EBADMSG, d2)
     else if length i < 3 + n + 3 then (Inl EBADMSG, d2)
     else let d3 = d2\<lparr>cl_uid := memcpy_at (cl_uid d2) 0 (sub_bytes 3 n i),
                      cl_sak := i ! (3 + n), cl_atqa := [i ! (4 + n), i ! (5 + n)]\<rparr> in
     if length i < 6 + n + (4 * CLASSIC_BLOCK_MASK_WORDS + 8 * 2) then (Inl EBADMSG, d3)
     else let d4 = d3\<lparr>cl_block_read_mask :=
                        map (\<lambda>k. of_le_bytes 4 (drop (6 + n + 4 * k) i)) [0..<CLASSIC_BLOCK_MASK_WORDS],
                      cl_key_a_mask := of_le_bytes 8 (drop (38 + n) i),
                      cl_key_b_mask := of_le_bytes 8 (drop (46 + n) i)\<rparr>;
              blocks_total = classic_get_total_blocks (cl_type d4) in
     if CLASSIC_BLOCKS_IN_MODEL < blocks_total then (Inl ENOSPC, d4)
     else if length i \<noteq> 54 + n + blocks_total * CLASSIC_BLOCK_SIZE then (Inl EBADMSG, d4)
     else (Inr (), d4\<lparr>cl_blocks := memcpy_at (cl_blocks d4) 0
             (map (\<lambda>k. sub_bytes (54 + n + k * CLASSIC_BLOCK_SIZE) CLASSIC_BLOCK_SIZE i) [0..<blocks_total])\<rparr>))"

definition classic_compare :: "classic_data option \<Rightarrow> classic_data option \<Rightarrow> unit result" where
  "classic_compare expected actual = (case (expected, actual) of
     (Some e, Some a) \<Rightarrow>
       if cl_type e \<noteq> cl_type a then Inl EBADMSG
       else if cl_uid_len e \<noteq> cl_uid_len a then Inl EBADMSG
       else if take (unat (cl_uid_len e)) (cl_uid e) \<noteq> take (unat (cl_uid_len e)) (cl_uid a) then Inl EBADMSG
       else if cl_sak e \<noteq> cl_sak a \<or> cl_atqa e ! 0 \<noteq> cl_atqa a ! 0 \<or> cl_atqa e ! 1 \<noteq> cl_atqa a ! 1
       then Inl EBADMSG
       else if list_all (\<lambda>b. classic_is_block_read (Some a) (of_nat b) \<longrightarrow> cl_blocks e ! b = cl_blocks a ! b)
                 [0..<classic_get_total_blocks (cl_type a)]
       then Inr () else Inl EBADMSG
   | _ \<Rightarrow> Inl EINVAL)"

definition classic_serialize_cb :: "classic_data option \<Rightarrow> nat option \<Rightarrow> bytes result" where
  "classic_serialize_cb user_ctx out = classic_serialize user_ctx out"

definition classic_deserialize_cb :: "bytes option \<Rightarrow> classic_data option \<Rightarrow> unit result \<times> classic_data option" where
  "classic_deserialize_cb inp user_ctx = (case user_ctx of
     None \<Rightarrow> (Inl EINVAL, None)
   | Some d \<Rightarrow> (case classic_deserialize inp d of (r, d') \<Rightarrow> (r, Some d')))"

section \<open>The CRC\<close>

lemma xor_cancel [simp]:
  "a XOR b = a XOR c \<longleftrightarrow> b = c" "b XOR a = c XOR a \<longleftrightarrow> b = c" for a b c :: "'a :: len word"
proof -
  show *: "a XOR b = a XOR c \<longleftrightarrow> b = c" for a b c :: "'a word"
    by (metis xor.assoc xor.left_neutral xor_self_eq)
  show "b XOR a = c XOR a \<longleftrightarrow> b = c"
    using * [of a b c] by (simp add: xor.commute)
qed

lemma u16_halves_eqI:
  fixes c d :: u16
  assumes "drop_bit 8 c = drop_bit 8 d" "(ucast c :: u8) = ucast d"
  shows "c = d"
proof (rule bit_word_eqI)
  fix j assume "j < LENGTH(16)"
  then show "bit c j = bit d j"
    using arg_cong [OF assms(2), of "\<lambda>w. bit w j"] arg_cong [OF assms(1), of "\<lambda>w. bit w (j - 8)"]
    by (cases "j < 8") (auto simp: bit_ucast_iff bit_drop_bit_eq)
qed

text \<open>The byte a step spreads over the register, and its two injective stages.\<close>

lemma crc_nibbles_inj:
  fixes x y :: u8
  assumes "x XOR push_bit 4 x = y XOR push_bit 4 y"
  shows "x = y"
proof (rule u8_bits_eqI)
  fix j :: nat assume j: "j < 8"
  have b: "bit (x XOR push_bit 4 x) i = bit (y XOR push_bit 4 y) i" for i using assms by simp
  have low: "bit x i = bit y i" if "i < 4" for i
    using b [of i] that by (simp add: bit_xor_iff bit_push_bit_iff)
  show "bit x j = bit y j"
    using b [of j] low [of j] low [of "j - 4"] j by (cases "j < 4") (auto simp: bit_xor_iff bit_push_bit_iff)
qed

lemma iso14443_crc_step_spread:
  "iso14443_crc_step a c = (let x = a XOR ucast c; y = x XOR push_bit 4 x in
     drop_bit 8 c XOR push_bit 8 (ucast y) XOR push_bit 3 (ucast y) XOR ucast (drop_bit 4 y))"
  by (simp add: iso14443_crc_step_def Let_def)

lemma crc_step_high:
  assumes "drop_bit 8 (iso14443_crc_step a c) = drop_bit 8 (iso14443_crc_step b d)"
  shows "a XOR ucast c = b XOR ucast d"
proof -
  define x where "x = (a XOR ucast c) XOR push_bit 4 (a XOR ucast c)"
  define y where "y = (b XOR ucast d) XOR push_bit 4 (b XOR ucast d)"
  have bits: "bit (drop_bit 8 e XOR push_bit 8 (ucast z) XOR push_bit 3 (ucast z) XOR ucast (drop_bit 4 z)) (8 + i) \<longleftrightarrow>
      (bit z i \<noteq> (i < 3 \<and> bit z (5 + i)))" if "i < 8" for e :: u16 and z :: u8 and i
    using that by (auto simp: bit_xor_iff bit_drop_bit_eq bit_push_bit_iff bit_ucast_iff add.commute dest: bit_imp_le_length)
  have xy: "(bit x i \<noteq> (i < 3 \<and> bit x (5 + i))) = (bit y i \<noteq> (i < 3 \<and> bit y (5 + i)))" if "i < 8" for i
    using arg_cong [OF assms, of "\<lambda>w. bit w i"] bits [OF that, of c x] bits [OF that, of d y]
    unfolding iso14443_crc_step_spread Let_def x_def [symmetric] y_def [symmetric] bit_drop_bit_eq comp_def by simp
  have hi: "bit x i = bit y i" if "3 \<le> i" "i < 8" for i using xy [of i] that by simp
  have "x = y"
  proof (rule u8_bits_eqI)
    fix i :: nat assume "i < 8"
    then show "bit x i = bit y i" using xy [of i] hi [of i] hi [of "5 + i"] by (cases "i < 3") auto
  qed
  then show ?thesis unfolding x_def y_def by (rule crc_nibbles_inj)
qed

text \<open>A step loses nothing but the sum of the input with the low byte of the register.\<close>

lemma iso14443_crc_step_eq:
  "iso14443_crc_step a c = iso14443_crc_step b d \<longleftrightarrow> drop_bit 8 c = drop_bit 8 d \<and> a XOR ucast c = b XOR ucast d"
proof
  assume l: "iso14443_crc_step a c = iso14443_crc_step b d"
  then have x: "a XOR ucast c = b XOR ucast d" by (intro crc_step_high) simp
  with l show "drop_bit 8 c = drop_bit 8 d \<and> a XOR ucast c = b XOR ucast d"
    unfolding iso14443_crc_step_spread Let_def x by simp
qed (simp add: iso14443_crc_step_spread Let_def)

lemma crc_fold_inj: "fold iso14443_crc_step zs c = fold iso14443_crc_step zs d \<Longrightarrow> c = d"
proof (induction zs arbitrary: c d)
  case (Cons z zs)
  from Cons.IH [OF Cons.prems [simplified]] show ?case
    by (auto simp: iso14443_crc_step_eq intro: u16_halves_eqI)
qed simp

lemma crc_two_inj:
  assumes "iso14443_crc_step b (iso14443_crc_step a c) = iso14443_crc_step b' (iso14443_crc_step a' c)"
  shows "a = a' \<and> b = b'"
proof -
  have "a XOR ucast c = a' XOR ucast c"
    using assms unfolding iso14443_crc_step_eq [of b] by (intro crc_step_high) simp
  with assms show ?thesis by (simp add: iso14443_crc_step_eq)
qed

text \<open>The check is that the register is zero after the whole frame.\<close>

lemma crc_step_low: "iso14443_crc_step (ucast c) c = drop_bit 8 c"
  by (simp add: iso14443_crc_step_spread)

lemma crc_own_bytes: "iso14443_crc_step (ucast (drop_bit 8 c)) (iso14443_crc_step (ucast c) c) = 0" for c :: u16
proof -
  have "drop_bit 8 (drop_bit 8 c) = 0" by (rule bit_word_eqI) (simp add: bit_drop_bit_eq)
  then show ?thesis by (simp add: crc_step_low)
qed

lemma crc_zero_iff: "iso14443_crc_step b (iso14443_crc_step a c) = 0 \<longleftrightarrow> c = le16 a b"
  using crc_own_bytes [of c] crc_two_inj [of b a c "ucast (drop_bit 8 c)" "ucast c"] by (auto simp: le16_halves)

lemma iso14443_crc_check_iff:
  "iso14443_crc_check_a f \<longleftrightarrow> 2 < length f \<and> iso14443_crc_a f = 0"
proof (cases "2 < length f")
  case True
  then obtain g a b where f: "f = g @ [a, b]"
    by (cases f rule: rev_cases; cases "butlast f" rule: rev_cases) auto
  have "iso14443_crc_a f = iso14443_crc_step b (iso14443_crc_step a (iso14443_crc_a g))"
    by (simp add: f iso14443_crc_a_def)
  then show ?thesis
    using True by (simp add: iso14443_crc_check_a_def crc_zero_iff f nth_append)
qed (simp add: iso14443_crc_check_a_def)

lemma iso14443_crc_append_check: "f \<noteq> [] \<Longrightarrow> iso14443_crc_check_a (iso14443_crc_append_a f)"
  by (simp add: iso14443_crc_check_a_def iso14443_crc_append_a_def Let_def nth_append le16_halves)

lemma iso14443_crc_trim_append [simp]: "iso14443_crc_trim_a (iso14443_crc_append_a f) = f"
  by (simp add: iso14443_crc_trim_a_def iso14443_crc_append_a_def Let_def)

lemma iso14443_crc_append_length [simp]: "length (iso14443_crc_append_a f) = length f + 2"
  by (simp add: iso14443_crc_append_a_def Let_def)

text \<open>C38. The CRC of a Classic frame detects every error confined to two neighbouring bytes: two frames that
  both pass the check, and agree outside two neighbouring positions (the CRC bytes included), are equal.\<close>

theorem iso14443_crc_detects_burst:
  assumes "iso14443_crc_check_a (xs @ [a, b] @ ys)" "iso14443_crc_check_a (xs @ [a', b'] @ ys)"
  shows "a = a' \<and> b = b'"
proof -
  let ?c = "iso14443_crc_a xs"
  have "fold iso14443_crc_step ys (iso14443_crc_step b (iso14443_crc_step a ?c)) =
      fold iso14443_crc_step ys (iso14443_crc_step b' (iso14443_crc_step a' ?c))"
    using assms by (simp add: iso14443_crc_check_iff) (simp add: iso14443_crc_a_def)
  then show ?thesis by (intro crc_two_inj) (rule crc_fold_inj)
qed

theorem iso14443_crc_detects_burst_witness:
  "iso14443_crc_check_a (iso14443_crc_append_a [0x30, 0x04]) \<and>
   \<not> iso14443_crc_check_a ([0x30] @ [0x05, 0x27] @ [0xEE])"
proof -
  have f: "iso14443_crc_append_a [0x30, 0x04] = [0x30] @ [0x04, 0x26] @ [0xEE]"
    by (simp add: iso14443_crc_append_a_def iso14443_crc_a_def iso14443_crc_step_def)
  have ok: "iso14443_crc_check_a ([0x30] @ [0x04, 0x26] @ [0xEE])"
    using iso14443_crc_append_check [of "[0x30, 0x04]"] unfolding f by simp
  then show ?thesis
    using iso14443_crc_detects_burst [of "[0x30]" "0x04" "0x26" "[0xEE]" "0x05" "0x27"] unfolding f by auto
qed

section \<open>Geometry\<close>

lemma word_or_low: "(b OR 3) div 4 = b div (4 :: u8)" "(b OR 15) div 16 = b div (16 :: u8)"
proof -
  have "drop_bit 2 (b OR 3) = drop_bit 2 b" "drop_bit 4 (b OR 15) = drop_bit 4 b"
    by (simp_all add: drop_bit_or)
  then show "(b OR 3) div 4 = b div 4" "(b OR 15) div 16 = b div 16"
    by (simp_all add: drop_bit_eq_div)
qed

lemma unat_sector_by_block:
  "unat (classic_get_sector_by_block b) = (if unat b < 128 then unat b div 4 else 32 + (unat b - 128) div 16)"
proof (cases "b < 128")
  case True
  then show ?thesis
    by (simp add: classic_get_sector_by_block_def word_or_low word_less_nat_alt unat_div)
next
  case False
  then have b: "128 \<le> unat b" by (simp add: word_less_nat_alt)
  have "unat ((b OR 15) div 16) = unat b div 16" unfolding word_or_low by (simp add: unat_div)
  then have d: "unat (b OR 15) div 16 = unat b div 16" by (simp add: unat_div)
  then have "8 \<le> unat (b OR 15) div 16" using b by simp
  then have o: "128 \<le> unat (b OR 15)" by simp
  then have "unat ((b OR 15) - 128) = unat (b OR 15) - 128" by (simp add: unat_sub word_le_nat_alt)
  then have "unat (((b OR 15) - 128) div 16) = unat b div 16 - 8" using d o by (simp add: unat_div)
  moreover have "unat b div 16 - 8 = (unat b - 128) div 16" using b by simp
  moreover have "(unat b - 128) div 16 < 8" using unat_u8_lt [of b] by linarith
  ultimately show ?thesis using False b
    by (simp add: classic_get_sector_by_block_def unat_word_ariths word_less_nat_alt)
qed

lemma unat_first_block:
  assumes "unat s < 40"
  shows "unat (classic_get_first_block_of_sector s) = (if unat s < 32 then 4 * unat s else 128 + 16 * (unat s - 32))"
proof (cases "unat s < 32")
  case True
  then show ?thesis by (simp add: classic_get_first_block_of_sector_def word_less_nat_alt unat_word_ariths)
next
  case False
  then have "of_nat (128 + 16 * (unat s - 32)) = (32 * 4 + (s - 32) * 16 :: u8)"
    by (simp add: of_nat_diff algebra_simps)
  with False assms unat_of_nat [of "128 + 16 * (unat s - 32)", where 'a = 8] show ?thesis
    by (simp add: classic_get_first_block_of_sector_def word_less_nat_alt mult.commute)
qed

lemma unat_blocks_in_sector:
  "unat (classic_get_blocks_in_sector s) = (if unat s < 32 then 4 else 16)"
  by (simp add: classic_get_blocks_in_sector_def word_less_nat_alt)

lemma sector_trailer_iff:
  "classic_is_sector_trailer b \<longleftrightarrow> (if unat b < 128 then unat b mod 4 = 3 else unat b mod 16 = 15)"
proof -
  have 3: "(3 :: u8) = mask 2" "(15 :: u8) = mask 4" by (simp_all add: mask_eq_exp_minus_1)
  have "b AND 3 = take_bit 2 b" "b AND 15 = take_bit 4 b" unfolding 3 by (simp_all add: take_bit_eq_mask)
  then have "unat (b AND 3) = unat b mod 4" "unat (b AND 15) = unat b mod 16"
    by (simp_all add: take_bit_eq_mod unat_mod)
  then show ?thesis
    by (simp add: classic_is_sector_trailer_def word_less_nat_alt word_unat_eq_iff)
qed

lemma unat_total_sectors:
  "unat (classic_get_total_sectors t) = (if t = 0 then 5 else if t = 1 then 16 else if t = 2 then 40 else 0)"
  by (simp add: classic_get_total_sectors_def)

lemma geometry_low:
  fixes n :: nat assumes "n < 128"
  shows "4 * (n div 4) \<le> n" "n < 4 * (n div 4) + 4" "n mod 4 = 3 \<longleftrightarrow> n = 4 * (n div 4) + 3"
    "n div 4 < 32" "n < 20 \<longleftrightarrow> n div 4 < 5" "n < 64 \<longleftrightarrow> n div 4 < 16"
  using assms by presburger+

lemma geometry_high:
  fixes n :: nat assumes "n < 256" "\<not> n < 128"
  shows "128 + 16 * ((n - 128) div 16) \<le> n" "n < 144 + 16 * ((n - 128) div 16)"
    "n mod 16 = 15 \<longleftrightarrow> n = 143 + 16 * ((n - 128) div 16)" "(n - 128) div 16 < 8"
  using assms by presburger+

lemma unat_sector_lt: "unat (classic_get_sector_by_block b) < 40"
  using geometry_low(4) [of "unat b"] geometry_high(4) [of "unat b"] by (auto simp: unat_sector_by_block)

text \<open>The sector geometry is consistent: every block lies in the range of its sector, the sector trailer is the
  last block of that range, and a block is on a card of a given type exactly if its sector is.\<close>

theorem classic_geometry:
  "unat (classic_get_first_block_of_sector (classic_get_sector_by_block b)) \<le> unat b \<and>
   unat b < unat (classic_get_first_block_of_sector (classic_get_sector_by_block b))
              + unat (classic_get_blocks_in_sector (classic_get_sector_by_block b)) \<and>
   (classic_is_sector_trailer b \<longleftrightarrow>
      unat b = unat (classic_get_first_block_of_sector (classic_get_sector_by_block b))
                 + unat (classic_get_blocks_in_sector (classic_get_sector_by_block b)) - 1) \<and>
   (unat b < classic_get_total_blocks t \<longleftrightarrow> classic_get_sector_by_block b < classic_get_total_sectors t)"
proof (cases "unat b < 128")
  case True
  note g = geometry_low [OF this]
  show ?thesis
    unfolding unat_first_block [OF unat_sector_lt] unat_blocks_in_sector unat_sector_by_block sector_trailer_iff
      word_less_nat_alt unat_total_sectors classic_get_total_blocks_def
    using True g by auto
next
  case False
  note g = geometry_high [OF unat_u8_lt this]
  show ?thesis
    unfolding unat_first_block [OF unat_sector_lt] unat_blocks_in_sector unat_sector_by_block sector_trailer_iff
      word_less_nat_alt unat_total_sectors classic_get_total_blocks_def
    using False g by auto
qed

section \<open>Serialisation\<close>

text \<open>The shape of the C structure, and a card that can be serialised.\<close>

definition classic_ok :: "classic_data \<Rightarrow> bool" where
  "classic_ok d \<longleftrightarrow> length (cl_uid d) = 10 \<and> length (cl_atqa d) = 2 \<and>
     length (cl_block_read_mask d) = CLASSIC_BLOCK_MASK_WORDS \<and> length (cl_blocks d) = CLASSIC_BLOCKS_IN_MODEL \<and>
     list_all (\<lambda>b. length b = CLASSIC_BLOCK_SIZE) (cl_blocks d)"

definition classic_card :: "classic_data \<Rightarrow> bool" where
  "classic_card d \<longleftrightarrow> classic_ok d \<and> cl_type d \<le> CLASSIC_TYPE_4K \<and> 0 < unat (cl_uid_len d) \<and> unat (cl_uid_len d) \<le> 10"

text \<open>What a card keeps through its serialisation: the rest of the UID field and of the blocks is cleared.\<close>

definition classic_trim :: "classic_data \<Rightarrow> classic_data" where
  "classic_trim d = (let n = unat (cl_uid_len d); t = classic_get_total_blocks (cl_type d) in
     d\<lparr>cl_uid := take n (cl_uid d) @ replicate (10 - n) 0,
       cl_blocks := take t (cl_blocks d) @ replicate (CLASSIC_BLOCKS_IN_MODEL - t) (replicate CLASSIC_BLOCK_SIZE 0)\<rparr>)"

lemma classic_reset_ok [simp]: "classic_ok classic_data_reset"
  by (simp add: classic_ok_def classic_data_reset_def list_all_iff)

lemma length_le_bytes [simp]: "length (le_bytes n w) = n"
  by (simp add: le_bytes_def)

lemma of_le_bytes_le_bytes:
  assumes "LENGTH('a) = 8 * n"
  shows "of_le_bytes n (le_bytes n w @ r) = (w :: 'a :: len word)"
proof (rule bit_word_eqI)
  fix j assume j: "j < LENGTH('a)"
  have m: "(255 :: 'a word) = mask 8"
    by (simp add: mask_eq_exp_minus_1)
  have x: "bit (le_bytes n w ! i) q \<longleftrightarrow> q < 8 \<and> bit w (8 * i + q)" if "i < n" for i q
    using that unfolding le_bytes_def m by (auto simp: bit_ucast_iff bit_and_iff bit_drop_bit_eq bit_mask_iff dest: bit_imp_le_length)
  have b: "bit (push_bit (8 * i) (ucast ((le_bytes n w @ r) ! i) :: 'a word)) j \<longleftrightarrow> i = j div 8 \<and> bit w j"
    if i: "i < n" for i
  proof -
    have "bit (push_bit (8 * i) (ucast ((le_bytes n w @ r) ! i) :: 'a word)) j \<longleftrightarrow>
        8 * i \<le> j \<and> j - 8 * i < 8 \<and> bit w (8 * i + (j - 8 * i))"
      using i j x [OF i, of "j - 8 * i"] by (auto simp: nth_append bit_push_bit_iff bit_ucast_iff)
    moreover have "8 * i \<le> j \<and> j - 8 * i < 8 \<longleftrightarrow> i = j div 8" by auto
    ultimately show ?thesis by auto
  qed
  have "j div 8 < n" using j assms by auto
  then show "bit (of_le_bytes n (le_bytes n w @ r) :: 'a word) j = bit w j"
    by (auto simp: of_le_bytes_def bit_fold_or b)
qed

text \<open>A field at a known offset of a concatenation.\<close>

lemma drop_field: "length p = n \<Longrightarrow> drop (n + k) (p @ q) = drop k q"
  by simp

lemma of_le_masks:
  assumes "length ms = 8" "k < 8"
  shows "of_le_bytes 4 (drop (4 * k) (concat (map (le_bytes 4) ms) @ r)) = (ms ! k :: u32)"
proof -
  have l: "list_all (\<lambda>x. length x = 4) (map (le_bytes 4) ms)" by (simp add: list_all_iff)
  have "drop (4 * k) (concat (map (le_bytes 4) ms) @ r) = concat (drop k (map (le_bytes 4) ms)) @ r"
    using drop_concat_eq [OF l, of k] length_concat_eq [OF l] assms by simp
  also have "drop k (map (le_bytes 4) ms) = le_bytes 4 (ms ! k) # drop (Suc k) (map (le_bytes 4) ms)"
    using Cons_nth_drop_Suc [of k "map (le_bytes 4) ms"] assms by simp
  finally show ?thesis by (simp add: of_le_bytes_le_bytes)
qed

definition classic_blob :: "classic_data \<Rightarrow> bytes" where
  "classic_blob d = ([CLASSIC_FORMAT_VERSION, cl_type d, cl_uid_len d] @ take (unat (cl_uid_len d)) (cl_uid d))
     @ [cl_sak d, cl_atqa d ! 0, cl_atqa d ! 1]
     @ concat (map (le_bytes 4) (cl_block_read_mask d)) @ le_bytes 8 (cl_key_a_mask d) @ le_bytes 8 (cl_key_b_mask d)
     @ concat (take (classic_get_total_blocks (cl_type d)) (cl_blocks d))"

lemma classic_total_cases:
  assumes "t \<le> CLASSIC_TYPE_4K"
  shows "0 < classic_get_total_blocks t" "classic_get_total_blocks t \<le> 256" "t \<noteq> CLASSIC_TYPE_UNKNOWN"
proof -
  have "unat t \<le> 2" using assms by (simp add: word_le_nat_alt)
  then have "unat t = 0 \<or> unat t = 1 \<or> unat t = 2" by linarith
  then have "t = 0 \<or> t = 1 \<or> t = 2" by (auto simp: word_unat_eq_iff)
  then show "0 < classic_get_total_blocks t" "classic_get_total_blocks t \<le> 256" "t \<noteq> CLASSIC_TYPE_UNKNOWN"
    by (auto simp: classic_get_total_blocks_def)
qed

lemma classic_blob_length:
  assumes "classic_card d"
  shows "length (classic_blob d) = classic_serial_len d"
proof -
  have "list_all (\<lambda>b. length b = 16) (take (classic_get_total_blocks (cl_type d)) (cl_blocks d))"
    using assms by (auto simp: classic_card_def classic_ok_def list_all_iff dest: in_set_takeD)
  moreover have "length (concat (map (le_bytes 4) (cl_block_read_mask d))) = 4 * 8"
    using assms by (subst length_concat_eq [of 4]) (auto simp: list_all_iff classic_card_def classic_ok_def)
  ultimately show ?thesis
    using assms classic_total_cases [of "cl_type d"]
    by (simp add: classic_blob_def classic_serial_len_def length_concat_eq classic_card_def classic_ok_def)
qed

lemma classic_serialize_card:
  assumes "classic_card d" "classic_serial_len d \<le> m"
  shows "classic_serialize (Some d) (Some m) = Inr (classic_blob d)"
proof -
  have "map (take 16) (take k (cl_blocks d)) = take k (cl_blocks d)" for k
    using assms(1) by (auto simp: classic_card_def classic_ok_def list_all_iff intro!: map_idI dest: in_set_takeD)
  moreover have "cl_uid_len d \<noteq> 0" using assms(1) by (auto simp: classic_card_def)
  ultimately show ?thesis
    using assms classic_total_cases [of "cl_type d"]
    by (simp add: classic_serialize_def classic_blob_def Let_def classic_card_def classic_ok_def)
qed

text \<open>The fields of a serialised card, at the offsets at which deserialisation reads them.\<close>

lemma classic_blob_fields:
  fixes d
  assumes d: "classic_card d"
  defines "n \<equiv> unat (cl_uid_len d)" and "i \<equiv> classic_blob d"
  shows "i ! 0 = CLASSIC_FORMAT_VERSION" "i ! 1 = cl_type d" "i ! 2 = cl_uid_len d"
    "sub_bytes 3 n i = take n (cl_uid d)" "i ! (3 + n) = cl_sak d" "i ! (4 + n) = cl_atqa d ! 0" "i ! (5 + n) = cl_atqa d ! 1"
    "k < 8 \<Longrightarrow> of_le_bytes 4 (drop (6 + n + 4 * k) i) = cl_block_read_mask d ! k"
    "of_le_bytes 8 (drop (38 + n) i) = cl_key_a_mask d" "of_le_bytes 8 (drop (46 + n) i) = cl_key_b_mask d"
    "k < classic_get_total_blocks (cl_type d) \<Longrightarrow> sub_bytes (54 + n + k * 16) 16 i = cl_blocks d ! k"
proof -
  let ?p = "[CLASSIC_FORMAT_VERSION, cl_type d, cl_uid_len d] @ take n (cl_uid d)"
  let ?M = "concat (map (le_bytes 4) (cl_block_read_mask d))"
  let ?B = "concat (take (classic_get_total_blocks (cl_type d)) (cl_blocks d))"
  let ?R = "?M @ le_bytes 8 (cl_key_a_mask d) @ le_bytes 8 (cl_key_b_mask d) @ ?B"
  have i: "i = ?p @ [cl_sak d, cl_atqa d ! 0, cl_atqa d ! 1] @ ?R" by (simp add: i_def classic_blob_def n_def)
  have p: "length ?p = 3 + n" using d by (simp add: n_def classic_card_def classic_ok_def)
  have ms: "length (cl_block_read_mask d) = 8" using d by (simp add: classic_card_def classic_ok_def)
  have M: "length ?M = 32" using ms by (subst length_concat_eq [of 4]) (auto simp: list_all_iff)
  have at: "i ! (3 + n + j) = ([cl_sak d, cl_atqa d ! 0, cl_atqa d ! 1] @ ?R) ! j" for j
    unfolding i using p nth_append_length_plus [of ?p _ j] by simp
  have R: "drop (6 + n + j) i = drop j ?R" for j
  proof -
    have "i = (?p @ [cl_sak d, cl_atqa d ! 0, cl_atqa d ! 1]) @ ?R" by (simp add: i)
    moreover have "length (?p @ [cl_sak d, cl_atqa d ! 0, cl_atqa d ! 1]) = 6 + n" using p by simp
    ultimately show ?thesis using drop_field [of "?p @ [cl_sak d, cl_atqa d ! 0, cl_atqa d ! 1]" "6 + n" j ?R] by argo
  qed
  show "i ! 0 = CLASSIC_FORMAT_VERSION" "i ! 1 = cl_type d" "i ! 2 = cl_uid_len d" by (simp_all add: i)
  show "sub_bytes 3 n i = take n (cl_uid d)" using p by (simp add: i sub_bytes_def)
  show "i ! (3 + n) = cl_sak d" "i ! (4 + n) = cl_atqa d ! 0" "i ! (5 + n) = cl_atqa d ! 1"
    using at [of 0] at [of 1] at [of 2] by (simp_all add: add.commute)
  show "of_le_bytes 4 (drop (6 + n + 4 * k) i) = cl_block_read_mask d ! k" if "k < 8"
    unfolding R using of_le_masks [OF ms that] .
  show "of_le_bytes 8 (drop (38 + n) i) = cl_key_a_mask d" "of_le_bytes 8 (drop (46 + n) i) = cl_key_b_mask d"
    using R [of 32] R [of 40] M by (simp_all add: of_le_bytes_le_bytes)
  show "sub_bytes (54 + n + k * 16) 16 i = cl_blocks d ! k" if "k < classic_get_total_blocks (cl_type d)"
  proof -
    have l: "list_all (\<lambda>b. length b = 16) (take (classic_get_total_blocks (cl_type d)) (cl_blocks d))"
      using d by (auto simp: classic_card_def classic_ok_def list_all_iff dest: in_set_takeD)
    have "sub_bytes (54 + n + k * 16) 16 i = sub_bytes (16 * k) 16 ?B"
      using R [of "48 + 16 * k"] M by (simp add: sub_bytes_def mult.commute add.assoc)
    then show ?thesis
      using sub_concat_eq [OF l, of k] that d classic_total_cases [of "cl_type d"]
      by (simp add: classic_card_def classic_ok_def)
  qed
qed

text \<open>C21. Deserialising the serialisation of a card gives the card back, whatever the structure held before: the
  blob has the announced length, and the type, UID, SAK, ATQA, masks and blocks of the card survive.\<close>

theorem classic_serialize_deserialize:
  assumes d: "classic_card d" and m: "classic_serial_len d \<le> m"
  shows "\<exists>b. classic_serialize (Some d) (Some m) = Inr b \<and> length b = classic_serial_len d \<and>
    classic_deserialize (Some b) d0 = (Inr (), classic_trim d)"
proof (intro exI conjI)
  let ?n = "unat (cl_uid_len d)" and ?t = "classic_get_total_blocks (cl_type d)" and ?i = "classic_blob d"
  show "classic_serialize (Some d) (Some m) = Inr ?i" by (rule classic_serialize_card [OF d m])
  show len: "length ?i = classic_serial_len d" by (rule classic_blob_length [OF d])
  note t = classic_total_cases [of "cl_type d"] and f = classic_blob_fields [OF d]
  have ok: "classic_ok d" "cl_type d \<le> 2" "0 < ?n" "?n \<le> 10" using d by (simp_all add: classic_card_def)
  have masks: "map (\<lambda>k. of_le_bytes 4 (drop (6 + ?n + 4 * k) ?i)) [0..<8] = cl_block_read_mask d"
    using ok(1) f(8) by (intro nth_equalityI) (simp_all add: classic_ok_def)
  have blocks: "map (\<lambda>k. sub_bytes (54 + ?n + k * 16) 16 ?i) [0..<?t] = take ?t (cl_blocks d)"
    using ok(1) f(11) t ok(2) by (intro nth_equalityI) (simp_all add: classic_ok_def)
  have atqa: "[cl_atqa d ! 0, cl_atqa d ! 1] = cl_atqa d"
    using ok(1) by (auto simp: classic_ok_def length_Suc_conv eval_nat_numeral)
  have lens: "length (take ?n (cl_uid d)) = ?n" "length (take ?t (cl_blocks d)) = ?t"
    using ok t by (simp_all add: classic_ok_def)
  have L: "length ?i = 54 + ?n + ?t * 16" using len by (simp add: classic_serial_len_def)
  have c: "\<not> length ?i < 4" "\<not> length ?i < 3 + ?n + 3" "\<not> length ?i < 6 + ?n + (4 * 8 + 8 * 2)"
    "\<not> (?n = 0 \<or> 10 < ?n)" "\<not> (cl_type d = 255 \<or> 2 < cl_type d)" "\<not> 256 < ?t"
    using L ok(2,3,4) t by simp_all
  show "classic_deserialize (Some ?i) d0 = (Inr (), classic_trim d)"
    unfolding classic_deserialize_def Let_def option.case f(1-7,9,10)
    by (simp add: c(1,2,3,4,5,6) masks blocks atqa L del: One_nat_def,
        intro classic_data.equality; simp add: classic_trim_def Let_def memcpy_at_0 classic_data_reset_def lens
          del: length_take)
qed

text \<open>A MIFARE Mini with the transport keys.\<close>

definition sample_classic :: classic_data where
  "sample_classic = classic_data_reset\<lparr>cl_type := CLASSIC_TYPE_MINI, cl_uid := [0xDE, 0xAD, 0xBE, 0xEF, 0, 0, 0, 0, 0, 0],
     cl_uid_len := 4, cl_sak := 0x09, cl_atqa := [0x04, 0x00],
     cl_blocks := map (\<lambda>k. if k = 0 then [0xDE, 0xAD, 0xBE, 0xEF, 0x22, 0x09, 0x04, 0x00] @ replicate 8 0x62
       else if k mod 4 = 3 then replicate 6 0xFF @ [0xFF, 0x07, 0x80, 0x69] @ replicate 6 0xFF
       else replicate CLASSIC_BLOCK_SIZE (of_nat k)) [0..<CLASSIC_BLOCKS_IN_MODEL]\<rparr>"

lemma sample_classic_ok: "classic_ok sample_classic"
  unfolding classic_ok_def list_all_iff sample_classic_def by (auto simp: classic_data_reset_def)

lemma sample_classic_card: "classic_card sample_classic"
  using sample_classic_ok by (simp add: classic_card_def) (simp add: sample_classic_def)

theorem classic_serialize_deserialize_witness:
  "\<exists>b. classic_serialize (Some sample_classic) (Some 4096) = Inr b \<and> length b = 378 \<and>
    classic_deserialize (Some b) classic_data_reset = (Inr (), classic_trim sample_classic)"
proof -
  have "classic_serial_len sample_classic = 378"
    by (simp add: classic_serial_len_def sample_classic_def classic_get_total_blocks_def)
  then show ?thesis
    using classic_serialize_deserialize [OF sample_classic_card, of 4096 classic_data_reset] by simp
qed

section \<open>Shape\<close>

lemma classic_ok_upd:
  "classic_ok d \<Longrightarrow> classic_ok (classic_set_key_found s kb k d)"
  "classic_ok d \<Longrightarrow> length b = 16 \<Longrightarrow> classic_ok (classic_set_block_read n b d)"
  by (auto simp: classic_ok_def classic_set_key_found_def classic_set_block_read_def list_all_iff
      dest: set_update_subset_insert [THEN subsetD])

lemma memcpy_at_prefix: "n \<le> length a \<Longrightarrow> length b = n \<Longrightarrow> length (memcpy_at a 0 b) = length a"
  by (simp add: memcpy_at_0)

text \<open>No input makes deserialisation leave the structure, and what it accepts is a card.\<close>

lemma classic_deserialize_ok:
  assumes "classic_ok d"
  shows "classic_ok (snd (classic_deserialize inp d))"
  using assms
  by (auto simp: classic_deserialize_def Let_def classic_ok_def classic_data_reset_def memcpy_at_0 list_all_iff
      sub_bytes_def split: option.splits)

lemma classic_deserialize_card:
  assumes "classic_deserialize inp d = (Inr (), d')"
  shows "classic_card d'"
  using assms classic_deserialize_ok [OF classic_reset_ok, of inp]
  by (auto simp: classic_deserialize_def Let_def classic_card_def split: option.splits if_splits)

end
