(* ===== verification/Classic_Listener.thy ===== *)
theory Classic_Listener
  imports Classic_Model
begin

text \<open>
  The emulated MIFARE Classic card (\<open>protocols/classic/classic_listener.c\<close>).  A handler returns the new module
  state and the responses it gave to \<open>nfc_transport_send_response\<close>, whose result the listener ignores.
\<close>

section \<open>Definitions\<close>

abbreviation (input) CLASSIC_CMD_AUTH_KEY_A :: u8 where "CLASSIC_CMD_AUTH_KEY_A \<equiv> 0x60"
abbreviation (input) CLASSIC_CMD_AUTH_KEY_B :: u8 where "CLASSIC_CMD_AUTH_KEY_B \<equiv> 0x61"
abbreviation (input) CLASSIC_CMD_READ_BLOCK :: u8 where "CLASSIC_CMD_READ_BLOCK \<equiv> 0x30"
abbreviation (input) CLASSIC_LISTENER_NRAR_SIZE :: nat where "CLASSIC_LISTENER_NRAR_SIZE \<equiv> 8"

record classic_listener =
  kl_model :: classic_data
  kl_initialized :: bool
  kl_crypto :: crypto1
  kl_nt :: bytes
  kl_auth_block :: u8
  kl_pending_auth2 :: bool
  kl_auth_complete :: bool

definition classic_listener_reset_auth :: "classic_listener \<Rightarrow> classic_listener" where
  "classic_listener_reset_auth s = s\<lparr>kl_crypto := crypto1_reset (kl_crypto s), kl_pending_auth2 := False,
     kl_auth_complete := False, kl_auth_block := 0\<rparr>"

definition classic_listener_key_a_for_block :: "classic_data \<Rightarrow> u8 \<Rightarrow> u64" where
  "classic_listener_key_a_for_block m block_num =
     (let sector = classic_get_sector_by_block block_num;
          first = classic_get_first_block_of_sector sector;
          trailer = first + classic_get_blocks_in_sector sector - 1 in
      fold (\<lambda>i key. push_bit 8 key OR ucast (cl_blocks m ! unat trailer ! i)) [0..<CLASSIC_KEY_SIZE] 0)"

definition classic_listener_make_nt :: "u8 \<Rightarrow> bytes" where
  "classic_listener_make_nt sector =
     (let nt_num = 0x10000000 + ucast sector :: u32 in be32_bytes nt_num)"

definition classic_listener_block_valid :: "classic_data \<Rightarrow> u8 \<Rightarrow> bool" where
  "classic_listener_block_valid m block_num \<longleftrightarrow>
     cl_type m \<noteq> CLASSIC_TYPE_UNKNOWN \<and> unat block_num < classic_get_total_blocks (cl_type m)"

definition classic_listener_handle_auth_first ::
  "bytes \<Rightarrow> bool \<Rightarrow> classic_listener \<Rightarrow> classic_listener \<times> bytes list" where
  "classic_listener_handle_auth_first tx key_b s =
     (if length tx \<noteq> 2 then (s, [])
      else
        let s = classic_listener_reset_auth s; block_num = tx ! 1; m = kl_model s in
        if \<not> classic_listener_block_valid m block_num then (s, [])
        else
          let sector = classic_get_sector_by_block block_num;
              key = classic_listener_key_a_for_block m block_num;
              nt = classic_listener_make_nt sector;
              cuid = classic_cuid_from_uid (cl_uid m) (cl_uid_len m);
              crypto = snd (crypto1_word (be32 nt XOR cuid) False (crypto1_init key)) in
          (s\<lparr>kl_nt := nt, kl_auth_block := block_num, kl_crypto := crypto,
             kl_pending_auth2 := True, kl_auth_complete := False\<rparr>, [nt]))"

definition classic_listener_handle_auth_second ::
  "bytes \<Rightarrow> classic_listener \<Rightarrow> classic_listener \<times> bytes list" where
  "classic_listener_handle_auth_second tx s =
     (if length tx \<noteq> CLASSIC_LISTENER_NRAR_SIZE \<or> \<not> kl_pending_auth2 s then (s, [])
      else
        let nr_num = be32 (take 4 tx); ar_num = be32 (drop 4 tx);
            (_, crypto) = crypto1_word nr_num True (kl_crypto s);
            nt_num = be32 (kl_nt s);
            (ks, crypto) = crypto1_word 0 False crypto;
            secret_poller = ar_num XOR ks in
        if secret_poller \<noteq> crypto1_prng_successor nt_num 64
        then (classic_listener_reset_auth (s\<lparr>kl_crypto := crypto\<rparr>), [])
        else
          let at_num = crypto1_prng_successor nt_num 96;
              at_plain = be32_bytes at_num;
              (at_enc, crypto) = crypto1_encrypt None at_plain crypto in
          (s\<lparr>kl_crypto := crypto, kl_pending_auth2 := False, kl_auth_complete := True\<rparr>, [at_enc]))"

definition classic_listener_handle_read :: "bytes \<Rightarrow> classic_listener \<Rightarrow> classic_listener \<times> bytes list" where
  "classic_listener_handle_read tx s =
     (if \<not> kl_auth_complete s \<or> length tx \<noteq> 4 then (s, [])
      else
        let (plain, crypto) = crypto1_decrypt tx (kl_crypto s); s = s\<lparr>kl_crypto := crypto\<rparr> in
        if \<not> iso14443_crc_check_a plain then (s, [])
        else
          let plain = iso14443_crc_trim_a plain in
          if length plain \<noteq> 2 \<or> plain ! 0 \<noteq> CLASSIC_CMD_READ_BLOCK then (s, [])
          else
            let block_num = plain ! 1 in
            if \<not> classic_listener_block_valid (kl_model s) block_num then (s, [])
            else if classic_get_sector_by_block (kl_auth_block s) \<noteq> classic_get_sector_by_block block_num then (s, [])
            else
              let plain = iso14443_crc_append_a (take CLASSIC_BLOCK_SIZE (cl_blocks (kl_model s) ! unat block_num));
                  (resp, crypto) = crypto1_encrypt None plain crypto in
              (s\<lparr>kl_crypto := crypto\<rparr>, [resp]))"

text \<open>\<open>None\<close> is a NULL command.\<close>

definition classic_listener_on_tag_cmd ::
  "bytes option \<Rightarrow> classic_listener \<Rightarrow> classic_listener \<times> bytes list" where
  "classic_listener_on_tag_cmd cmd s = (case cmd of None \<Rightarrow> (s, [])
   | Some tx \<Rightarrow>
     if \<not> kl_initialized s \<or> length tx = 0 then (s, [])
     else if kl_pending_auth2 s \<and> length tx = CLASSIC_LISTENER_NRAR_SIZE
     then classic_listener_handle_auth_second tx s
     else if length tx = 2 then
       (if tx ! 0 = CLASSIC_CMD_AUTH_KEY_A then classic_listener_handle_auth_first tx False s
        else if tx ! 0 = CLASSIC_CMD_AUTH_KEY_B then classic_listener_handle_auth_first tx True s
        else (s, []))
     else if kl_auth_complete s \<and> length tx = 4 then classic_listener_handle_read tx s
     else (s, []))"

definition classic_listener_serialize :: "nat option \<Rightarrow> classic_listener \<Rightarrow> bytes result" where
  "classic_listener_serialize out s =
     (if \<not> kl_initialized s then Inl ENODEV else classic_serialize (Some (kl_model s)) out)"

definition classic_listener_deserialize :: "bytes option \<Rightarrow> classic_listener \<Rightarrow> unit result \<times> classic_listener" where
  "classic_listener_deserialize inp s =
     (if \<not> kl_initialized s then (Inl ENODEV, s)
      else case classic_deserialize inp (kl_model s) of (r, m) \<Rightarrow> (r, s\<lparr>kl_model := m\<rparr>))"

definition classic_listener_init :: "classic_data option \<Rightarrow> classic_listener \<Rightarrow> unit result \<times> classic_listener" where
  "classic_listener_init model s =
     (Inr (), (classic_listener_reset_auth
        (s\<lparr>kl_model := (case model of None \<Rightarrow> classic_data_reset | Some m \<Rightarrow> m)\<rparr>))\<lparr>kl_initialized := True\<rparr>)"

definition classic_listener_shutdown :: "classic_listener \<Rightarrow> unit result \<times> classic_listener" where
  "classic_listener_shutdown s =
     (Inr (), (classic_listener_reset_auth (s\<lparr>kl_model := classic_data_reset\<rparr>))\<lparr>kl_initialized := False\<rparr>)"

definition classic_listener_boot :: classic_listener where
  "classic_listener_boot = \<lparr>kl_model = classic_data_reset\<lparr>cl_type := 0\<rparr>, kl_initialized = False,
     kl_crypto = \<lparr>cr_odd = 0, cr_even = 0\<rparr>, kl_nt = replicate 4 0, kl_auth_block = 0, kl_pending_auth2 = False,
     kl_auth_complete = False\<rparr>"

section \<open>Authentication\<close>

lemmas classic_handler_defs = classic_listener_on_tag_cmd_def classic_listener_handle_auth_first_def
  classic_listener_handle_auth_second_def classic_listener_handle_read_def classic_listener_reset_auth_def Let_def

text \<open>The cipher when a card has sent its nonce for a block, and the reader's proof that it knows the key.\<close>

definition classic_cipher_start :: "classic_data \<Rightarrow> u8 \<Rightarrow> crypto1" where
  "classic_cipher_start m b = snd (crypto1_word
     (be32 (classic_listener_make_nt (classic_get_sector_by_block b)) XOR classic_cuid_from_uid (cl_uid m) (cl_uid_len m))
     False (crypto1_init (classic_listener_key_a_for_block m b)))"

definition classic_proves_key :: "classic_data \<Rightarrow> u8 \<Rightarrow> bytes \<Rightarrow> bool" where
  "classic_proves_key m b x \<longleftrightarrow> length x = 8 \<and>
     (let c = snd (crypto1_word (be32 (take 4 x)) True (classic_cipher_start m b)) in
      be32 (drop 4 x) XOR fst (crypto1_word 0 False c) =
        crypto1_prng_successor (be32 (classic_listener_make_nt (classic_get_sector_by_block b))) 64)"

fun classic_listener_run :: "bytes list \<Rightarrow> classic_listener \<Rightarrow> classic_listener \<times> bytes list" where
  "classic_listener_run [] s = (s, [])"
| "classic_listener_run (x # xs) s =
     (let (s1, r1) = classic_listener_on_tag_cmd (Some x) s; (s2, r2) = classic_listener_run xs s1 in (s2, r1 @ r2))"

text \<open>The states after commands \<open>H\<close>: a pending nonce belongs to the cipher of its block, and a completed
  authentication had its proof.\<close>

definition classic_auth_inv :: "classic_data \<Rightarrow> bytes set \<Rightarrow> classic_listener \<Rightarrow> bool" where
  "classic_auth_inv m H s \<longleftrightarrow> kl_initialized s \<and> kl_model s = m \<and>
     (kl_pending_auth2 s \<longrightarrow> kl_crypto s = classic_cipher_start m (kl_auth_block s) \<and>
        kl_nt s = classic_listener_make_nt (classic_get_sector_by_block (kl_auth_block s)) \<and> \<not> kl_auth_complete s) \<and>
     (kl_auth_complete s \<longrightarrow> (\<exists>x \<in> H. classic_proves_key m (kl_auth_block s) x))"

lemma classic_auth_inv_mono: "classic_auth_inv m H s \<Longrightarrow> H \<subseteq> H' \<Longrightarrow> classic_auth_inv m H' s"
  by (auto simp: classic_auth_inv_def)

lemma classic_auth_inv_first:
  "classic_auth_inv m H s \<Longrightarrow> classic_auth_inv m H (fst (classic_listener_handle_auth_first tx kb s))"
  by (auto simp: classic_handler_defs classic_auth_inv_def classic_cipher_start_def)

lemma classic_auth_inv_second:
  assumes "classic_auth_inv m H s"
  shows "classic_auth_inv m (insert tx H) (fst (classic_listener_handle_auth_second tx s))"
  using assms
  by (auto simp: classic_listener_handle_auth_second_def classic_listener_reset_auth_def Let_def
      classic_auth_inv_def classic_proves_key_def split: prod.splits)

lemma classic_auth_inv_read:
  "classic_auth_inv m H s \<Longrightarrow> classic_auth_inv m H (fst (classic_listener_handle_read tx s))"
  by (auto simp: classic_listener_handle_read_def Let_def classic_auth_inv_def split: prod.splits)

lemma classic_auth_inv_cmd:
  assumes "classic_auth_inv m H s"
  shows "classic_auth_inv m (insert tx H) (fst (classic_listener_on_tag_cmd (Some tx) s))"
  using classic_auth_inv_mono [OF assms subset_insertI, of tx] classic_auth_inv_second [OF assms, of tx]
  by (auto simp: classic_listener_on_tag_cmd_def classic_auth_inv_first classic_auth_inv_read)

lemma classic_auth_inv_run:
  "classic_auth_inv m H s \<Longrightarrow> classic_auth_inv m (H \<union> set xs) (fst (classic_listener_run xs s))"
proof (induction xs arbitrary: H s)
  case (Cons x xs)
  from Cons.IH [OF classic_auth_inv_cmd [OF Cons.prems, of x]] show ?case
    by (auto simp: Let_def split: prod.splits)
qed simp

lemma classic_auth_inv_init: "classic_auth_inv m {} (snd (classic_listener_init (Some m) s))"
  by (simp add: classic_listener_init_def classic_listener_reset_auth_def classic_auth_inv_def)

text \<open>What a read command sends.\<close>

lemma classic_read_sends:
  assumes "classic_listener_on_tag_cmd (Some tx) s = (s', r # rs)" "length tx = 4"
  shows "kl_auth_complete s \<and> rs = [] \<and> (\<exists>blk c. classic_get_sector_by_block blk = classic_get_sector_by_block (kl_auth_block s) \<and>
    classic_listener_block_valid (kl_model s) blk \<and>
    r = fst (crypto1_encrypt None (iso14443_crc_append_a (take 16 (cl_blocks (kl_model s) ! unat blk))) c))"
  using assms
  by (auto simp: classic_listener_on_tag_cmd_def classic_listener_handle_read_def Let_def
      split: prod.splits if_splits) (metis fst_conv)+

text \<open>Whatever is received, in whatever state, the card sends at most one response, which fits the 32-byte
  response buffer, and neither its data nor its life cycle change.\<close>

theorem classic_listener_bounds:
  "case classic_listener_on_tag_cmd cmd s of (s', rs) \<Rightarrow>
     length rs \<le> 1 \<and> list_all (\<lambda>r. length r \<le> 18) rs \<and>
     kl_model s' = kl_model s \<and> kl_initialized s' = kl_initialized s"
proof -
  have nt: "length (classic_listener_make_nt n) = 4" "length (be32_bytes w) = 4" for n w
    by (simp_all add: classic_listener_make_nt_def be32_bytes_def Let_def)
  have "length r \<le> 18" if "crypto1_encrypt None xs c = (r, c')" "length xs \<le> 18" for xs c r c'
    using crypto1_encrypt_length [OF that(1)] that(2) by simp
  then show ?thesis
    by (auto simp: classic_handler_defs nt split: option.splits prod.splits)
qed

section \<open>A reader that knows the key\<close>

lemma classic_listener_auth_first:
  assumes "kl_initialized s" "classic_listener_block_valid (kl_model s) b"
  shows "classic_listener_on_tag_cmd (Some [CLASSIC_CMD_AUTH_KEY_A, b]) s =
    (s\<lparr>kl_crypto := classic_cipher_start (kl_model s) b,
       kl_nt := classic_listener_make_nt (classic_get_sector_by_block b), kl_auth_block := b,
       kl_pending_auth2 := True, kl_auth_complete := False\<rparr>,
     [classic_listener_make_nt (classic_get_sector_by_block b)])"
  using assms by (simp add: classic_handler_defs classic_cipher_start_def)

text \<open>Four idle bytes and an idle word advance the cipher alike.\<close>

lemma crypto1_encrypt_word_state:
  assumes "length xs = 4" "crypto1_encrypt None xs c = (ys, c')"
  shows "snd (crypto1_word 0 False c) = c'"
proof -
  obtain ks where "crypto1_bytes [0, 0, 0, 0] False c = (ks, c')"
    using crypto1_encrypt_state [OF assms(2)] assms(1) by (cases "crypto1_bytes [0, 0, 0, 0] False c") (auto simp: eval_nat_numeral)
  then show ?thesis using crypto1_word_bytes [of "[0, 0, 0, 0]" False c ks c'] by simp
qed

lemma classic_listener_auth_second:
  assumes s: "kl_initialized s" "kl_pending_auth2 s" "kl_nt s = nt"
    and c0: "crypto1_word (be32 nt XOR cuid) False (crypto1_init key) = (w, kl_crypto s)"
    and tx: "length nr = 4" "crypto1_encrypt_reader_nonce key cuid nt nr = (tx, c)"
  shows "\<exists>at. classic_listener_on_tag_cmd (Some tx) s =
    (s\<lparr>kl_crypto := snd (crypto1_word 0 False c), kl_pending_auth2 := False, kl_auth_complete := True\<rparr>, [at]) \<and> length at = 4"
proof -
  obtain k0 c1 k1 where a: "length tx = 8" "crypto1_word (be32 (take 4 tx)) True (kl_crypto s) = (k0, c1)"
    "crypto1_word 0 False c1 = (k1, c)" "be32 (drop 4 tx) XOR k1 = crypto1_prng_successor (be32 nt) 64"
    using crypto1_reader_nonce_accepted [OF tx c0] by blast
  obtain at c2 where e: "crypto1_encrypt None (be32_bytes (crypto1_prng_successor (be32 nt) 96)) c = (at, c2)" by fastforce
  have l: "length (be32_bytes w) = 4" for w by (simp add: be32_bytes_def)
  show ?thesis
    using s a e crypto1_encrypt_word_state [OF l e] crypto1_encrypt_length [OF e] l
    by (auto simp: classic_listener_on_tag_cmd_def classic_listener_handle_auth_second_def)
qed

lemma classic_listener_read:
  assumes s: "kl_initialized s" "\<not> kl_pending_auth2 s" "kl_auth_complete s"
    and blk: "classic_listener_block_valid (kl_model s) blk"
      "classic_get_sector_by_block (kl_auth_block s) = classic_get_sector_by_block blk"
    and tx: "crypto1_encrypt None (iso14443_crc_append_a [CLASSIC_CMD_READ_BLOCK, blk]) (kl_crypto s) = (tx, c1)"
    and r: "crypto1_encrypt None (iso14443_crc_append_a (take 16 (cl_blocks (kl_model s) ! unat blk))) c1 = (r, c2)"
  shows "classic_listener_on_tag_cmd (Some tx) s = (s\<lparr>kl_crypto := c2\<rparr>, [r])" "length tx = 4"
proof -
  show l: "length tx = 4" using crypto1_encrypt_length [OF tx] by simp
  have "tx \<noteq> []" using l by auto
  then show "classic_listener_on_tag_cmd (Some tx) s = (s\<lparr>kl_crypto := c2\<rparr>, [r])"
    using s blk r l crypto1_decrypt_encrypt [OF tx] iso14443_crc_append_check [of "[CLASSIC_CMD_READ_BLOCK, blk]"]
    by (simp add: classic_listener_on_tag_cmd_def classic_listener_handle_read_def Let_def)
qed

section \<open>Block data needs the key\<close>

text \<open>C20. The emulated card gives block data only to a reader that has proved its key: if, after any commands, a
  four-byte command is answered, then one of the earlier commands was an answer to the card's nonce that only the key
  of the block's own sector can produce, and the response is the encryption of that block with its CRC.\<close>

theorem classic_block_needs_key:
  assumes run: "classic_listener_run xs (snd (classic_listener_init (Some m) s0)) = (s, rs)"
    and cmd: "classic_listener_on_tag_cmd (Some tx) s = (s', r # rs')" and len: "length tx = 4"
  shows "\<exists>blk b c. \<exists>x \<in> set xs. classic_proves_key m b x \<and>
    classic_get_sector_by_block blk = classic_get_sector_by_block b \<and> unat blk < classic_get_total_blocks (cl_type m) \<and>
    r = fst (crypto1_encrypt None (iso14443_crc_append_a (take CLASSIC_BLOCK_SIZE (cl_blocks m ! unat blk))) c) \<and> rs' = []"
proof -
  have inv: "classic_auth_inv m (set xs) s"
    using classic_auth_inv_run [OF classic_auth_inv_init, of m xs s0] run by simp
  then have "kl_model s = m" by (simp add: classic_auth_inv_def)
  with classic_read_sends [OF cmd len] inv show ?thesis
    by (fastforce simp: classic_auth_inv_def classic_listener_block_valid_def)
qed

theorem classic_block_needs_key_witness:
  "\<exists>xs s rs tx s' r. classic_listener_run xs (snd (classic_listener_init (Some sample_classic) classic_listener_boot)) = (s, rs) \<and>
    length tx = 4 \<and> classic_listener_on_tag_cmd (Some tx) s = (s', [r]) \<and>
    (\<exists>b. \<exists>x \<in> set xs. classic_proves_key sample_classic b x)"
proof -
  define s0 where "s0 = snd (classic_listener_init (Some sample_classic) classic_listener_boot)"
  have s0: "kl_initialized s0" "kl_model s0 = sample_classic"
    by (simp_all add: s0_def classic_listener_init_def classic_listener_reset_auth_def)
  have v: "classic_listener_block_valid sample_classic 0"
    by (simp add: classic_listener_block_valid_def sample_classic_def classic_get_total_blocks_def)
  let ?nt = "classic_listener_make_nt (classic_get_sector_by_block 0)"
    and ?key = "classic_listener_key_a_for_block sample_classic 0"
    and ?cuid = "classic_cuid_from_uid (cl_uid sample_classic) (cl_uid_len sample_classic)"
  define s1 where "s1 = fst (classic_listener_on_tag_cmd (Some [0x60, 0]) s0)"
  have c1: "classic_listener_on_tag_cmd (Some [0x60, 0]) s0 = (s1, [?nt])"
    and s1: "kl_initialized s1" "kl_pending_auth2 s1" "kl_nt s1 = ?nt" "kl_model s1 = sample_classic" "kl_auth_block s1 = 0"
      "kl_crypto s1 = classic_cipher_start sample_classic 0"
    using classic_listener_auth_first [OF s0(1), of 0] s0 v by (simp_all add: s1_def)
  obtain w where w: "crypto1_word (be32 ?nt XOR ?cuid) False (crypto1_init ?key) = (w, kl_crypto s1)"
    unfolding s1(6) classic_cipher_start_def by (metis prod.collapse)
  obtain tx c where tx: "crypto1_encrypt_reader_nonce ?key ?cuid ?nt [1, 2, 3, 4] = (tx, c)" by fastforce
  obtain at where at: "classic_listener_on_tag_cmd (Some tx) s1 =
      (s1\<lparr>kl_crypto := snd (crypto1_word 0 False c), kl_pending_auth2 := False, kl_auth_complete := True\<rparr>, [at])"
    using classic_listener_auth_second [OF s1(1,2,3) w _ tx] by auto
  define s2 where "s2 = s1\<lparr>kl_crypto := snd (crypto1_word 0 False c), kl_pending_auth2 := False, kl_auth_complete := True\<rparr>"
  obtain rd c3 where rd: "crypto1_encrypt None (iso14443_crc_append_a [0x30, 0]) (kl_crypto s2) = (rd, c3)" by fastforce
  obtain r c4 where r: "crypto1_encrypt None (iso14443_crc_append_a (take 16 (cl_blocks (kl_model s2) ! unat (0 :: u8)))) c3 = (r, c4)"
    by fastforce
  have read: "classic_listener_on_tag_cmd (Some rd) s2 = (s2\<lparr>kl_crypto := c4\<rparr>, [r])" "length rd = 4"
    using classic_listener_read [of s2 0 rd c3 r c4] s1 v rd r by (simp_all add: s2_def)
  have run: "classic_listener_run [[0x60, 0], tx] (snd (classic_listener_init (Some sample_classic) classic_listener_boot)) = (s2, [?nt, at])"
    using c1 at by (simp add: s0_def [symmetric] s2_def)
  show ?thesis
    using classic_block_needs_key [OF run read] run read by blast
qed

section \<open>After a rejected blob\<close>

text \<open>C39. Deserialisation checks the UID length after storing it, and serialisation does not check it: after a rejected
  blob the UID length can exceed the UID field, and a later save reads past the field instead of failing.\<close>

theorem classic_rejected_blob_overread:
  assumes "kl_initialized s"
  shows "case classic_listener_deserialize (Some [0x01, 0x00, 0xC8, 0x00]) s of (r, s') \<Rightarrow>
    r = Inl EBADMSG \<and> length (cl_uid (kl_model s')) < unat (cl_uid_len (kl_model s')) \<and>
    (\<exists>b. classic_listener_serialize (Some 4096) s' = Inr b)"
  using assms
  by (simp add: classic_listener_deserialize_def classic_deserialize_def Let_def classic_listener_serialize_def
      classic_serialize_def classic_data_reset_def classic_get_total_blocks_def classic_serial_len_def)

theorem classic_rejected_blob_overread_witness:
  "\<exists>s. kl_initialized s \<and> fst (classic_listener_deserialize (Some [0x01, 0x00, 0xC8, 0x00]) s) = Inl EBADMSG"
proof -
  have i: "kl_initialized (snd (classic_listener_init None classic_listener_boot))" by (simp add: classic_listener_init_def)
  from classic_rejected_blob_overread [OF this] show ?thesis
    by (intro exI [of _ "snd (classic_listener_init None classic_listener_boot)"] conjI i) (simp split: prod.splits)
qed

end
