(* ===== verification/Classic_Poller.thy ===== *)
theory Classic_Poller
  imports Reader_Session Apdu_Framing Classic_Listener
begin

text \<open>
  The MIFARE Classic reader (\<open>protocols/classic/classic_poller.c\<close>): authentication with the transport key and
  encrypted block reads.  The cycle counter \<open>k_cycle_get_32\<close> that gives the reader's nonce is a parameter
  \<open>cyc\<close> on the state of the environment.
\<close>

section \<open>Definitions\<close>

abbreviation (input) CLASSIC_NT_SIZE :: nat where "CLASSIC_NT_SIZE \<equiv> 4"
abbreviation (input) CLASSIC_AUTH_NR_SIZE :: nat where "CLASSIC_AUTH_NR_SIZE \<equiv> 4"
abbreviation (input) CLASSIC_AUTH_AT_SIZE :: nat where "CLASSIC_AUTH_AT_SIZE \<equiv> 4"
abbreviation (input) CLASSIC_DEFAULT_KEY :: u64 where "CLASSIC_DEFAULT_KEY \<equiv> 0xFFFFFFFFFFFF"

definition classic_poller_session_valid :: "nfc_reader_session option \<Rightarrow> bool" where
  "classic_poller_session_valid session \<longleftrightarrow> (case session of None \<Rightarrow> False | Some s \<Rightarrow> rs_active s)"

definition classic_poller_transceive ::
  "(bytes \<Rightarrow> nat \<Rightarrow> ('t, bytes) io) \<Rightarrow> nfc_reader_session option \<Rightarrow> bytes \<Rightarrow> ('t, bytes) io" where
  "classic_poller_transceive hal session tx =
     nfc_reader_session_transceive hal session tx NFC_TRANSPORT_MAX_RESPONSE_LEN"

text \<open>In what follows \<open>xc\<close> is \<open>classic_poller_transceive\<close> with the session applied.\<close>

definition classic_poller_get_nt :: "(bytes \<Rightarrow> ('t, bytes) io) \<Rightarrow> u8 \<Rightarrow> ('t, bytes) io" where
  "classic_poller_get_nt xc block_num =
     io_bind (xc [CLASSIC_CMD_AUTH_KEY_A, block_num]) (\<lambda>rx.
       if length rx \<noteq> CLASSIC_NT_SIZE then io_fail EIO else io_return (take CLASSIC_NT_SIZE rx))"

fun classic_poller_nonce :: "('t \<Rightarrow> u32 \<times> 't) \<Rightarrow> nat \<Rightarrow> 't \<Rightarrow> bytes \<times> 't" where
  "classic_poller_nonce cyc 0 t = ([], t)"
| "classic_poller_nonce cyc (Suc n) t =
     (let (c, t1) = cyc t; (nr, t2) = classic_poller_nonce cyc n t1 in (ucast (c AND 0xFF) # nr, t2))"

definition classic_poller_auth ::
  "('t \<Rightarrow> u32 \<times> 't) \<Rightarrow> (bytes \<Rightarrow> ('t, bytes) io) \<Rightarrow> classic_data \<Rightarrow> u8 \<Rightarrow> u64 \<Rightarrow> ('t, crypto1) io" where
  "classic_poller_auth cyc xc data block_num key =
     io_bind (classic_poller_get_nt xc block_num) (\<lambda>nt t.
       let (nr, t) = classic_poller_nonce cyc CLASSIC_AUTH_NR_SIZE t;
           cuid = classic_cuid_from_uid (cl_uid data) (cl_uid_len data);
           (tx_auth, _) = crypto1_encrypt_reader_nonce key cuid nt nr in
       io_bind (xc tx_auth) (\<lambda>rx.
         if length rx \<noteq> CLASSIC_AUTH_AT_SIZE then io_fail EIO
         else
           let crypto = crypto1_init key;
               crypto = snd (crypto1_word (be32 nt XOR cuid) False crypto);
               crypto = snd (crypto1_bytes nr False crypto);
               crypto = snd (crypto1_bytes (replicate 4 0) False crypto);
               crypto = snd (crypto1_word 0 False crypto) in
           io_return crypto) t)"

definition classic_poller_read_block ::
  "(bytes \<Rightarrow> ('t, bytes) io) \<Rightarrow> crypto1 \<Rightarrow> u8 \<Rightarrow> ('t, bytes \<times> crypto1) io" where
  "classic_poller_read_block xc crypto block_num =
     (let tx_plain = iso14443_crc_append_a [CLASSIC_CMD_READ_BLOCK, block_num];
          (tx_enc, crypto) = crypto1_encrypt None tx_plain crypto in
      io_bind (xc tx_enc) (\<lambda>rx_enc.
        if length rx_enc < CLASSIC_BLOCK_SIZE + ISO14443_CRC_SIZE then io_fail EIO
        else
          let (rx_plain, crypto) = crypto1_decrypt rx_enc crypto in
          if \<not> iso14443_crc_check_a rx_plain then io_fail EIO
          else
            let rx_plain = iso14443_crc_trim_a rx_plain in
            if length rx_plain \<noteq> CLASSIC_BLOCK_SIZE then io_fail EIO
            else io_return (take CLASSIC_BLOCK_SIZE rx_plain, crypto)))"

definition classic_poller_detect_type :: "(bytes \<Rightarrow> ('t, bytes) io) \<Rightarrow> ('t, u8) io" where
  "classic_poller_detect_type xc =
     io_case (classic_poller_get_nt xc 254)
       (\<lambda>_. io_case (classic_poller_get_nt xc 62)
          (\<lambda>_. io_return CLASSIC_TYPE_MINI) (\<lambda>_. io_return CLASSIC_TYPE_1K))
       (\<lambda>_. io_return CLASSIC_TYPE_4K)"

definition classic_poller_detect ::
  "(bytes \<Rightarrow> nat \<Rightarrow> ('t, bytes) io) \<Rightarrow> nfc_reader_session option \<Rightarrow> ('t, unit) io" where
  "classic_poller_detect hal session =
     (if \<not> classic_poller_session_valid session then io_fail EINVAL
      else io_case (classic_poller_get_nt (classic_poller_transceive hal session) 0)
        (\<lambda>_. io_fail ENOTSUP) (\<lambda>_. io_return ()))"

text \<open>The body of the inner loop after a block has been read.\<close>

definition classic_poller_keep_block :: "u8 \<Rightarrow> u8 \<Rightarrow> bytes \<Rightarrow> classic_data \<Rightarrow> classic_data" where
  "classic_poller_keep_block sector block_num block_buf d =
     (let d = classic_set_block_read block_num block_buf d;
          d = (if block_num = 0 then
                 (if block_buf ! 0 = 0x88
                  then d\<lparr>cl_uid_len := 7, cl_uid := memcpy_at (cl_uid d) 0 (sub_bytes 1 4 block_buf),
                         cl_sak := block_buf ! 6, cl_atqa := [block_buf ! 7, block_buf ! 8]\<rparr>
                  else if block_buf ! 0 \<noteq> 0
                  then d\<lparr>cl_uid_len := 4, cl_uid := memcpy_at (cl_uid d) 0 (take 4 block_buf),
                         cl_sak := block_buf ! 5, cl_atqa := [block_buf ! 6, block_buf ! 7]\<rparr>
                  else d)
               else if block_num = 1 \<and> cl_uid_len d = 7
               then d\<lparr>cl_uid := memcpy_at (cl_uid d) 4 (take 3 block_buf)\<rparr>
               else d) in
      if classic_is_sector_trailer block_num then classic_set_key_found sector True CLASSIC_DEFAULT_KEY d else d)"

fun classic_poller_read_blocks ::
  "(bytes \<Rightarrow> ('t, bytes) io) \<Rightarrow> nat \<Rightarrow> u8 \<Rightarrow> u8 \<Rightarrow> u8 list \<Rightarrow> crypto1 \<Rightarrow> (classic_data \<times> 't, unit) io" where
  "classic_poller_read_blocks xc blocks_total sector first_block [] crypto = io_return ()"
| "classic_poller_read_blocks xc blocks_total sector first_block (i # is) crypto =
     (let block_num = first_block + i in
      if blocks_total \<le> unat block_num then io_return ()
      else io_bind (on_tag (classic_poller_read_block xc crypto block_num)) (\<lambda>(block_buf, crypto).
        io_bind (on_out (classic_poller_keep_block sector block_num block_buf)) (\<lambda>_.
        classic_poller_read_blocks xc blocks_total sector first_block is crypto)))"

fun classic_poller_read_sectors ::
  "('t \<Rightarrow> u32 \<times> 't) \<Rightarrow> (bytes \<Rightarrow> ('t, bytes) io) \<Rightarrow> nat \<Rightarrow> u8 list \<Rightarrow> (classic_data \<times> 't, unit) io" where
  "classic_poller_read_sectors cyc xc blocks_total [] = io_return ()"
| "classic_poller_read_sectors cyc xc blocks_total (sector # ss) =
     (let first_block = classic_get_first_block_of_sector sector;
          block_count = classic_get_blocks_in_sector sector in
      io_case (\<lambda>dt. on_tag (classic_poller_auth cyc xc (fst dt) first_block CLASSIC_DEFAULT_KEY) dt)
        (\<lambda>_. classic_poller_read_sectors cyc xc blocks_total ss)
        (\<lambda>crypto. io_bind (on_out (classic_set_key_found sector False CLASSIC_DEFAULT_KEY)) (\<lambda>_.
           io_bind (classic_poller_read_blocks xc blocks_total sector first_block
               (map of_nat [0..<unat block_count]) crypto) (\<lambda>_.
           classic_poller_read_sectors cyc xc blocks_total ss))))"

definition classic_poller_tag_uid :: "nfc_transport_tag_info \<Rightarrow> classic_data \<Rightarrow> classic_data" where
  "classic_poller_tag_uid tag d =
     (if ti_valid tag \<and> 0 < uid_len (ti_uid tag) then
        let n = (if 10 < uid_len (ti_uid tag) then 10 else uid_len (ti_uid tag)) in
        d\<lparr>cl_uid_len := n, cl_uid := memcpy_at (cl_uid d) 0 (take (unat n) (uid_bytes (ti_uid tag)))\<rparr>
      else d)"

definition classic_poller_read ::
  "('t \<Rightarrow> u32 \<times> 't) \<Rightarrow> (bytes \<Rightarrow> nat \<Rightarrow> ('t, bytes) io) \<Rightarrow> nfc_reader_session option \<Rightarrow>
   (classic_data \<times> 't, unit) io" where
  "classic_poller_read cyc hal session = (case session of
     None \<Rightarrow> io_fail EINVAL
   | Some s \<Rightarrow>
     if \<not> classic_poller_session_valid session then io_fail EINVAL
     else let xc = classic_poller_transceive hal session in
       io_bind (on_out (\<lambda>_. classic_data_reset)) (\<lambda>_.
       io_bind (on_out (classic_poller_tag_uid (rs_tag s))) (\<lambda>_.
       io_bind (on_tag (classic_poller_detect_type xc)) (\<lambda>type.
       io_bind (on_out (\<lambda>d. d\<lparr>cl_type := type\<rparr>)) (\<lambda>_.
       io_bind (io_check (type \<noteq> CLASSIC_TYPE_UNKNOWN) ENOTSUP) (\<lambda>_.
       io_bind (classic_poller_read_sectors cyc xc (classic_get_total_blocks type)
           (map of_nat [0..<unat (classic_get_total_sectors type)])) (\<lambda>_ dt.
       io_check (classic_is_block_read (Some (fst dt)) 0) EIO dt)))))))"

section \<open>Every tag: memory safety\<close>

definition classic_reading :: "u8 \<Rightarrow> classic_data \<Rightarrow> bool" where
  "classic_reading t d \<longleftrightarrow> classic_ok d \<and> unat (cl_uid_len d) \<le> 10 \<and> cl_type d = t"

lemma set_block_read_frame [simp]:
  "cl_type (classic_set_block_read b x d) = cl_type d" "cl_uid_len (classic_set_block_read b x d) = cl_uid_len d"
  "cl_uid (classic_set_block_read b x d) = cl_uid d" "cl_sak (classic_set_block_read b x d) = cl_sak d"
  "cl_atqa (classic_set_block_read b x d) = cl_atqa d"
  by (simp_all add: classic_set_block_read_def)

lemma set_key_found_frame [simp]:
  "cl_type (classic_set_key_found s kb k d) = cl_type d" "cl_uid_len (classic_set_key_found s kb k d) = cl_uid_len d"
  "cl_uid (classic_set_key_found s kb k d) = cl_uid d" "cl_blocks (classic_set_key_found s kb k d) = cl_blocks d"
  "cl_block_read_mask (classic_set_key_found s kb k d) = cl_block_read_mask d"
  "cl_sak (classic_set_key_found s kb k d) = cl_sak d" "cl_atqa (classic_set_key_found s kb k d) = cl_atqa d"
  by (simp_all add: classic_set_key_found_def)

lemma classic_reading_key: "classic_reading t d \<Longrightarrow> classic_reading t (classic_set_key_found s kb k d)"
  by (simp add: classic_reading_def classic_ok_upd)

lemma classic_reading_keep:
  assumes "classic_reading t d" "length buf = 16"
  shows "classic_reading t (classic_poller_keep_block sector b buf d)"
proof -
  let ?d = "classic_set_block_read b buf d"
  have d: "classic_reading t ?d" using assms by (simp add: classic_reading_def classic_ok_upd)
  then have u: "classic_reading t (?d\<lparr>cl_uid_len := 7, cl_uid := memcpy_at (cl_uid ?d) 0 (sub_bytes 1 4 buf), cl_sak := x, cl_atqa := [y, z]\<rparr>)"
    "classic_reading t (?d\<lparr>cl_uid_len := 4, cl_uid := memcpy_at (cl_uid ?d) 0 (take 4 buf), cl_sak := x, cl_atqa := [y, z]\<rparr>)"
    "classic_reading t (?d\<lparr>cl_uid := memcpy_at (cl_uid ?d) 4 (take 3 buf)\<rparr>)" for x y z
    using assms(2) by (simp_all add: classic_reading_def classic_ok_def length_memcpy_at length_sub_bytes)
  have e: "classic_reading t e \<Longrightarrow> classic_reading t (if tr then classic_set_key_found sector True k e else e)" for e tr k
    by (simp add: classic_reading_key)
  show ?thesis
    unfolding classic_poller_keep_block_def Let_def
    by (rule e) (simp only: d u if_split conj_absorb implies_True_equals simp_thms)
qed

lemma classic_reading_tag: "classic_reading t d \<Longrightarrow> classic_reading t (classic_poller_tag_uid tag d)"
  by (auto simp: classic_reading_def classic_ok_def classic_poller_tag_uid_def Let_def length_memcpy_at
      word_less_nat_alt word_le_nat_alt)

lemma read_block_length:
  fixes P :: "'d \<Rightarrow> bool" and xc :: "bytes \<Rightarrow> ('t, bytes) io"
  shows "io_hoare (\<lambda>dt. P (fst dt)) (on_tag (classic_poller_read_block xc c b))
     (\<lambda>bc dt. length (fst bc) = 16 \<and> P (fst dt)) (\<lambda>dt. P (fst dt))"
  unfolding io_hoare_def
proof (intro allI impI)
  fix dt :: "'d \<times> 't" assume P: "P (fst dt)"
  have "classic_poller_read_block xc c b t = (Inr bc, t') \<Longrightarrow> length (fst bc) = 16" for t bc t'
    by (auto simp: classic_poller_read_block_def Let_def io_bind_def io_fail_def io_return_def
        split: prod.splits sum.splits if_splits)
  then show "case on_tag (classic_poller_read_block xc c b) dt of (Inl _, s') \<Rightarrow> P (fst s')
      | (Inr bc, s') \<Rightarrow> length (fst bc) = 16 \<and> P (fst s')"
    using P by (auto simp: on_tag_def split: prod.splits sum.splits)
qed

lemma classic_read_blocks_keeps:
  "io_hoare (\<lambda>dt. classic_reading t (fst dt)) (classic_poller_read_blocks xc n sector first is c)
     (\<lambda>_ dt. classic_reading t (fst dt)) (\<lambda>dt. classic_reading t (fst dt))"
proof (induction "is" arbitrary: c)
  case Nil
  show ?case by (auto intro: io_hoare_basic)
next
  case (Cons i "is")
  have "io_hoare (\<lambda>dt. length (fst bc) = 16 \<and> classic_reading t (fst dt))
      (case bc of (buf, c) \<Rightarrow> io_bind (on_out (classic_poller_keep_block sector (first + i) buf))
         (\<lambda>_. classic_poller_read_blocks xc n sector first is c))
      (\<lambda>_ dt. classic_reading t (fst dt)) (\<lambda>dt. classic_reading t (fst dt))" for bc
    using Cons.IH [of "snd bc"]
    by (cases bc) (auto simp: io_hoare_def io_bind_simps classic_reading_keep)
  then show ?case
    unfolding classic_poller_read_blocks.simps Let_def
    by (intro io_hoare_if io_hoare_basic(1) io_hoare_bind [OF read_block_length]) auto
qed

lemma classic_read_sectors_keeps:
  fixes xc :: "bytes \<Rightarrow> ('t, bytes) io"
  shows "io_hoare (\<lambda>dt. classic_reading t (fst dt)) (classic_poller_read_sectors cyc xc n ss)
     (\<lambda>_ dt. classic_reading t (fst dt)) (\<lambda>dt. classic_reading t (fst dt))"
proof (induction ss)
  case Nil
  show ?case by (auto intro: io_hoare_basic)
next
  case (Cons s ss)
  let ?P = "\<lambda>dt :: classic_data \<times> 't. classic_reading t (fst dt)"
  have ok: "io_hoare ?P (io_bind (on_out (classic_set_key_found s False CLASSIC_DEFAULT_KEY)) (\<lambda>_.
      io_bind (classic_poller_read_blocks xc n s (classic_get_first_block_of_sector s)
        (map of_nat [0..<unat (classic_get_blocks_in_sector s)]) c) (\<lambda>_. classic_poller_read_sectors cyc xc n ss)))
      (\<lambda>_. ?P) ?P" for c
    by (intro io_hoare_out_then [where Q = "classic_reading t"] io_hoare_bind [OF classic_read_blocks_keeps] Cons.IH
        classic_reading_key)
  show ?case
    unfolding io_hoare_def
  proof (intro allI impI)
    fix dt :: "classic_data \<times> 't" assume P: "?P dt"
    obtain r u where u: "on_tag (classic_poller_auth cyc xc (fst dt) (classic_get_first_block_of_sector s) CLASSIC_DEFAULT_KEY) dt = (r, u)"
      by (metis surj_pair)
    then have "fst u = fst dt" by (auto simp: on_tag_def split: prod.splits)
    then have "?P u" using P by simp
    then show "case classic_poller_read_sectors cyc xc n (s # ss) dt of (Inl _, s') \<Rightarrow> ?P s' | (Inr x, s') \<Rightarrow> ?P s'"
      using Cons.IH [unfolded io_hoare_def, rule_format, of u] ok [unfolded io_hoare_def, rule_format, of u] u
      by (cases r) (simp_all add: io_case_def Let_def)
  qed
qed

lemma classic_detect_type_total: "\<exists>ty t1. classic_poller_detect_type xc t = (Inr ty, t1) \<and> ty \<le> CLASSIC_TYPE_4K"
proof -
  obtain r t1 where 1: "classic_poller_get_nt xc 254 t = (r, t1)" by fastforce
  obtain r' t2 where 2: "classic_poller_get_nt xc 62 t1 = (r', t2)" by fastforce
  from 1 2 show ?thesis
    by (cases r; cases r') (auto simp: classic_poller_detect_type_def io_case_def io_return_def)
qed



end
