(* ===== verification/Classic_Loopback.thy ===== *)
theory Classic_Loopback
  imports Classic_Poller
begin

text \<open>
  The Classic reader in front of the emulated Classic card: every authentication succeeds, both ends keep the same
  cipher state, and the reader obtains the card's data.  The card shares the reader's field with a clock \<open>clk\<close> that
  gives the reader its nonces.
\<close>

section \<open>The field\<close>

definition classic_loop :: "bytes \<Rightarrow> nat \<Rightarrow> (classic_listener \<times> 'k, bytes) io" where
  "classic_loop tx n sk = (case classic_listener_on_tag_cmd (Some tx) (fst sk) of
     (s', []) \<Rightarrow> (Inl ETIMEDOUT, (s', snd sk))
   | (s', r # _) \<Rightarrow> (Inr r, (s', snd sk)))"

definition classic_clock :: "('k \<Rightarrow> u32 \<times> 'k) \<Rightarrow> classic_listener \<times> 'k \<Rightarrow> u32 \<times> (classic_listener \<times> 'k)" where
  "classic_clock clk sk = (case clk (snd sk) of (c, k') \<Rightarrow> (c, (fst sk, k')))"

lemma classic_nonce_clock:
  "\<exists>nr k'. classic_poller_nonce (classic_clock clk) n (s, k) = (nr, (s, k')) \<and> length nr = n"
proof (induction n arbitrary: k)
  case (Suc n)
  obtain c k1 where c: "clk k = (c, k1)" by fastforce
  with Suc.IH [of k1] show ?case by (auto simp: classic_clock_def)
qed simp

abbreviation (input) classic_xc :: "bytes \<Rightarrow> (classic_listener \<times> 'k, bytes) io" where
  "classic_xc tx \<equiv> classic_loop tx NFC_TRANSPORT_MAX_RESPONSE_LEN"

section \<open>Authentication\<close>

definition classic_up :: "classic_data \<Rightarrow> classic_listener \<Rightarrow> bool" where
  "classic_up m s \<longleftrightarrow> kl_initialized s \<and> kl_model s = m"

text \<open>The card after authentication of block \<open>b\<close>, with cipher state \<open>c\<close>.\<close>

definition classic_authed :: "classic_data \<Rightarrow> u8 \<Rightarrow> crypto1 \<Rightarrow> classic_listener \<Rightarrow> bool" where
  "classic_authed m b c s \<longleftrightarrow> classic_up m s \<and> \<not> kl_pending_auth2 s \<and> kl_auth_complete s \<and>
     kl_auth_block s = b \<and> kl_crypto s = c"

lemma classic_get_nt_valid:
  assumes "classic_up m s" "classic_listener_block_valid m b"
  shows "\<exists>s'. classic_poller_get_nt classic_xc b (s, k) = (Inr (classic_listener_make_nt (classic_get_sector_by_block b)), (s', k)) \<and>
    classic_up m s' \<and> kl_pending_auth2 s' \<and> kl_nt s' = classic_listener_make_nt (classic_get_sector_by_block b) \<and>
    kl_auth_block s' = b \<and> kl_crypto s' = classic_cipher_start m b"
proof -
  have "length (classic_listener_make_nt n) = 4" for n by (simp add: classic_listener_make_nt_def be32_bytes_def Let_def)
  then show ?thesis
    using classic_listener_auth_first [of s b] assms
    by (simp add: classic_poller_get_nt_def classic_loop_def io_bind_def io_return_def classic_up_def)
qed

lemma classic_get_nt_invalid:
  assumes "classic_up m s" "\<not> classic_listener_block_valid m b"
  shows "\<exists>s'. classic_poller_get_nt classic_xc b (s, k) = (Inl ETIMEDOUT, (s', k)) \<and> classic_up m s'"
  using assms
  by (simp add: classic_poller_get_nt_def classic_loop_def io_bind_def classic_up_def classic_handler_defs)

lemma crypto1_reader_state:
  assumes "length nr = 4" "crypto1_encrypt_reader_nonce key cuid nt nr = (tx, c)"
  shows "snd (crypto1_bytes (replicate 4 0) False (snd (crypto1_bytes nr False
    (snd (crypto1_word (be32 nt XOR cuid) False (crypto1_init key)))))) = c"
proof -
  obtain w c0 where w: "crypto1_word (be32 nt XOR cuid) False (crypto1_init key) = (w, c0)" by fastforce
  obtain ys c1 zs where e: "encrypt_nonce nr c0 = (ys, c1)"
    "encrypt_answer 4 (crypto1_prng_successor (be32 nt) 32) c1 = (zs, c)"
    using assms w by (auto simp: crypto1_encrypt_reader_nonce_def Let_def split: prod.splits)
  obtain ks where 1: "crypto1_bytes nr False c0 = (ks, c1)" using encrypt_nonce_feeds [OF e(1)] by blast
  obtain k where 2: "crypto1_word 0 False c1 = (k, c)" using encrypt_answer_word [OF e(2)] by blast
  obtain ls c' where 3: "crypto1_bytes [0, 0, 0, 0] False c1 = (ls, c')" by (metis surj_pair)
  have "c' = c" using crypto1_word_bytes [OF _ 3] 2 by simp
  with 1 3 w show ?thesis by (simp add: eval_nat_numeral)
qed

lemma classic_auth_completes:
  assumes up: "classic_up m s" and v: "classic_listener_block_valid m b"
    and key: "classic_listener_key_a_for_block m b = key"
    and cuid: "classic_cuid_from_uid (cl_uid d) (cl_uid_len d) = classic_cuid_from_uid (cl_uid m) (cl_uid_len m)"
  shows "\<exists>c s' k'. classic_poller_auth (classic_clock clk) classic_xc d b key (s, k) = (Inr c, (s', k')) \<and> classic_authed m b c s'"
proof -
  let ?nt = "classic_listener_make_nt (classic_get_sector_by_block b)"
  let ?cuid = "classic_cuid_from_uid (cl_uid m) (cl_uid_len m)"
  obtain s1 where s1: "classic_poller_get_nt classic_xc b (s, k) = (Inr ?nt, (s1, k))" "classic_up m s1"
    "kl_pending_auth2 s1" "kl_nt s1 = ?nt" "kl_auth_block s1 = b" "kl_crypto s1 = classic_cipher_start m b"
    using classic_get_nt_valid [OF up v, of k] by blast
  obtain nr k' where nr: "classic_poller_nonce (classic_clock clk) 4 (s1, k) = (nr, (s1, k'))" "length nr = 4"
    using classic_nonce_clock [of clk 4 s1 k] by blast
  obtain tx c where tx: "crypto1_encrypt_reader_nonce key ?cuid ?nt nr = (tx, c)" by fastforce
  obtain w where w: "crypto1_word (be32 ?nt XOR ?cuid) False (crypto1_init key) = (w, kl_crypto s1)"
    unfolding s1(6) classic_cipher_start_def key by (metis prod.collapse)
  obtain at where at: "classic_listener_on_tag_cmd (Some tx) s1 =
      (s1\<lparr>kl_crypto := snd (crypto1_word 0 False c), kl_pending_auth2 := False, kl_auth_complete := True\<rparr>, [at])" "length at = 4"
    using classic_listener_auth_second [OF _ s1(3,4) w nr(2) tx] s1(2) by (auto simp: classic_up_def)
  let ?s = "s1\<lparr>kl_crypto := snd (crypto1_word 0 False c), kl_pending_auth2 := False, kl_auth_complete := True\<rparr>"
  have "classic_poller_auth (classic_clock clk) classic_xc d b key (s, k) = (Inr (snd (crypto1_word 0 False c)), (?s, k'))"
    using s1(1) nr tx at crypto1_reader_state [OF nr(2) tx]
    by (simp add: classic_poller_auth_def io_bind_def cuid classic_loop_def io_return_def Let_def)
  moreover have "classic_authed m b (snd (crypto1_word 0 False c)) ?s"
    using s1(2,5) by (simp add: classic_authed_def classic_up_def)
  ultimately show ?thesis by blast
qed

lemma classic_read_block_returns:
  assumes s: "classic_authed m a c s" and b: "classic_listener_block_valid m b"
    "classic_get_sector_by_block a = classic_get_sector_by_block b" "length (cl_blocks m ! unat b) = 16"
  shows "\<exists>c' s'. classic_poller_read_block classic_xc c b (s, k) = (Inr (cl_blocks m ! unat b, c'), (s', k)) \<and> classic_authed m a c' s'"
proof -
  obtain tx c1 where tx: "crypto1_encrypt None (iso14443_crc_append_a [0x30, b]) c = (tx, c1)" by fastforce
  let ?p = "iso14443_crc_append_a (take 16 (cl_blocks m ! unat b))"
  obtain r c2 where r: "crypto1_encrypt None ?p c1 = (r, c2)" by fastforce
  have "classic_listener_on_tag_cmd (Some tx) s = (s\<lparr>kl_crypto := c2\<rparr>, [r])"
    using classic_listener_read(1) [of s b tx c1 r c2] s b tx r by (simp add: classic_authed_def classic_up_def)
  moreover have "crypto1_decrypt r c1 = (?p, c2)" by (rule crypto1_decrypt_encrypt [OF r])
  moreover have "length r = 18" using crypto1_encrypt_length [OF r] b(3) by simp
  moreover have "take 16 (cl_blocks m ! unat b) \<noteq> []" "take 16 (cl_blocks m ! unat b) = cl_blocks m ! unat b" using b(3) by auto
  ultimately have "classic_poller_read_block classic_xc c b (s, k) = (Inr (cl_blocks m ! unat b, c2), (s\<lparr>kl_crypto := c2\<rparr>, k))"
    using tx iso14443_crc_append_check [of "take 16 (cl_blocks m ! unat b)"] b(3)
    by (simp add: classic_poller_read_block_def io_bind_def classic_loop_def io_return_def Let_def)
  moreover have "classic_authed m a c2 (s\<lparr>kl_crypto := c2\<rparr>)" using s by (simp add: classic_authed_def classic_up_def)
  ultimately show ?thesis by blast
qed

section \<open>Blocks of a sector\<close>

lemma sector_block_arith:
  fixes n i :: nat
  shows "n < 32 \<Longrightarrow> i < 4 \<Longrightarrow> 4 * n + i < 128 \<and> (4 * n + i) div 4 = n"
    "32 \<le> n \<Longrightarrow> n < 40 \<Longrightarrow> i < 16 \<Longrightarrow> 128 + 16 * (n - 32) + i < 256 \<and> 32 + (128 + 16 * (n - 32) + i - 128) div 16 = n"
  by auto

lemma sector_block:
  assumes "unat s < 40" "i < unat (classic_get_blocks_in_sector s)"
  defines "b \<equiv> classic_get_first_block_of_sector s + of_nat i"
  shows "classic_get_sector_by_block b = s" "unat b = unat (classic_get_first_block_of_sector s) + i"
proof -
  have bound: "unat (classic_get_first_block_of_sector s) + i < 256"
    using assms(2) sector_block_arith [of "unat s" i] assms(1)
    by (auto simp: unat_first_block [OF assms(1)] unat_blocks_in_sector split: if_splits)
  then have "i < 256" by simp
  with bound show b: "unat b = unat (classic_get_first_block_of_sector s) + i"
    by (simp add: b_def unat_word_ariths unat_of_nat)
  have "unat (classic_get_sector_by_block b) = unat s"
    using assms(2) sector_block_arith [of "unat s" i] assms(1) unfolding unat_sector_by_block b
    by (auto simp: unat_first_block [OF assms(1)] unat_blocks_in_sector split: if_splits)
  then show "classic_get_sector_by_block b = s" by (simp add: word_unat_eq_iff)
qed

lemma block_of_sector:
  "\<exists>i < unat (classic_get_blocks_in_sector (classic_get_sector_by_block b)).
     b = classic_get_first_block_of_sector (classic_get_sector_by_block b) + of_nat i"
proof -
  let ?s = "classic_get_sector_by_block b"
  let ?f = "unat (classic_get_first_block_of_sector ?s)"
  have "?f \<le> unat b \<and> unat b - ?f < unat (classic_get_blocks_in_sector ?s)"
    unfolding unat_first_block [OF unat_sector_lt] unat_blocks_in_sector unat_sector_by_block
    using geometry_low [of "unat b"] geometry_high [of "unat b"] by (cases "unat b < 128") auto
  moreover have "b = classic_get_first_block_of_sector ?s + of_nat (unat b - ?f)" if "?f \<le> unat b"
    using that by (simp add: of_nat_diff)
  ultimately show ?thesis by blast
qed

lemma block_valid_sector:
  assumes "cl_type m \<le> CLASSIC_TYPE_4K"
  shows "classic_listener_block_valid m b \<longleftrightarrow> classic_get_sector_by_block b < classic_get_total_sectors (cl_type m)"
proof -
  have "unat b < classic_get_total_blocks t \<longleftrightarrow> unat (classic_get_sector_by_block b) < unat (classic_get_total_sectors t)" for t
    using geometry_low [of "unat b"] geometry_high [of "unat b"]
    by (auto simp: unat_total_sectors classic_get_total_blocks_def unat_sector_by_block)
  then show ?thesis
    using classic_total_cases [OF assms] by (simp add: classic_listener_block_valid_def word_less_nat_alt)
qed

section \<open>What the reader has of the card\<close>

text \<open>A card with a four-byte UID whose manufacturer block agrees with its data, under the transport key.\<close>

definition classic_plain :: "classic_data \<Rightarrow> bool" where
  "classic_plain m \<longleftrightarrow> classic_card m \<and> cl_uid_len m = 4 \<and>
     (let b0 = cl_blocks m ! 0 in b0 ! 0 \<noteq> 0 \<and> b0 ! 0 \<noteq> 0x88 \<and> take 4 b0 = take 4 (cl_uid m) \<and>
        b0 ! 5 = cl_sak m \<and> [b0 ! 6, b0 ! 7] = cl_atqa m) \<and>
     list_all (\<lambda>s. classic_listener_key_a_for_block m (classic_get_first_block_of_sector (of_nat s)) = CLASSIC_DEFAULT_KEY)
       [0..<unat (classic_get_total_sectors (cl_type m))]"

definition classic_got :: "classic_data \<Rightarrow> u8 set \<Rightarrow> classic_data \<Rightarrow> bool" where
  "classic_got m B d \<longleftrightarrow> classic_ok d \<and> cl_type d = cl_type m \<and> cl_uid_len d = 4 \<and>
     take 4 (cl_uid d) = take 4 (cl_uid m) \<and>
     (\<forall>b \<in> B. classic_is_block_read (Some d) b \<and> cl_blocks d ! unat b = cl_blocks m ! unat b) \<and>
     (0 \<in> B \<longrightarrow> cl_sak d = cl_sak m \<and> cl_atqa d = cl_atqa m)"

lemma block_read_iff: "classic_is_block_read (Some d) b \<longleftrightarrow> bit (cl_block_read_mask d ! (unat b div 32)) (unat b mod 32)"
proof -
  have "\<not> 256 \<le> unat b" using unat_u8_lt [of b] by linarith
  then show ?thesis by (simp add: classic_is_block_read_def bit_iff_and_push_bit_not_eq_0)
qed

lemma set_block_read_got:
  assumes "classic_ok d"
  shows "classic_is_block_read (Some (classic_set_block_read b x d)) b' \<longleftrightarrow> b' = b \<or> classic_is_block_read (Some d) b'"
    "cl_blocks (classic_set_block_read b x d) ! unat b' = (if b' = b then take 16 x else cl_blocks d ! unat b')"
proof -
  have l: "unat b div 32 < 8" "unat b < 256" "\<not> 256 \<le> unat b" using unat_u8_lt [of b] by linarith+
  have e: "b' = b \<longleftrightarrow> unat b' div 32 = unat b div 32 \<and> unat b' mod 32 = unat b mod 32"
    by (metis div_mult_mod_eq word_unat_eq_iff)
  show "classic_is_block_read (Some (classic_set_block_read b x d)) b' \<longleftrightarrow> b' = b \<or> classic_is_block_read (Some d) b'"
    using assms l unfolding block_read_iff e
    by (auto simp: classic_set_block_read_def classic_ok_def nth_list_update bit_or_iff bit_exp_iff)
  show "cl_blocks (classic_set_block_read b x d) ! unat b' = (if b' = b then take 16 x else cl_blocks d ! unat b')"
    using assms l by (auto simp: classic_set_block_read_def classic_ok_def nth_list_update word_unat_eq_iff)
qed

lemma take_memcpy_0: "length src = n \<Longrightarrow> take n (memcpy_at dst 0 src) = src"
  by (simp add: memcpy_at_0)

lemma classic_got_key: "classic_got m B d \<Longrightarrow> classic_got m B (classic_set_key_found s kb k d)"
  by (auto simp: classic_got_def classic_ok_upd block_read_iff)

lemma classic_got_keep:
  assumes g: "classic_got m B d" and m: "classic_plain m"
  shows "classic_got m (insert b B) (classic_poller_keep_block sector b (cl_blocks m ! unat b) d)"
proof -
  let ?x = "cl_blocks m ! unat b" and ?d = "classic_set_block_read b (cl_blocks m ! unat b) d"
  have x: "length ?x = 16"
    using m by (simp add: classic_plain_def classic_card_def classic_ok_def list_all_length)
  have d: "classic_ok d" "classic_ok ?d" using g x by (simp_all add: classic_got_def classic_ok_upd)
  have f: "classic_is_block_read (Some ?d) b'" "cl_blocks ?d ! unat b' = cl_blocks m ! unat b'" if "b' \<in> insert b B" for b'
    using that g set_block_read_got [OF d(1), of b ?x b'] x by (auto simp: classic_got_def)
  let ?e = "\<lambda>d. if classic_is_sector_trailer b then classic_set_key_found sector True CLASSIC_DEFAULT_KEY d else d"
  show ?thesis
  proof (cases "b = 0")
    case True
    let ?u = "?d\<lparr>cl_uid_len := 4, cl_uid := memcpy_at (cl_uid ?d) 0 (take 4 ?x), cl_sak := ?x ! 5, cl_atqa := [?x ! 6, ?x ! 7]\<rparr>"
    have "classic_poller_keep_block sector b ?x d = ?e ?u"
      using m True by (simp add: classic_poller_keep_block_def Let_def classic_plain_def)
    moreover have "take 4 (memcpy_at (cl_uid d) 0 (take 4 ?x)) = take 4 (cl_uid m)" "length (cl_atqa m) = 2"
      using m True x take_memcpy_0 [of "take 4 ?x" 4]
      by (simp_all add: classic_plain_def Let_def classic_card_def classic_ok_def)
    then have "classic_got m (insert b B) ?u"
      using m True d(2) f x g
      by (auto simp: classic_got_def classic_plain_def Let_def classic_ok_def length_memcpy_at block_read_iff)
    ultimately show ?thesis using classic_got_key by simp
  next
    case False
    have "classic_poller_keep_block sector b ?x d = ?e ?d"
      using False g by (simp add: classic_poller_keep_block_def Let_def classic_got_def)
    moreover have "classic_got m (insert b B) ?d"
      using False d(2) f g by (auto simp: classic_got_def)
    ultimately show ?thesis using classic_got_key by simp
  qed
qed

section \<open>The whole card\<close>

lemma be32_take: "4 \<le> length u \<Longrightarrow> be32 (take 4 u) = be32 u"
  by (simp add: be32_def)

lemma classic_got_cuid:
  assumes "classic_got m B d" "classic_plain m"
  shows "classic_cuid_from_uid (cl_uid d) (cl_uid_len d) = classic_cuid_from_uid (cl_uid m) (cl_uid_len m)"
proof -
  have "be32 (cl_uid d) = be32 (cl_uid m)"
    using assms be32_take [of "cl_uid d"] be32_take [of "cl_uid m"]
    by (simp add: classic_got_def classic_plain_def classic_card_def classic_ok_def)
  with assms show ?thesis by (simp add: classic_cuid_from_uid_def classic_got_def classic_plain_def)
qed

lemma classic_blocks_read:
  assumes m: "classic_plain m" and s: "sector < classic_get_total_sectors (cl_type m)"
  shows "classic_authed m a c l \<Longrightarrow> classic_get_sector_by_block a = sector \<Longrightarrow> classic_got m B d \<Longrightarrow>
    j + n = unat (classic_get_blocks_in_sector sector) \<Longrightarrow>
    \<exists>d' l'. classic_poller_read_blocks classic_xc (classic_get_total_blocks (cl_type m)) sector
        (classic_get_first_block_of_sector sector) (map of_nat [j..<j + n]) c (d, (l, k)) = (Inr (), (d', (l', k))) \<and>
      classic_up m l' \<and>
      classic_got m (B \<union> (\<lambda>i. classic_get_first_block_of_sector sector + of_nat i) ` {j..<j + n}) d'"
proof (induction n arbitrary: j c l B d)
  case 0
  then show ?case by (auto simp: io_return_def classic_authed_def)
next
  case (Suc n)
  have t: "cl_type m \<le> 2" using m by (simp add: classic_plain_def classic_card_def)
  have s40: "unat sector < 40" using s by (auto simp: word_less_nat_alt unat_total_sectors split: if_splits)
  let ?b = "classic_get_first_block_of_sector sector + of_nat j"
  have b: "classic_get_sector_by_block ?b = sector" using sector_block(1) [OF s40, of j] Suc.prems(4) by simp
  then have v: "classic_listener_block_valid m ?b" using block_valid_sector [OF t] s by simp
  have len: "length (cl_blocks m ! unat ?b) = 16"
    using m unat_u8_lt [of ?b] by (simp add: classic_plain_def classic_card_def classic_ok_def list_all_length)
  obtain c' l1 where r: "classic_poller_read_block classic_xc c ?b (l, k) = (Inr (cl_blocks m ! unat ?b, c'), (l1, k))"
      "classic_authed m a c' l1"
    using classic_read_block_returns [OF Suc.prems(1) v _ len, of k] Suc.prems(2) b by auto
  let ?d = "classic_poller_keep_block sector ?b (cl_blocks m ! unat ?b) d"
  have g: "classic_got m (insert ?b B) ?d" by (rule classic_got_keep [OF Suc.prems(3) m])
  obtain d' l' where IH: "classic_poller_read_blocks classic_xc (classic_get_total_blocks (cl_type m)) sector
      (classic_get_first_block_of_sector sector) (map of_nat [Suc j..<Suc j + n]) c' (?d, (l1, k)) = (Inr (), (d', (l', k)))"
    "classic_up m l'"
    "classic_got m (insert ?b B \<union> (\<lambda>i. classic_get_first_block_of_sector sector + of_nat i) ` {Suc j..<Suc j + n}) d'"
    using Suc.IH [OF r(2) Suc.prems(2) g, of "Suc j"] Suc.prems(4) by auto
  have up: "[j..<j + Suc n] = j # [Suc j..<Suc j + n]" by (simp add: upt_conv_Cons)
  have iv: "{j..<j + Suc n} = insert j {Suc j..<Suc j + n}" by auto
  have "\<not> classic_get_total_blocks (cl_type m) \<le> unat ?b" using v by (simp add: classic_listener_block_valid_def)
  then have "classic_poller_read_blocks classic_xc (classic_get_total_blocks (cl_type m)) sector
        (classic_get_first_block_of_sector sector) (map of_nat [j..<j + Suc n]) c (d, (l, k)) = (Inr (), (d', (l', k)))"
    using r(1) IH(1) unfolding up by (simp add: Let_def io_bind_def on_tag_def on_out_def del: upt_Suc)
  moreover have "insert ?b B \<union> (\<lambda>i. classic_get_first_block_of_sector sector + of_nat i) ` {Suc j..<Suc j + n} =
      B \<union> (\<lambda>i. classic_get_first_block_of_sector sector + of_nat i) ` {j..<j + Suc n}"
    unfolding iv by blast
  ultimately show ?case using IH(2,3) by (intro exI [of _ d'] exI [of _ l'] conjI) argo+
qed

lemma classic_sectors_read:
  assumes m: "classic_plain m" and total: "unat (classic_get_total_sectors (cl_type m)) = j + n"
  shows "classic_up m l \<Longrightarrow> classic_got m {b. unat (classic_get_sector_by_block b) < j} d \<Longrightarrow>
    \<exists>d' l' k'. classic_poller_read_sectors (classic_clock clk) classic_xc (classic_get_total_blocks (cl_type m))
        (map of_nat [j..<j + n]) (d, (l, k)) = (Inr (), (d', (l', k'))) \<and> classic_up m l' \<and>
      classic_got m {b. unat (classic_get_sector_by_block b) < j + n} d'"
  using total
proof (induction n arbitrary: j l d k)
  case 0
  then show ?case by (auto simp: io_return_def)
next
  case (Suc n)
  let ?s = "of_nat j :: u8" and ?t = "classic_get_total_sectors (cl_type m)"
  have t: "cl_type m \<le> 2" using m by (simp add: classic_plain_def classic_card_def)
  have t40: "unat ?t \<le> 40" by (simp add: unat_total_sectors)
  have j: "j < unat ?t" using Suc.prems(3) by simp
  have us: "unat ?s = j" using j t40 by (simp add: unat_of_nat)
  have s: "?s < ?t" "unat ?s < 40" using j t40 us by (simp_all add: word_less_nat_alt)
  let ?f = "classic_get_first_block_of_sector ?s"
  have cnt: "0 < unat (classic_get_blocks_in_sector ?s)" by (simp add: unat_blocks_in_sector)
  have fs: "classic_get_sector_by_block ?f = ?s" using sector_block(1) [OF s(2) cnt] by simp
  have v: "classic_listener_block_valid m ?f" using block_valid_sector [OF t] s(1) fs by simp
  have key: "classic_listener_key_a_for_block m ?f = CLASSIC_DEFAULT_KEY"
    using m j by (simp add: classic_plain_def list_all_iff)
  obtain c l1 k1 where a: "classic_poller_auth (classic_clock clk) classic_xc d ?f CLASSIC_DEFAULT_KEY (l, k) = (Inr c, (l1, k1))"
      "classic_authed m ?f c l1"
    using classic_auth_completes [OF Suc.prems(1) v key classic_got_cuid [OF Suc.prems(2) m], of clk k] by blast
  let ?B = "{b. unat (classic_get_sector_by_block b) < j}" and ?d = "classic_set_key_found ?s False CLASSIC_DEFAULT_KEY d"
  have gk: "classic_got m ?B ?d" by (rule classic_got_key [OF Suc.prems(2)])
  have n0: "0 + unat (classic_get_blocks_in_sector ?s) = unat (classic_get_blocks_in_sector ?s)" by simp
  obtain d1 l2 where b: "classic_poller_read_blocks classic_xc (classic_get_total_blocks (cl_type m)) ?s ?f
      (map of_nat [0..<unat (classic_get_blocks_in_sector ?s)]) c (?d, (l1, k1)) = (Inr (), (d1, (l2, k1)))" "classic_up m l2"
      "classic_got m (?B \<union> (\<lambda>i. ?f + of_nat i) ` {0..<unat (classic_get_blocks_in_sector ?s)}) d1"
    using classic_blocks_read [OF m s(1) a(2) fs gk n0, where k = k1] unfolding add_0 by blast
  have "?B \<union> (\<lambda>i. ?f + of_nat i) ` {0..<unat (classic_get_blocks_in_sector ?s)} =
      {b. unat (classic_get_sector_by_block b) < Suc j}" (is "_ = ?B'")
  proof -
    have "b \<in> (\<lambda>i. ?f + of_nat i) ` {0..<unat (classic_get_blocks_in_sector ?s)} \<longleftrightarrow> classic_get_sector_by_block b = ?s" for b
      using block_of_sector [of b] sector_block(1) [OF s(2)] by auto
    moreover have "classic_get_sector_by_block b = ?s \<longleftrightarrow> unat (classic_get_sector_by_block b) = j" for b
      using us by (simp add: word_unat_eq_iff)
    ultimately show ?thesis by (auto simp: less_Suc_eq)
  qed
  then have g: "classic_got m {b. unat (classic_get_sector_by_block b) < Suc j} d1" using b(3) by simp
  obtain d' l' k' where IH: "classic_poller_read_sectors (classic_clock clk) classic_xc (classic_get_total_blocks (cl_type m))
      (map of_nat [Suc j..<Suc j + n]) (d1, (l2, k1)) = (Inr (), (d', (l', k')))" "classic_up m l'"
      "classic_got m {b. unat (classic_get_sector_by_block b) < Suc j + n} d'"
    using Suc.IH [OF b(2) g, where k = k1] Suc.prems(3) by auto
  have up: "[j..<j + Suc n] = j # [Suc j..<Suc j + n]" by (simp add: upt_conv_Cons)
  have "classic_poller_read_sectors (classic_clock clk) classic_xc (classic_get_total_blocks (cl_type m))
        (map of_nat [j..<j + Suc n]) (d, (l, k)) = (Inr (), (d', (l', k')))"
    using a(1) b(1) IH(1) unfolding up by (simp add: Let_def io_case_def io_bind_def on_tag_def on_out_def del: upt_Suc)
  with IH(2,3) show ?case by (metis add_Suc add_Suc_right)
qed

lemma classic_type_detected:
  assumes "classic_up m l" "cl_type m \<le> CLASSIC_TYPE_4K"
  shows "\<exists>l'. classic_poller_detect_type classic_xc (l, k) = (Inr (cl_type m), (l', k)) \<and> classic_up m l'"
proof -
  have "unat (cl_type m) \<le> 2" using assms(2) by (simp add: word_le_nat_alt)
  then have "unat (cl_type m) = 0 \<or> unat (cl_type m) = 1 \<or> unat (cl_type m) = 2" by linarith
  then have t: "cl_type m = 0 \<or> cl_type m = 1 \<or> cl_type m = 2" by (auto simp: word_unat_eq_iff)
  then have v: "classic_listener_block_valid m 254 \<longleftrightarrow> cl_type m = 2" "classic_listener_block_valid m 62 \<longleftrightarrow> cl_type m \<noteq> 0"
    by (auto simp: classic_listener_block_valid_def classic_get_total_blocks_def)
  show ?thesis
  proof (cases "cl_type m = 2")
    case True
    with classic_get_nt_valid [OF assms(1), of 254 k] v(1) show ?thesis
      by (auto simp: classic_poller_detect_type_def io_case_def io_return_def)
  next
    case False
    obtain l1 where l1: "classic_poller_get_nt classic_xc 254 (l, k) = (Inl ETIMEDOUT, (l1, k))" "classic_up m l1"
      using classic_get_nt_invalid [OF assms(1), of 254 k] v(1) False by blast
    show ?thesis
    proof (cases "cl_type m = 0")
      case True
      with classic_get_nt_invalid [OF l1(2), of 62 k] v(2) l1(1) show ?thesis
        by (auto simp: classic_poller_detect_type_def io_case_def io_return_def)
    next
      case False
      with classic_get_nt_valid [OF l1(2), of 62 k] v(2) l1(1) t \<open>cl_type m \<noteq> 2\<close> show ?thesis
        by (auto simp: classic_poller_detect_type_def io_case_def io_return_def)
    qed
  qed
qed

lemma classic_got_compare:
  assumes g: "classic_got m {b. unat (classic_get_sector_by_block b) < unat (classic_get_total_sectors (cl_type m))} d"
    and m: "classic_plain m"
  shows "classic_compare (Some m) (Some d) = Inr ()"
    "take (classic_get_total_blocks (cl_type m)) (cl_blocks d) = take (classic_get_total_blocks (cl_type m)) (cl_blocks m)"
    "classic_is_block_read (Some d) 0"
proof -
  have t: "cl_type m \<le> 2" and ok: "classic_ok m" "cl_uid_len m = 4"
    using m by (simp_all add: classic_plain_def classic_card_def)
  note tot = classic_total_cases [OF t]
  have in_card: "(of_nat b :: u8) \<in> {b. unat (classic_get_sector_by_block b) < unat (classic_get_total_sectors (cl_type m))} \<and> unat (of_nat b :: u8) = b"
    if b: "b < classic_get_total_blocks (cl_type m)" for b
  proof -
    have u: "unat (of_nat b :: u8) = b" using b tot(2) by (simp add: unat_of_nat)
    then have "classic_listener_block_valid m (of_nat b)" using b tot(3) by (simp add: classic_listener_block_valid_def)
    then show ?thesis using u block_valid_sector [OF t] by (simp add: word_less_nat_alt)
  qed
  have eq: "classic_is_block_read (Some d) (of_nat b)" "cl_blocks d ! b = cl_blocks m ! b"
    if "b < classic_get_total_blocks (cl_type m)" for b
    using in_card [OF that] g by (auto simp: classic_got_def)
  show "classic_is_block_read (Some d) 0" using eq(1) [of 0] tot(1) by simp
  show "take (classic_get_total_blocks (cl_type m)) (cl_blocks d) = take (classic_get_total_blocks (cl_type m)) (cl_blocks m)"
    using eq(2) g ok tot(2) by (intro nth_equalityI) (auto simp: classic_got_def classic_ok_def)
  have "cl_sak d = cl_sak m" "cl_atqa d = cl_atqa m"
    using in_card [of 0] tot(1) g by (auto simp: classic_got_def)
  then show "classic_compare (Some m) (Some d) = Inr ()"
    using g ok eq(2) by (simp add: classic_compare_def classic_got_def list_all_iff)
qed

text \<open>C18. The Classic reader reads the emulated Classic card.  For every card with a four-byte UID and the transport key,
  whatever nonces the clock gives, the type is detected, every sector authenticates, every block is read, the result
  compares equal to the card, and the card is unchanged.\<close>

theorem classic_poller_reads_card:
  assumes m: "classic_plain m" and up: "classic_up m l" and act: "rs_active s" "ti_valid (rs_tag s)"
    and uid: "uid_len (ti_uid (rs_tag s)) = 4" "take 4 (uid_bytes (ti_uid (rs_tag s))) = take 4 (cl_uid m)"
  shows "\<exists>d' l' k'. classic_poller_read (classic_clock clk) classic_loop (Some s) (d, (l, k)) = (Inr (), (d', (l', k'))) \<and>
    classic_compare (Some m) (Some d') = Inr () \<and>
    take (classic_get_total_blocks (cl_type m)) (cl_blocks d') = take (classic_get_total_blocks (cl_type m)) (cl_blocks m) \<and>
    kl_model l' = m"
proof -
  have t: "cl_type m \<le> 2" and len: "length (cl_uid m) = 10"
    using m by (simp_all add: classic_plain_def classic_card_def classic_ok_def)
  have xc: "classic_poller_transceive classic_loop (Some s) = classic_xc"
    using act(1) by (simp add: classic_poller_transceive_def fun_eq_iff)
  obtain l1 where ty: "classic_poller_detect_type classic_xc (l, k) = (Inr (cl_type m), (l1, k))" "classic_up m l1"
    using classic_type_detected [OF up t, where k = k] by blast
  let ?d = "(classic_poller_tag_uid (rs_tag s) classic_data_reset)\<lparr>cl_type := cl_type m\<rparr>"
  have "4 \<le> length (uid_bytes (ti_uid (rs_tag s)))" using arg_cong [OF uid(2), of length] len by simp
  then have "classic_got m {b. unat (classic_get_sector_by_block b) < 0} ?d"
    using act(2) uid len
    by (simp add: classic_got_def classic_poller_tag_uid_def Let_def classic_ok_def memcpy_at_0 classic_data_reset_def list_all_iff)
  from classic_sectors_read [OF m _ ty(2) this, of "unat (classic_get_total_sectors (cl_type m))" clk k]
  obtain d' l' k' where r: "classic_poller_read_sectors (classic_clock clk) classic_xc (classic_get_total_blocks (cl_type m))
      (map of_nat [0..<unat (classic_get_total_sectors (cl_type m))]) (?d, (l1, k)) = (Inr (), (d', (l', k')))"
    "classic_up m l'" "classic_got m {b. unat (classic_get_sector_by_block b) < unat (classic_get_total_sectors (cl_type m))} d'"
    unfolding add_0 by blast
  note c = classic_got_compare [OF r(3) m]
  have "classic_poller_read (classic_clock clk) classic_loop (Some s) (d, (l, k)) = (Inr (), (d', (l', k')))"
    using act(1) classic_total_cases(3) [OF t] ty(1) r(1) c(3)
    by (simp add: classic_poller_read_def classic_poller_session_valid_def xc Let_def io_simps)
  with c r(2) show ?thesis by (auto simp: classic_up_def)
qed

lemma sample_classic_plain: "classic_plain sample_classic"
proof -
  have b: "cl_blocks sample_classic ! 0 = [0xDE, 0xAD, 0xBE, 0xEF, 0x22, 0x09, 0x04, 0x00] @ replicate 8 0x62"
    by (simp add: sample_classic_def)
  have tr: "cl_blocks sample_classic ! k = replicate 6 0xFF @ [0xFF, 0x07, 0x80, 0x69] @ replicate 6 0xFF"
    if "k \<in> {3, 7, 11, 15, 19}" for k
    using that by (auto simp: sample_classic_def)
  have "list_all (\<lambda>s. classic_listener_key_a_for_block sample_classic (classic_get_first_block_of_sector (of_nat s)) = CLASSIC_DEFAULT_KEY)
      [0..<5]"
    by (simp add: upt_rec classic_listener_key_a_for_block_def classic_get_first_block_of_sector_def Let_def
        classic_get_sector_by_block_def classic_get_blocks_in_sector_def tr nth_append)
  moreover have "unat (classic_get_total_sectors (cl_type sample_classic)) = 5" "cl_uid_len sample_classic = 4"
    "take 4 (cl_uid sample_classic) = [0xDE, 0xAD, 0xBE, 0xEF]" "cl_sak sample_classic = 9" "cl_atqa sample_classic = [4, 0]"
    by (simp_all add: sample_classic_def classic_get_total_sectors_def)
  ultimately show ?thesis
    using sample_classic_card by (simp add: classic_plain_def Let_def b)
qed

theorem classic_poller_reads_card_witness:
  "\<exists>d' l' k'. classic_poller_read (classic_clock (\<lambda>k. (of_nat k, Suc k))) classic_loop
      (Some \<lparr>rs_active = True, rs_tag = \<lparr>ti_uid = \<lparr>uid_bytes = cl_uid sample_classic, uid_len = 4\<rparr>,
         ti_protocol = 0, ti_interface = 0, ti_mode_tech = 0, ti_valid = True\<rparr>\<rparr>)
      (classic_data_reset, (snd (classic_listener_init (Some sample_classic) classic_listener_boot), 0)) =
    (Inr (), (d', (l', k'))) \<and> classic_compare (Some sample_classic) (Some d') = Inr ()"
proof -
  have "classic_up sample_classic (snd (classic_listener_init (Some sample_classic) classic_listener_boot))"
    by (simp add: classic_up_def classic_listener_init_def classic_listener_reset_auth_def)
  from classic_poller_reads_card [OF sample_classic_plain this, of "\<lparr>rs_active = True, rs_tag = \<lparr>ti_uid = \<lparr>uid_bytes = cl_uid sample_classic, uid_len = 4\<rparr>,
         ti_protocol = 0, ti_interface = 0, ti_mode_tech = 0, ti_valid = True\<rparr>\<rparr>" "\<lambda>k. (of_nat k, Suc k)" classic_data_reset 0]
  show ?thesis by auto
qed

end
