(* ===== verification/Ultralight_Model.thy ===== *)
theory Ultralight_Model
  imports Nfc_Prelude
begin

text \<open>
  The MIFARE Ultralight and NTAG data model (\<open>protocols/ultralight/ultralight.c\<close>): page memory, serialisation, the
  search for the NDEF message in the TLV area, and the password configuration.  Deserialisation follows the offset
  into the input as the list of bytes that remain.
\<close>

section \<open>Data\<close>

abbreviation (input) CONFIG_NFC_ULTRALIGHT_MAX_PAGES :: nat where "CONFIG_NFC_ULTRALIGHT_MAX_PAGES \<equiv> 256"
abbreviation (input) ULTRALIGHT_FORMAT_VERSION :: u8 where "ULTRALIGHT_FORMAT_VERSION \<equiv> 0x01"
abbreviation (input) ULTRALIGHT_PAGE_SIZE :: nat where "ULTRALIGHT_PAGE_SIZE \<equiv> 4"
abbreviation (input) ULTRALIGHT_CC_PAGE :: nat where "ULTRALIGHT_CC_PAGE \<equiv> 3"
abbreviation (input) ULTRALIGHT_DATA_START_PAGE :: nat where "ULTRALIGHT_DATA_START_PAGE \<equiv> 4"
abbreviation (input) ULTRALIGHT_VERSION_SIZE :: nat where "ULTRALIGHT_VERSION_SIZE \<equiv> 8"
abbreviation (input) ULTRALIGHT_SIGNATURE_SIZE :: nat where "ULTRALIGHT_SIGNATURE_SIZE \<equiv> 32"
abbreviation (input) ULTRALIGHT_COUNTER_NUM :: nat where "ULTRALIGHT_COUNTER_NUM \<equiv> 3"
abbreviation (input) ULTRALIGHT_TEARING_FLAG_NUM :: nat where "ULTRALIGHT_TEARING_FLAG_NUM \<equiv> 3"
abbreviation (input) ULTRALIGHT_NDEF_SCAN_MAX :: nat where "ULTRALIGHT_NDEF_SCAN_MAX \<equiv> 564"
abbreviation (input) ULTRALIGHT_TLV_NULL :: u8 where "ULTRALIGHT_TLV_NULL \<equiv> 0x00"
abbreviation (input) ULTRALIGHT_TLV_NDEF :: u8 where "ULTRALIGHT_TLV_NDEF \<equiv> 0x03"
abbreviation (input) ULTRALIGHT_TLV_TERMINATOR :: u8 where "ULTRALIGHT_TLV_TERMINATOR \<equiv> 0xFE"
abbreviation (input) ULTRALIGHT_TLV_LONG_FORM :: u8 where "ULTRALIGHT_TLV_LONG_FORM \<equiv> 0xFF"
abbreviation (input) ULTRALIGHT_AUTH0_NONE :: u8 where "ULTRALIGHT_AUTH0_NONE \<equiv> 0xFF"
abbreviation (input) ULTRALIGHT_CONFIG_BLOCK_PAGES :: nat where "ULTRALIGHT_CONFIG_BLOCK_PAGES \<equiv> 5"
abbreviation (input) UL_VARIANT_ORIGIN :: u8 where "UL_VARIANT_ORIGIN \<equiv> 0"
abbreviation (input) UL_VARIANT_UL11 :: u8 where "UL_VARIANT_UL11 \<equiv> 1"
abbreviation (input) UL_VARIANT_UL21 :: u8 where "UL_VARIANT_UL21 \<equiv> 2"
abbreviation (input) UL_VARIANT_UNKNOWN :: u8 where "UL_VARIANT_UNKNOWN \<equiv> 0xFF"

datatype ultralight_type = UL_TYPE_ORIGIN | UL_TYPE_UL11 | UL_TYPE_UL21 | UL_TYPE_NTAG203 | UL_TYPE_NTAG213
  | UL_TYPE_NTAG215 | UL_TYPE_NTAG216 | UL_TYPE_MFUL_C | UL_TYPE_UNKNOWN

text \<open>The variant is kept as its byte: deserialisation stores whatever it read.\<close>

record ultralight_data =
  ul_pages :: "bytes list"
  ul_pages_total :: nat
  ul_pages_read :: nat
  ul_type :: ultralight_type
  ul_variant :: u8
  ul_version :: bytes
  ul_has_version :: bool
  ul_signature :: bytes
  ul_has_signature :: bool
  ul_counters :: "bytes list"
  ul_counter_count :: nat
  ul_tearing_flags :: bytes
  ul_tearing_flag_count :: nat

record ultralight_config =
  uc_auth0 :: u8
  uc_prot :: bool
  uc_authlim :: u8
  uc_pwd :: bytes
  uc_pack :: bytes
  uc_valid :: bool

definition ultralight_data_reset :: ultralight_data where
  "ultralight_data_reset = \<lparr>ul_pages = replicate CONFIG_NFC_ULTRALIGHT_MAX_PAGES (replicate ULTRALIGHT_PAGE_SIZE 0),
     ul_pages_total = 0, ul_pages_read = 0, ul_type = UL_TYPE_UNKNOWN, ul_variant = UL_VARIANT_UNKNOWN,
     ul_version = replicate ULTRALIGHT_VERSION_SIZE 0, ul_has_version = False,
     ul_signature = replicate ULTRALIGHT_SIGNATURE_SIZE 0, ul_has_signature = False,
     ul_counters = replicate ULTRALIGHT_COUNTER_NUM (replicate 3 0), ul_counter_count = 0,
     ul_tearing_flags = replicate ULTRALIGHT_TEARING_FLAG_NUM 0, ul_tearing_flag_count = 0\<rparr>"

fun ultralight_pages_total_for_type :: "ultralight_type \<Rightarrow> nat" where
  "ultralight_pages_total_for_type UL_TYPE_ORIGIN = 16"
| "ultralight_pages_total_for_type UL_TYPE_UL11 = 20"
| "ultralight_pages_total_for_type UL_TYPE_UL21 = 41"
| "ultralight_pages_total_for_type UL_TYPE_NTAG203 = 42"
| "ultralight_pages_total_for_type UL_TYPE_NTAG213 = 45"
| "ultralight_pages_total_for_type UL_TYPE_NTAG215 = 135"
| "ultralight_pages_total_for_type UL_TYPE_NTAG216 = 231"
| "ultralight_pages_total_for_type UL_TYPE_MFUL_C = 48"
| "ultralight_pages_total_for_type UL_TYPE_UNKNOWN = 0"

definition variant_from_type :: "ultralight_type \<Rightarrow> u8" where
  "variant_from_type type = (case type of UL_TYPE_UL11 \<Rightarrow> UL_VARIANT_UL11 | UL_TYPE_UL21 \<Rightarrow> UL_VARIANT_UL21
     | UL_TYPE_ORIGIN \<Rightarrow> UL_VARIANT_ORIGIN | _ \<Rightarrow> UL_VARIANT_UNKNOWN)"

definition type_from_pages_total :: "nat \<Rightarrow> ultralight_type" where
  "type_from_pages_total n =
     (if n = 16 then UL_TYPE_ORIGIN else if n = 20 then UL_TYPE_UL11 else if n = 41 then UL_TYPE_UL21
      else if n = 42 then UL_TYPE_NTAG203 else if n = 45 then UL_TYPE_NTAG213 else if n = 48 then UL_TYPE_MFUL_C
      else if n = 135 then UL_TYPE_NTAG215 else if n = 231 then UL_TYPE_NTAG216 else UL_TYPE_UNKNOWN)"

section \<open>Serialisation\<close>

definition ultralight_blob_pages_len :: "nat \<Rightarrow> nat" where
  "ultralight_blob_pages_len pages_total = pages_total * ULTRALIGHT_PAGE_SIZE"

definition ultralight_serial_len :: "ultralight_data \<Rightarrow> nat" where
  "ultralight_serial_len d = 4 + ultralight_blob_pages_len (ul_pages_total d) + 1
     + (if ul_has_version d then ULTRALIGHT_VERSION_SIZE else 0) + 1
     + (if ul_has_signature d then ULTRALIGHT_SIGNATURE_SIZE else 0)
     + (1 + ul_counter_count d * 3) + (1 + ul_tearing_flag_count d)"

definition ultralight_serialize :: "ultralight_data option \<Rightarrow> nat option \<Rightarrow> bytes result" where
  "ultralight_serialize data out = (case (data, out) of
     (Some d, Some out_max) \<Rightarrow>
       if ul_pages_total d = 0 \<or> CONFIG_NFC_ULTRALIGHT_MAX_PAGES < ul_pages_total d then Inl EINVAL
       else if out_max < ultralight_serial_len d then Inl ENOSPC
       else Inr ([ULTRALIGHT_FORMAT_VERSION, ul_variant d, lo8 (ul_pages_total d), hi8 (ul_pages_total d)]
         @ concat (map (take ULTRALIGHT_PAGE_SIZE) (take (ul_pages_total d) (ul_pages d)))
         @ (if ul_has_version d then 1 # take ULTRALIGHT_VERSION_SIZE (ul_version d) else [0])
         @ (if ul_has_signature d then 1 # take ULTRALIGHT_SIGNATURE_SIZE (ul_signature d) else [0])
         @ (lo8 (ul_counter_count d) # concat (map (take 3) (take (ul_counter_count d) (ul_counters d))))
         @ (lo8 (ul_tearing_flag_count d) # take (ul_tearing_flag_count d) (ul_tearing_flags d)))
   | _ \<Rightarrow> Inl EINVAL)"

text \<open>The parts of \<open>ultralight_deserialize\<close> after the pages; \<open>r\<close> is what remains of the input.\<close>

definition ul_read_tearing :: "bytes \<Rightarrow> ultralight_data \<Rightarrow> unit result \<times> ultralight_data" where
  "ul_read_tearing r d = (case r of [] \<Rightarrow> (Inl EBADMSG, d)
   | c # r \<Rightarrow>
     if ULTRALIGHT_TEARING_FLAG_NUM < unat c then (Inl EBADMSG, d)
     else if length r < unat c then (Inl EBADMSG, d)
     else (Inr (), d\<lparr>ul_tearing_flag_count := unat c,
             ul_tearing_flags := memcpy_at (ul_tearing_flags d) 0 (take (unat c) r),
             ul_pages_read := ul_pages_total d\<rparr>))"

definition ul_read_counters :: "bytes \<Rightarrow> ultralight_data \<Rightarrow> unit result \<times> ultralight_data" where
  "ul_read_counters r d = (case r of [] \<Rightarrow> (Inl EBADMSG, d)
   | c # r \<Rightarrow>
     if ULTRALIGHT_COUNTER_NUM < unat c then (Inl EBADMSG, d)
     else if length r < unat c * 3 then (Inl EBADMSG, d)
     else ul_read_tearing (drop (unat c * 3) r) (d\<lparr>ul_counter_count := unat c,
             ul_counters := memcpy_at (ul_counters d) 0 (map (\<lambda>k. sub_bytes (3 * k) 3 r) [0..<unat c])\<rparr>))"

definition ul_read_signature :: "bytes \<Rightarrow> ultralight_data \<Rightarrow> unit result \<times> ultralight_data" where
  "ul_read_signature r d = (case r of [] \<Rightarrow> (Inl EBADMSG, d)
   | has_signature # r \<Rightarrow>
     if has_signature = 0 then ul_read_counters r d
     else if length r < ULTRALIGHT_SIGNATURE_SIZE then (Inl EBADMSG, d)
     else ul_read_counters (drop ULTRALIGHT_SIGNATURE_SIZE r)
       (d\<lparr>ul_has_signature := True, ul_signature := take ULTRALIGHT_SIGNATURE_SIZE r\<rparr>))"

definition ul_read_version :: "bytes \<Rightarrow> ultralight_data \<Rightarrow> unit result \<times> ultralight_data" where
  "ul_read_version r d = (case r of [] \<Rightarrow> (Inl EBADMSG, d)
   | has_version # r \<Rightarrow>
     if has_version = 0 then ul_read_signature r d
     else if length r < ULTRALIGHT_VERSION_SIZE then (Inl EBADMSG, d)
     else ul_read_signature (drop ULTRALIGHT_VERSION_SIZE r)
       (d\<lparr>ul_has_version := True, ul_version := take ULTRALIGHT_VERSION_SIZE r\<rparr>))"

definition ultralight_deserialize :: "bytes option \<Rightarrow> ultralight_data \<Rightarrow> unit result \<times> ultralight_data" where
  "ultralight_deserialize inp d = (case inp of
     None \<Rightarrow> (Inl EINVAL, d)
   | Some i \<Rightarrow>
     if length i < 4 then (Inl EBADMSG, d)
     else if i ! 0 \<noteq> ULTRALIGHT_FORMAT_VERSION then (Inl EBADMSG, d)
     else
       let d = ultralight_data_reset\<lparr>ul_variant := i ! 1\<rparr>; pages_total = unat (le16 (i ! 2) (i ! 3)) in
       if pages_total = 0 \<or> CONFIG_NFC_ULTRALIGHT_MAX_PAGES < pages_total then (Inl EBADMSG, d)
       else if length i < 4 + ultralight_blob_pages_len pages_total then (Inl EBADMSG, d)
       else
         let type = type_from_pages_total pages_total;
             d = d\<lparr>ul_pages_total := pages_total, ul_type := type,
                   ul_variant := (if ul_variant d = UL_VARIANT_UNKNOWN then variant_from_type type else ul_variant d),
                   ul_pages := memcpy_at (ul_pages d) 0
                     (map (\<lambda>k. sub_bytes (4 + k * ULTRALIGHT_PAGE_SIZE) ULTRALIGHT_PAGE_SIZE i) [0..<pages_total])\<rparr> in
         ul_read_version (drop (4 + ultralight_blob_pages_len pages_total) i) d)"

section \<open>The NDEF message\<close>

text \<open>The loop of \<open>ultralight_scan_ndef_tlv\<close>; the result is the offset and length of the message, or \<open>None\<close> for the
  NULL pointer.\<close>

function ultralight_scan_ndef_tlv :: "bytes \<Rightarrow> nat \<Rightarrow> (nat \<times> nat) option result" where
  "ultralight_scan_ndef_tlv data offset =
     (if \<not> offset < length data then Inr None
      else
        let tag = data ! offset in
        if tag = ULTRALIGHT_TLV_NULL then ultralight_scan_ndef_tlv data (offset + 1)
        else if tag = ULTRALIGHT_TLV_TERMINATOR then Inr None
        else if length data \<le> offset + 1 then Inl ENODATA
        else if data ! (offset + 1) = ULTRALIGHT_TLV_LONG_FORM \<and> length data \<le> offset + 3 then Inl ENODATA
        else
          let (tlv_len, offset) =
            (if data ! (offset + 1) = ULTRALIGHT_TLV_LONG_FORM
             then (unat (be16 (data ! (offset + 2)) (data ! (offset + 3))), offset + 4)
             else (unat (data ! (offset + 1)), offset + 2)) in
          if length data < offset + tlv_len then Inl ENODATA
          else if tag = ULTRALIGHT_TLV_NDEF then Inr (Some (offset, tlv_len))
          else ultralight_scan_ndef_tlv data (offset + tlv_len))"
  by pat_completeness auto
termination
  by (relation "measure (\<lambda>(data, offset). length data - offset)") (auto split: if_splits)

declare ultralight_scan_ndef_tlv.simps [simp del]

text \<open>The pages that are copied to the scan buffer.\<close>

definition ul_flat :: "ultralight_data \<Rightarrow> bytes" where
  "ul_flat d = concat (map (take ULTRALIGHT_PAGE_SIZE) (take (ULTRALIGHT_NDEF_SCAN_MAX div ULTRALIGHT_PAGE_SIZE)
     (drop ULTRALIGHT_DATA_START_PAGE (take (ul_pages_total d) (ul_pages d)))))"

text \<open>The C function returns a pointer into its own stack frame; the model returns the bytes it points to at the return.\<close>

definition ultralight_extract_ndef :: "ultralight_data \<Rightarrow> bytes option result" where
  "ultralight_extract_ndef d =
     (if ul_pages_total d \<le> ULTRALIGHT_CC_PAGE then Inr None
      else if ul_pages d ! ULTRALIGHT_CC_PAGE ! 0 \<noteq> 0xE1 then Inr None
      else case ultralight_scan_ndef_tlv (ul_flat d) 0 of
        Inl e \<Rightarrow> if e = ENODATA then Inr None else Inl e
      | Inr None \<Rightarrow> Inr None
      | Inr (Some (off, n)) \<Rightarrow> Inr (Some (sub_bytes off n (ul_flat d))))"

section \<open>Password configuration\<close>

definition ultralight_type_has_password_config :: "ultralight_type \<Rightarrow> bool" where
  "ultralight_type_has_password_config type \<longleftrightarrow> type \<in> {UL_TYPE_NTAG213, UL_TYPE_NTAG215, UL_TYPE_NTAG216}"

text \<open>The indices of AUTH0, ACCESS, PWD and PACK.\<close>

definition ultralight_config_page_indices :: "nat \<Rightarrow> nat \<times> nat \<times> nat \<times> nat" where
  "ultralight_config_page_indices pages_total =
     (if pages_total < ULTRALIGHT_CONFIG_BLOCK_PAGES then (0, 0, 0, 0)
      else (pages_total - 4, pages_total - 3, pages_total - 2, pages_total - 1))"

definition ultralight_config_zero :: ultralight_config where
  "ultralight_config_zero = \<lparr>uc_auth0 = 0, uc_prot = False, uc_authlim = 0, uc_pwd = replicate 4 0,
     uc_pack = replicate 2 0, uc_valid = False\<rparr>"

definition ultralight_parse_config :: "ultralight_data \<Rightarrow> ultralight_config" where
  "ultralight_parse_config d =
     (let cfg = ultralight_config_zero; (auth0_page, access_page, pwd_page, pack_page) =
            ultralight_config_page_indices (ul_pages_total d) in
      if \<not> ultralight_type_has_password_config (ul_type d) then cfg
      else if ul_pages_total d < ULTRALIGHT_CONFIG_BLOCK_PAGES then cfg
      else if ul_pages_read d \<le> auth0_page then cfg
      else \<lparr>uc_auth0 = ul_pages d ! auth0_page ! 3, uc_prot = (ul_pages d ! access_page ! 0 AND 0x80 \<noteq> 0),
             uc_authlim = ul_pages d ! access_page ! 0 AND 0x07, uc_pwd = take 4 (ul_pages d ! pwd_page),
             uc_pack = [ul_pages d ! pack_page ! 0, ul_pages d ! pack_page ! 1], uc_valid = True\<rparr>)"

definition ultralight_read_protection_enabled :: "ultralight_config \<Rightarrow> bool" where
  "ultralight_read_protection_enabled cfg \<longleftrightarrow> uc_valid cfg \<and> uc_auth0 cfg \<noteq> ULTRALIGHT_AUTH0_NONE"

definition ultralight_page_needs_auth :: "ultralight_config \<Rightarrow> nat \<Rightarrow> bool" where
  "ultralight_page_needs_auth cfg page \<longleftrightarrow>
     ultralight_read_protection_enabled cfg \<and> uc_prot cfg \<and> unat (uc_auth0 cfg) \<le> page"

section \<open>Buffers and the round trip\<close>

definition ultralight_ok :: "ultralight_data \<Rightarrow> bool" where
  "ultralight_ok d \<longleftrightarrow> length (ul_pages d) = CONFIG_NFC_ULTRALIGHT_MAX_PAGES \<and> (\<forall>p \<in> set (ul_pages d). length p = ULTRALIGHT_PAGE_SIZE) \<and>
     ul_pages_total d \<le> CONFIG_NFC_ULTRALIGHT_MAX_PAGES \<and> ul_pages_read d \<le> CONFIG_NFC_ULTRALIGHT_MAX_PAGES \<and>
     length (ul_version d) = ULTRALIGHT_VERSION_SIZE \<and> length (ul_signature d) = ULTRALIGHT_SIGNATURE_SIZE \<and>
     length (ul_counters d) = ULTRALIGHT_COUNTER_NUM \<and> (\<forall>c \<in> set (ul_counters d). length c = 3) \<and>
     ul_counter_count d \<le> ULTRALIGHT_COUNTER_NUM \<and>
     length (ul_tearing_flags d) = ULTRALIGHT_TEARING_FLAG_NUM \<and> ul_tearing_flag_count d \<le> ULTRALIGHT_TEARING_FLAG_NUM"

lemma ultralight_reset_ok [simp]: "ultralight_ok ultralight_data_reset"
  by (simp add: ultralight_ok_def ultralight_data_reset_def)

lemma ul_read_tearing_ok: "ultralight_ok d \<Longrightarrow> ultralight_ok (snd (ul_read_tearing r d))"
  by (auto simp: ul_read_tearing_def ultralight_ok_def geom_simps split: list.split)

lemma ultralight_ok_counters:
  assumes "ultralight_ok d" "\<forall>p \<in> set rows. length p = 3" "length rows \<le> ULTRALIGHT_COUNTER_NUM"
  shows "ultralight_ok (d\<lparr>ul_counter_count := length rows, ul_counters := memcpy_at (ul_counters d) 0 rows\<rparr>)"
proof -
  have "length (ul_counters d) = 3" "\<forall>p \<in> set (ul_counters d). length p = 3" using assms(1) by (simp_all add: ultralight_ok_def)
  then have "length (memcpy_at (ul_counters d) 0 rows) = 3" "\<forall>p \<in> set (memcpy_at (ul_counters d) 0 rows). length p = 3"
    using assms(3) memcpy_at_rows [OF _ assms(2)] by (simp add: geom_simps, blast)
  with assms(1,3) show ?thesis by (simp add: ultralight_ok_def)
qed

lemma ul_read_counters_ok:
  assumes "ultralight_ok d"
  shows "ultralight_ok (snd (ul_read_counters r d))"
proof (cases "\<exists>c r'. r = c # r' \<and> unat c \<le> 3 \<and> unat c * 3 \<le> length r'")
  case True
  then obtain c r' where r: "r = c # r'" "unat c \<le> 3" "unat c * 3 \<le> length r'" by blast
  let ?rows = "map (\<lambda>k. sub_bytes (3 * k) 3 r') [0..<unat c]"
  have "\<forall>p \<in> set ?rows. length p = 3"
    using length_sub_bytes_rows [of 0 3 "unat c" r'] r(3) by (simp only: mult.commute add_0) blast
  from ul_read_tearing_ok [OF ultralight_ok_counters [OF assms this], of "drop (unat c * 3) r'"] r show ?thesis
    by (simp add: ul_read_counters_def)
next
  case False
  with assms show ?thesis by (auto simp: ul_read_counters_def not_less split: list.split)
qed

lemma ul_read_signature_ok: "ultralight_ok d \<Longrightarrow> ultralight_ok (snd (ul_read_signature r d))"
proof -
  assume "ultralight_ok d"
  moreover from this have "32 \<le> length xs \<Longrightarrow> ultralight_ok (d\<lparr>ul_has_signature := True, ul_signature := take 32 xs\<rparr>)" for xs
    by (simp add: ultralight_ok_def)
  ultimately show ?thesis by (auto simp: ul_read_signature_def intro!: ul_read_counters_ok split: list.split)
qed

lemma ul_read_version_ok: "ultralight_ok d \<Longrightarrow> ultralight_ok (snd (ul_read_version r d))"
proof -
  assume "ultralight_ok d"
  moreover from this have "8 \<le> length xs \<Longrightarrow> ultralight_ok (d\<lparr>ul_has_version := True, ul_version := take 8 xs\<rparr>)" for xs
    by (simp add: ultralight_ok_def)
  ultimately show ?thesis by (auto simp: ul_read_version_def intro!: ul_read_signature_ok split: list.split)
qed

lemma ultralight_ok_pages:
  "ultralight_ok d \<Longrightarrow> length ps = CONFIG_NFC_ULTRALIGHT_MAX_PAGES \<Longrightarrow> \<forall>p \<in> set ps. length p = ULTRALIGHT_PAGE_SIZE \<Longrightarrow>
    n \<le> CONFIG_NFC_ULTRALIGHT_MAX_PAGES \<Longrightarrow> ultralight_ok (d\<lparr>ul_pages_total := n, ul_type := t, ul_variant := v, ul_pages := ps\<rparr>)"
  by (simp add: ultralight_ok_def)

lemma ultralight_deserialize_ok:
  assumes "ultralight_ok d"
  shows "ultralight_ok (snd (ultralight_deserialize inp d))"
proof (cases inp)
  case (Some i)
  let ?n = "unat (le16 (i ! 2) (i ! 3))"
  let ?rows = "map (\<lambda>k. sub_bytes (4 + k * 4) 4 i) [0..<?n]"
  let ?r = "ultralight_data_reset\<lparr>ul_variant := i ! 1\<rparr>"
  have r: "ultralight_ok ?r" using ultralight_reset_ok by (simp add: ultralight_ok_def)
  show ?thesis
  proof (cases "length i < 4 \<or> i ! 0 \<noteq> 1 \<or> ?n = 0 \<or> 256 < ?n \<or> length i < 4 + ?n * 4")
    case False
    then have n: "?n \<le> 256" and l: "4 + 4 * ?n \<le> length i" by auto
    have "\<forall>p \<in> set ?rows. length p = 4" using length_sub_bytes_rows [OF l] by blast
    moreover have "\<forall>p \<in> set (ul_pages ?r). length p = 4" "length (ul_pages ?r) = 256" using r by (simp_all add: ultralight_ok_def)
    ultimately have "\<forall>p \<in> set (memcpy_at (ul_pages ?r) 0 ?rows). length p = 4" "length (memcpy_at (ul_pages ?r) 0 ?rows) = 256"
      using memcpy_at_rows n by (blast, simp add: geom_simps)
    from ul_read_version_ok [OF ultralight_ok_pages [OF r this(2,1) n]] False show ?thesis
      by (simp add: Some ultralight_deserialize_def ultralight_blob_pages_len_def Let_def del: upt_Suc upt_rec_numeral)
  next
    case True
    with assms r show ?thesis
      by (auto simp: Some ultralight_deserialize_def ultralight_blob_pages_len_def Let_def)
  qed
qed (simp add: ultralight_deserialize_def assms)

text \<open>What a blob keeps of a card.\<close>

definition ultralight_stored :: "ultralight_data \<Rightarrow> ultralight_data" where
  "ultralight_stored d = (let type = type_from_pages_total (ul_pages_total d) in
     ultralight_data_reset\<lparr>
       ul_pages := memcpy_at (ul_pages ultralight_data_reset) 0 (take (ul_pages_total d) (ul_pages d)),
       ul_pages_total := ul_pages_total d, ul_pages_read := ul_pages_total d, ul_type := type,
       ul_variant := (if ul_variant d = UL_VARIANT_UNKNOWN then variant_from_type type else ul_variant d),
       ul_version := (if ul_has_version d then ul_version d else replicate 8 0), ul_has_version := ul_has_version d,
       ul_signature := (if ul_has_signature d then ul_signature d else replicate 32 0), ul_has_signature := ul_has_signature d,
       ul_counters := memcpy_at (replicate 3 (replicate 3 0)) 0 (take (ul_counter_count d) (ul_counters d)),
       ul_counter_count := ul_counter_count d,
       ul_tearing_flags := memcpy_at (replicate 3 0) 0 (take (ul_tearing_flag_count d) (ul_tearing_flags d)),
       ul_tearing_flag_count := ul_tearing_flag_count d\<rparr>)"

text \<open>The bytes of a card in the order of the blob.\<close>

definition ultralight_blob_tail :: "ultralight_data \<Rightarrow> bytes" where
  "ultralight_blob_tail d = (if ul_has_version d then 1 # ul_version d else [0]) @ (if ul_has_signature d then 1 # ul_signature d else [0])
     @ (lo8 (ul_counter_count d) # concat (take (ul_counter_count d) (ul_counters d)))
     @ (lo8 (ul_tearing_flag_count d) # take (ul_tearing_flag_count d) (ul_tearing_flags d))"

definition ultralight_blob :: "ultralight_data \<Rightarrow> bytes" where
  "ultralight_blob d = [1, ul_variant d, lo8 (ul_pages_total d), hi8 (ul_pages_total d)]
     @ concat (take (ul_pages_total d) (ul_pages d)) @ ultralight_blob_tail d"

lemma map_take_rows: "list_all (\<lambda>x. length x = n) xs \<Longrightarrow> map (take n) xs = xs"
  by (simp add: list_all_iff map_idI)

lemma list_all_take: "list_all P xs \<Longrightarrow> list_all P (take k xs)"
  by (auto simp: list_all_iff dest: in_set_takeD)

lemma ultralight_ok_rows:
  assumes "ultralight_ok d"
  shows "list_all (\<lambda>x. length x = 4) (take k (ul_pages d))" "list_all (\<lambda>x. length x = 3) (take k (ul_counters d))"
  using assms by (auto simp: ultralight_ok_def list_all_iff dest: in_set_takeD)

text \<open>Each part of the tail is read back.\<close>

lemma ul_read_tearing_back:
  assumes "ultralight_ok d"
  shows "ul_read_tearing (lo8 (ul_tearing_flag_count d) # take (ul_tearing_flag_count d) (ul_tearing_flags d)) e =
    (Inr (), e\<lparr>ul_tearing_flag_count := ul_tearing_flag_count d,
       ul_tearing_flags := memcpy_at (ul_tearing_flags e) 0 (take (ul_tearing_flag_count d) (ul_tearing_flags d)),
       ul_pages_read := ul_pages_total e\<rparr>)"
proof -
  have "ul_tearing_flag_count d \<le> 3" "length (ul_tearing_flags d) = 3" using assms by (simp_all add: ultralight_ok_def)
  then have "unat (lo8 (ul_tearing_flag_count d)) = ul_tearing_flag_count d" by (simp add: unat_lo8)
  with \<open>ul_tearing_flag_count d \<le> 3\<close> \<open>length _ = 3\<close> show ?thesis by (simp add: ul_read_tearing_def)
qed

lemma ul_read_counters_back:
  assumes "ultralight_ok d"
  shows "ul_read_counters (lo8 (ul_counter_count d) # concat (take (ul_counter_count d) (ul_counters d)) @ r) e =
    ul_read_tearing r (e\<lparr>ul_counter_count := ul_counter_count d,
       ul_counters := memcpy_at (ul_counters e) 0 (take (ul_counter_count d) (ul_counters d))\<rparr>)"
proof -
  let ?c = "ul_counter_count d" and ?rows = "take (ul_counter_count d) (ul_counters d)"
  have c: "?c \<le> 3" "length ?rows = ?c" using assms by (simp_all add: ultralight_ok_def)
  then have u: "unat (lo8 ?c) = ?c" by (simp add: unat_lo8)
  have l: "length (concat ?rows) = 3 * ?c" using length_concat_eq [OF ultralight_ok_rows(2) [OF assms]] c(2) by simp
  have "map (\<lambda>k. sub_bytes (3 * k) 3 (concat ?rows @ r)) [0..<?c] = ?rows"
    using sub_bytes_rows [OF ultralight_ok_rows(2) [OF assms, of ?c], of 0 "[]" r] c(2) by (simp add: mult.commute)
  with c l show ?thesis by (simp add: ul_read_counters_def u mult.commute)
qed

lemma ul_read_version_back:
  assumes "ultralight_ok d"
  shows "ul_read_version (ultralight_blob_tail d) e =
    (Inr (), e\<lparr>ul_pages_read := ul_pages_total e,
       ul_version := (if ul_has_version d then ul_version d else ul_version e), ul_has_version := ul_has_version d \<or> ul_has_version e,
       ul_signature := (if ul_has_signature d then ul_signature d else ul_signature e),
       ul_has_signature := ul_has_signature d \<or> ul_has_signature e,
       ul_counters := memcpy_at (ul_counters e) 0 (take (ul_counter_count d) (ul_counters d)),
       ul_counter_count := ul_counter_count d,
       ul_tearing_flags := memcpy_at (ul_tearing_flags e) 0 (take (ul_tearing_flag_count d) (ul_tearing_flags d)),
       ul_tearing_flag_count := ul_tearing_flag_count d\<rparr>)"
proof -
  have v: "length (ul_version d) = 8" and g: "length (ul_signature d) = 32" using assms by (simp_all add: ultralight_ok_def)
  have sig: "ul_read_signature ((if ul_has_signature d then 1 # ul_signature d else [0]) @ r) f =
    ul_read_counters r (f\<lparr>ul_has_signature := ul_has_signature d \<or> ul_has_signature f,
      ul_signature := (if ul_has_signature d then ul_signature d else ul_signature f)\<rparr>)" for r f
    using g by (simp add: ul_read_signature_def)
  have ver: "ul_read_version ((if ul_has_version d then 1 # ul_version d else [0]) @ r) f =
    ul_read_signature r (f\<lparr>ul_has_version := ul_has_version d \<or> ul_has_version f,
      ul_version := (if ul_has_version d then ul_version d else ul_version f)\<rparr>)" for r f
    using v by (simp add: ul_read_version_def)
  show ?thesis
    unfolding ultralight_blob_tail_def append_Cons append_assoc ver sig ul_read_counters_back [OF assms] ul_read_tearing_back [OF assms]
    by (simp add: ultralight_data.equality)
qed

lemma ultralight_serial_len_blob:
  assumes "ultralight_ok d"
  shows "ultralight_serial_len d = length (ultralight_blob d)"
proof -
  have "length (concat (take (ul_pages_total d) (ul_pages d))) = 4 * ul_pages_total d"
    "length (concat (take (ul_counter_count d) (ul_counters d))) = 3 * ul_counter_count d"
    using assms by (simp_all add: length_concat_eq [OF ultralight_ok_rows(1)] length_concat_eq [OF ultralight_ok_rows(2)] ultralight_ok_def)
  with assms show ?thesis
    by (simp add: ultralight_serial_len_def ultralight_blob_pages_len_def ultralight_blob_def ultralight_blob_tail_def ultralight_ok_def)
qed

lemma ultralight_serialize_blob:
  assumes "ultralight_ok d" "0 < ul_pages_total d"
  shows "ultralight_serialize (Some d) (Some n) =
    (if n < ultralight_serial_len d then Inl ENOSPC else Inr (ultralight_blob d))"
proof -
  have "\<not> 256 < ul_pages_total d" using assms by (simp add: ultralight_ok_def)
  with assms show ?thesis
    unfolding ultralight_serialize_def
    by (simp add: map_take_rows [OF ultralight_ok_rows(1)] map_take_rows [OF ultralight_ok_rows(2)])
      (simp add: ultralight_blob_def ultralight_blob_tail_def ultralight_ok_def)
qed

text \<open>The header and the pages of a blob, whatever follows them.\<close>

lemma ultralight_deserialize_pages:
  assumes "ultralight_ok d" "0 < ul_pages_total d"
  shows "ultralight_deserialize (Some ([1, ul_variant d, lo8 (ul_pages_total d), hi8 (ul_pages_total d)]
      @ concat (take (ul_pages_total d) (ul_pages d)) @ tail)) e =
    ul_read_version tail (let type = type_from_pages_total (ul_pages_total d) in
     ultralight_data_reset\<lparr>ul_pages_total := ul_pages_total d, ul_type := type,
       ul_variant := (if ul_variant d = UL_VARIANT_UNKNOWN then variant_from_type type else ul_variant d),
       ul_pages := memcpy_at (ul_pages ultralight_data_reset) 0 (take (ul_pages_total d) (ul_pages d))\<rparr>)"
proof -
  let ?n = "ul_pages_total d"
  let ?rows = "take ?n (ul_pages d)"
  let ?b = "[1, ul_variant d, lo8 ?n, hi8 ?n] @ concat ?rows @ tail"
  have n: "?n \<le> 256" "length ?rows = ?n" using assms by (simp_all add: ultralight_ok_def)
  have lr: "length (concat ?rows) = 4 * ?n" using length_concat_eq [OF ultralight_ok_rows(1) [OF assms(1)]] n by simp
  have u: "unat (le16 (lo8 ?n) (hi8 ?n)) = ?n" using n by (simp add: unat_le16_lo_hi)
  have pages: "map (\<lambda>k. sub_bytes (4 + k * 4) 4 ?b) [0..<?n] = ?rows"
    using sub_bytes_rows [OF ultralight_ok_rows(1) [OF assms(1), of ?n], of 4 "[1, ul_variant d, lo8 ?n, hi8 ?n]" tail] n by simp
  have b: "?b ! 0 = 1" "?b ! 1 = ul_variant d" "?b ! 2 = lo8 ?n" "?b ! 3 = hi8 ?n" by simp_all
  have "drop (4 + ?n * 4) xs = drop (4 * ?n) (drop 4 xs)" for xs :: bytes by (simp add: ac_simps)
  from this [of ?b] have "drop (4 + ?n * 4) ?b = drop (4 * ?n) (concat ?rows @ tail)" by simp
  then have t: "drop (4 + ?n * 4) ?b = tail" and l: "4 + ?n * 4 \<le> length ?b" using lr by simp_all
  then have f: "\<not> length ?b < 4" "\<not> length ?b < 4 + ?n * 4" "\<not> 256 < ?n" using l n by linarith+
  show ?thesis
    unfolding ultralight_deserialize_def option.case Let_def b u ultralight_blob_pages_len_def pages t
    using f assms(2) by simp
qed

lemma ultralight_deserialize_blob:
  assumes "ultralight_ok d" "0 < ul_pages_total d"
  shows "ultralight_deserialize (Some (ultralight_blob d)) e = (Inr (), ultralight_stored d)"
  unfolding ultralight_blob_def ultralight_deserialize_pages [OF assms] ul_read_version_back [OF assms(1)]
  by (simp add: ultralight_stored_def Let_def) (simp add: ultralight_data_reset_def)

text \<open>C27. A blob written by the serialiser is read back, whatever the structure held before: the result is the card
  with its type derived from its size, and the pages past its end cleared.  The serialiser fails only for lack of room.\<close>

theorem ultralight_serialize_deserialize:
  assumes "ultralight_ok d" "0 < ul_pages_total d"
  shows "ultralight_serialize (Some d) (Some n) = (if n < ultralight_serial_len d then Inl ENOSPC else Inr (ultralight_blob d)) \<and>
    length (ultralight_blob d) = ultralight_serial_len d \<and>
    ultralight_deserialize (Some (ultralight_blob d)) e = (Inr (), ultralight_stored d)"
  using ultralight_serialize_blob [OF assms] ultralight_serial_len_blob [OF assms(1)] ultralight_deserialize_blob [OF assms] by simp

section \<open>The search for the NDEF message\<close>

text \<open>Two equations for the loop: a NULL byte is skipped, and a block with a length is stepped over or returned.\<close>

definition tlv_block :: "u8 \<Rightarrow> bool \<Rightarrow> bytes \<Rightarrow> bytes" where
  "tlv_block tag long v = tag # (if long then [0xFF, hi8 (length v), lo8 (length v)] else [lo8 (length v)]) @ v"

definition tlv_fits :: "bool \<Rightarrow> bytes \<Rightarrow> bool" where
  "tlv_fits long v \<longleftrightarrow> length v < (if long then 65536 else 255)"

lemma scan_null:
  "data = pre @ 0 # r \<Longrightarrow> ultralight_scan_ndef_tlv data (length pre) = ultralight_scan_ndef_tlv data (length (pre @ [0]))"
  by (subst ultralight_scan_ndef_tlv.simps) simp

lemma scan_block:
  assumes "data = pre @ tlv_block tag long v @ r" "tag \<noteq> 0" "tag \<noteq> 0xFE" "tlv_fits long v"
  shows "ultralight_scan_ndef_tlv data (length pre) =
    (if tag = 3 then Inr (Some (length pre + length (tlv_block tag long v) - length v, length v))
     else ultralight_scan_ndef_tlv data (length (pre @ tlv_block tag long v)))"
proof (cases long)
  case True
  then have "data ! length pre = tag" "data ! (length pre + 1) = 0xFF" "data ! (length pre + 2) = hi8 (length v)"
    "data ! (length pre + 3) = lo8 (length v)" "length data = length pre + 4 + length v + length r"
    using assms(1) by (simp_all add: tlv_block_def nth_append)
  moreover have "unat (be16 (hi8 (length v)) (lo8 (length v))) = length v"
    using assms(4) True by (simp add: unat_be16_hi_lo tlv_fits_def)
  ultimately show ?thesis
    using assms(2,3) True by (subst ultralight_scan_ndef_tlv.simps) (simp add: tlv_block_def Let_def ac_simps eval_nat_numeral)
next
  case False
  then have "length v < 255" using assms(4) by (simp add: tlv_fits_def)
  then have u: "unat (lo8 (length v)) = length v" by (simp add: unat_lo8)
  then have "lo8 (length v) \<noteq> 0xFF" using \<open>length v < 255\<close> by auto
  moreover have "data ! length pre = tag" "data ! (length pre + 1) = lo8 (length v)" "length data = length pre + 2 + length v + length r"
    using assms(1) False by (simp_all add: tlv_block_def nth_append)
  ultimately show ?thesis
    using assms(2,3) False u by (subst ultralight_scan_ndef_tlv.simps) (simp add: tlv_block_def Let_def ac_simps)
qed

text \<open>Blocks before the message: a NULL byte, or a block with another tag.\<close>

fun tlv_bytes :: "(u8 \<times> bool \<times> bytes) option list \<Rightarrow> bytes" where
  "tlv_bytes [] = []"
| "tlv_bytes (None # ts) = 0 # tlv_bytes ts"
| "tlv_bytes (Some (tag, long, v) # ts) = tlv_block tag long v @ tlv_bytes ts"

fun tlv_other :: "(u8 \<times> bool \<times> bytes) option \<Rightarrow> bool" where
  "tlv_other None = True"
| "tlv_other (Some (tag, long, v)) \<longleftrightarrow> tag \<notin> {ULTRALIGHT_TLV_NULL, ULTRALIGHT_TLV_NDEF, ULTRALIGHT_TLV_TERMINATOR} \<and> tlv_fits long v"

lemma scan_skips:
  "list_all tlv_other ts \<Longrightarrow> data = pre @ tlv_bytes ts @ r \<Longrightarrow>
    ultralight_scan_ndef_tlv data (length pre) = ultralight_scan_ndef_tlv data (length (pre @ tlv_bytes ts))"
proof (induction ts arbitrary: pre rule: tlv_bytes.induct)
  case (2 ts)
  from 2(1) [of "pre @ [0]"] 2(2,3) scan_null [of data pre "tlv_bytes ts @ r"] show ?case by simp
next
  case (3 tag long v ts)
  from 3(1) [of "pre @ tlv_block tag long v"] 3(2,3) scan_block [of data pre tag long v "tlv_bytes ts @ r"] show ?case by simp
qed simp

lemma scan_finds:
  assumes "list_all tlv_other ts" "tlv_fits long msg" "data = tlv_bytes ts @ tlv_block ULTRALIGHT_TLV_NDEF long msg @ r"
  shows "\<exists>off. ultralight_scan_ndef_tlv data 0 = Inr (Some (off, length msg)) \<and> sub_bytes off (length msg) data = msg"
proof (intro exI conjI)
  let ?off = "length (tlv_bytes ts) + length (tlv_block 3 long msg) - length msg"
  show "ultralight_scan_ndef_tlv data 0 = Inr (Some (?off, length msg))"
    using scan_skips [OF assms(1), of data "[]" "tlv_block 3 long msg @ r"] scan_block [of data "tlv_bytes ts" 3 long msg r] assms(2,3)
    by simp
  show "sub_bytes ?off (length msg) data = msg"
    unfolding assms(3) tlv_block_def sub_bytes_def by (cases long) simp_all
qed

text \<open>The search never fails with another error than \<open>ENODATA\<close>, and what it returns lies inside the data.\<close>

definition scan_result_ok :: "bytes \<Rightarrow> (nat \<times> nat) option result \<Rightarrow> bool" where
  "scan_result_ok data r \<longleftrightarrow> (case r of Inl e \<Rightarrow> e = ENODATA | Inr None \<Rightarrow> True | Inr (Some (off, n)) \<Rightarrow> off + n \<le> length data)"

lemma scan_ok: "scan_result_ok data (ultralight_scan_ndef_tlv data offset)"
proof (induction "length data - offset" arbitrary: offset rule: less_induct)
  case less
  show ?case
    using less [of "offset + 1"] less [of "offset + 2 + unat (data ! (offset + 1))"]
      less [of "offset + 4 + unat (be16 (data ! (offset + 2)) (data ! (offset + 3)))"]
    by (subst ultralight_scan_ndef_tlv.simps) (simp add: Let_def, simp add: scan_result_ok_def)
qed

lemma length_ul_flat:
  assumes "ultralight_ok d"
  shows "length (ul_flat d) \<le> ULTRALIGHT_NDEF_SCAN_MAX"
proof -
  let ?ps = "take 141 (drop 4 (take (ul_pages_total d) (ul_pages d)))"
  have "list_all (\<lambda>x. length x = 4) ?ps" using assms by (auto simp: ultralight_ok_def list_all_iff dest: in_set_takeD in_set_dropD)
  then have "length (ul_flat d) = 4 * length ?ps" unfolding ul_flat_def by (simp add: map_take_rows length_concat_eq)
  then show ?thesis by simp
qed


text \<open>An NTAG213 with a lock-control block before a five-byte message.\<close>

definition sample_ntag :: ultralight_data where
  "sample_ntag = ultralight_data_reset\<lparr>ul_type := UL_TYPE_NTAG213, ul_pages_total := 45, ul_pages_read := 45,
     ul_has_version := True, ul_version := [0, 4, 4, 2, 1, 0, 0x0F, 3],
     ul_pages := memcpy_at (replicate 256 (replicate 4 0)) 0
       ([[4, 1, 2, 3], [4, 5, 6, 7], [0, 0, 0, 0], [0xE1, 0x10, 0x12, 0], [1, 3, 0xA0, 0x0C], [0x34, 3, 5, 0xD1], [1, 1, 0x54, 0x41], [0xFE, 0, 0, 0]]
        @ replicate 33 (replicate 4 0) @ [[0, 0, 0, 0xFF], [0, 0, 0, 0], [1, 2, 3, 4], [9, 8, 0, 0]])\<rparr>"

lemma sample_ntag_ok: "ultralight_ok sample_ntag"
  by (simp add: sample_ntag_def ultralight_ok_def ultralight_data_reset_def memcpy_at_def)

lemma sample_ntag_flat: "ul_flat sample_ntag = tlv_bytes [Some (1, False, [0xA0, 0x0C, 0x34])] @
    tlv_block ULTRALIGHT_TLV_NDEF False [0xD1, 1, 1, 0x54, 0x41] @ drop 12 (ul_flat sample_ntag)"
proof -
  have "take 12 (ul_flat sample_ntag) = tlv_bytes [Some (1, False, [0xA0, 0x0C, 0x34])] @ tlv_block ULTRALIGHT_TLV_NDEF False [0xD1, 1, 1, 0x54, 0x41]"
    by code_simp
  then show ?thesis by (metis append_assoc append_take_drop_id)
qed


theorem ultralight_serialize_deserialize_witness:
  "ultralight_deserialize (Some (ultralight_blob sample_ntag)) ultralight_data_reset = (Inr (), ultralight_stored sample_ntag)"
proof -
  have "0 < ul_pages_total sample_ntag" by (simp add: sample_ntag_def)
  from ultralight_serialize_deserialize [OF sample_ntag_ok this] show ?thesis by blast
qed

end
