(* ===== verification/Ultralight_Des.thy ===== *)
theory Ultralight_Des
  imports Crypto1
begin

text \<open>
  DES and two-key triple DES in CBC mode (\<open>protocols/ultralight/ultralight_des.c\<close>, \<open>ultralight_3des.c\<close>), used by the
  Ultralight C authentication.  Decryption is shown to invert encryption for every key, from the Feistel structure
  and the inverse permutations, without evaluating the tables.
\<close>

section \<open>Tables\<close>

definition SB1 :: "u32 list" where
  "SB1 = [
    0x01010400, 0x00000000, 0x00010000, 0x01010404,
    0x01010004, 0x00010404, 0x00000004, 0x00010000,
    0x00000400, 0x01010400, 0x01010404, 0x00000400,
    0x01000404, 0x01010004, 0x01000000, 0x00000004,
    0x00000404, 0x01000400, 0x01000400, 0x00010400,
    0x00010400, 0x01010000, 0x01010000, 0x01000404,
    0x00010004, 0x01000004, 0x01000004, 0x00010004,
    0x00000000, 0x00000404, 0x00010404, 0x01000000,
    0x00010000, 0x01010404, 0x00000004, 0x01010000,
    0x01010400, 0x01000000, 0x01000000, 0x00000400,
    0x01010004, 0x00010000, 0x00010400, 0x01000004,
    0x00000400, 0x00000004, 0x01000404, 0x00010404,
    0x01010404, 0x00010004, 0x01010000, 0x01000404,
    0x01000004, 0x00000404, 0x00010404, 0x01010400,
    0x00000404, 0x01000400, 0x01000400, 0x00000000,
    0x00010004, 0x00010400, 0x00000000, 0x01010004]"

definition SB2 :: "u32 list" where
  "SB2 = [
    0x80108020, 0x80008000, 0x00008000, 0x00108020,
    0x00100000, 0x00000020, 0x80100020, 0x80008020,
    0x80000020, 0x80108020, 0x80108000, 0x80000000,
    0x80008000, 0x00100000, 0x00000020, 0x80100020,
    0x00108000, 0x00100020, 0x80008020, 0x00000000,
    0x80000000, 0x00008000, 0x00108020, 0x80100000,
    0x00100020, 0x80000020, 0x00000000, 0x00108000,
    0x00008020, 0x80108000, 0x80100000, 0x00008020,
    0x00000000, 0x00108020, 0x80100020, 0x00100000,
    0x80008020, 0x80100000, 0x80108000, 0x00008000,
    0x80100000, 0x80008000, 0x00000020, 0x80108020,
    0x00108020, 0x00000020, 0x00008000, 0x80000000,
    0x00008020, 0x80108000, 0x00100000, 0x80000020,
    0x00100020, 0x80008020, 0x80000020, 0x00100020,
    0x00108000, 0x00000000, 0x80008000, 0x00008020,
    0x80000000, 0x80100020, 0x80108020, 0x00108000]"

definition SB3 :: "u32 list" where
  "SB3 = [
    0x00000208, 0x08020200, 0x00000000, 0x08020008,
    0x08000200, 0x00000000, 0x00020208, 0x08000200,
    0x00020008, 0x08000008, 0x08000008, 0x00020000,
    0x08020208, 0x00020008, 0x08020000, 0x00000208,
    0x08000000, 0x00000008, 0x08020200, 0x00000200,
    0x00020200, 0x08020000, 0x08020008, 0x00020208,
    0x08000208, 0x00020200, 0x00020000, 0x08000208,
    0x00000008, 0x08020208, 0x00000200, 0x08000000,
    0x08020200, 0x08000000, 0x00020008, 0x00000208,
    0x00020000, 0x08020200, 0x08000200, 0x00000000,
    0x00000200, 0x00020008, 0x08020208, 0x08000200,
    0x08000008, 0x00000200, 0x00000000, 0x08020008,
    0x08000208, 0x00020000, 0x08000000, 0x08020208,
    0x00000008, 0x00020208, 0x00020200, 0x08000008,
    0x08020000, 0x08000208, 0x00000208, 0x08020000,
    0x00020208, 0x00000008, 0x08020008, 0x00020200]"

definition SB4 :: "u32 list" where
  "SB4 = [
    0x00802001, 0x00002081, 0x00002081, 0x00000080,
    0x00802080, 0x00800081, 0x00800001, 0x00002001,
    0x00000000, 0x00802000, 0x00802000, 0x00802081,
    0x00000081, 0x00000000, 0x00800080, 0x00800001,
    0x00000001, 0x00002000, 0x00800000, 0x00802001,
    0x00000080, 0x00800000, 0x00002001, 0x00002080,
    0x00800081, 0x00000001, 0x00002080, 0x00800080,
    0x00002000, 0x00802080, 0x00802081, 0x00000081,
    0x00800080, 0x00800001, 0x00802000, 0x00802081,
    0x00000081, 0x00000000, 0x00000000, 0x00802000,
    0x00002080, 0x00800080, 0x00800081, 0x00000001,
    0x00802001, 0x00002081, 0x00002081, 0x00000080,
    0x00802081, 0x00000081, 0x00000001, 0x00002000,
    0x00800001, 0x00002001, 0x00802080, 0x00800081,
    0x00002001, 0x00002080, 0x00800000, 0x00802001,
    0x00000080, 0x00800000, 0x00002000, 0x00802080]"

definition SB5 :: "u32 list" where
  "SB5 = [
    0x00000100, 0x02080100, 0x02080000, 0x42000100,
    0x00080000, 0x00000100, 0x40000000, 0x02080000,
    0x40080100, 0x00080000, 0x02000100, 0x40080100,
    0x42000100, 0x42080000, 0x00080100, 0x40000000,
    0x02000000, 0x40080000, 0x40080000, 0x00000000,
    0x40000100, 0x42080100, 0x42080100, 0x02000100,
    0x42080000, 0x40000100, 0x00000000, 0x42000000,
    0x02080100, 0x02000000, 0x42000000, 0x00080100,
    0x00080000, 0x42000100, 0x00000100, 0x02000000,
    0x40000000, 0x02080000, 0x42000100, 0x40080100,
    0x02000100, 0x40000000, 0x42080000, 0x02080100,
    0x40080100, 0x00000100, 0x02000000, 0x42080000,
    0x42080100, 0x00080100, 0x42000000, 0x42080100,
    0x02080000, 0x00000000, 0x40080000, 0x42000000,
    0x00080100, 0x02000100, 0x40000100, 0x00080000,
    0x00000000, 0x40080000, 0x02080100, 0x40000100]"

definition SB6 :: "u32 list" where
  "SB6 = [
    0x20000010, 0x20400000, 0x00004000, 0x20404010,
    0x20400000, 0x00000010, 0x20404010, 0x00400000,
    0x20004000, 0x00404010, 0x00400000, 0x20000010,
    0x00400010, 0x20004000, 0x20000000, 0x00004010,
    0x00000000, 0x00400010, 0x20004010, 0x00004000,
    0x00404000, 0x20004010, 0x00000010, 0x20400010,
    0x20400010, 0x00000000, 0x00404010, 0x20404000,
    0x00004010, 0x00404000, 0x20404000, 0x20000000,
    0x20004000, 0x00000010, 0x20400010, 0x00404000,
    0x20404010, 0x00400000, 0x00004010, 0x20000010,
    0x00400000, 0x20004000, 0x20000000, 0x00004010,
    0x20000010, 0x20404010, 0x00404000, 0x20400000,
    0x00404010, 0x20404000, 0x00000000, 0x20400010,
    0x00000010, 0x00004000, 0x20400000, 0x00404010,
    0x00004000, 0x00400010, 0x20004010, 0x00000000,
    0x20404000, 0x20000000, 0x00400010, 0x20004010]"

definition SB7 :: "u32 list" where
  "SB7 = [
    0x00200000, 0x04200002, 0x04000802, 0x00000000,
    0x00000800, 0x04000802, 0x00200802, 0x04200800,
    0x04200802, 0x00200000, 0x00000000, 0x04000002,
    0x00000002, 0x04000000, 0x04200002, 0x00000802,
    0x04000800, 0x00200802, 0x00200002, 0x04000800,
    0x04000002, 0x04200000, 0x04200800, 0x00200002,
    0x04200000, 0x00000800, 0x00000802, 0x04200802,
    0x00200800, 0x00000002, 0x04000000, 0x00200800,
    0x04000000, 0x00200800, 0x00200000, 0x04000802,
    0x04000802, 0x04200002, 0x04200002, 0x00000002,
    0x00200002, 0x04000000, 0x04000800, 0x00200000,
    0x04200800, 0x00000802, 0x00200802, 0x04200800,
    0x00000802, 0x04000002, 0x04200802, 0x04200000,
    0x00200800, 0x00000000, 0x00000002, 0x04200802,
    0x00000000, 0x00200802, 0x04200000, 0x00000800,
    0x04000002, 0x04000800, 0x00000800, 0x00200002]"

definition SB8 :: "u32 list" where
  "SB8 = [
    0x10001040, 0x00001000, 0x00040000, 0x10041040,
    0x10000000, 0x10001040, 0x00000040, 0x10000000,
    0x00040040, 0x10040000, 0x10041040, 0x00041000,
    0x10041000, 0x00041040, 0x00001000, 0x00000040,
    0x10040000, 0x10000040, 0x10001000, 0x00001040,
    0x00041000, 0x00040040, 0x10040040, 0x10041000,
    0x00001040, 0x00000000, 0x00000000, 0x10040040,
    0x10000040, 0x10001000, 0x00041040, 0x00040000,
    0x00041040, 0x00040000, 0x10041000, 0x00001000,
    0x00000040, 0x10040040, 0x00001000, 0x00041040,
    0x10001000, 0x00000040, 0x10000040, 0x10040000,
    0x10040040, 0x10000000, 0x00040000, 0x10001040,
    0x00000000, 0x10041040, 0x00040040, 0x10000040,
    0x10040000, 0x10001000, 0x10001040, 0x00000000,
    0x10041040, 0x00041000, 0x00041000, 0x00001040,
    0x00001040, 0x00040040, 0x10000000, 0x10041000]"

definition LHs :: "u32 list" where
  "LHs = [
    0x00000000, 0x00000001, 0x00000100, 0x00000101,
    0x00010000, 0x00010001, 0x00010100, 0x00010101,
    0x01000000, 0x01000001, 0x01000100, 0x01000101,
    0x01010000, 0x01010001, 0x01010100, 0x01010101]"

definition RHs :: "u32 list" where
  "RHs = [
    0x00000000, 0x01000000, 0x00010000, 0x01010000,
    0x00000100, 0x01000100, 0x00010100, 0x01010100,
    0x00000001, 0x01000001, 0x00010001, 0x01010001,
    0x00000101, 0x01000101, 0x00010101, 0x01010101]"

section \<open>Single DES\<close>

definition GET_UINT32_BE :: "bytes \<Rightarrow> nat \<Rightarrow> u32" where
  "GET_UINT32_BE b i = push_bit 24 (ucast (b ! i)) OR push_bit 16 (ucast (b ! (i + 1))) OR
     push_bit 8 (ucast (b ! (i + 2))) OR ucast (b ! (i + 3))"

definition PUT_UINT32_BE :: "u32 \<Rightarrow> bytes" where
  "PUT_UINT32_BE n = [ucast (drop_bit 24 n), ucast (drop_bit 16 n), ucast (drop_bit 8 n), ucast n]"

definition DES_IP :: "u32 \<times> u32 \<Rightarrow> u32 \<times> u32" where
  "DES_IP XY = (let (X, Y) = XY;
     T = (drop_bit 4 X XOR Y) AND 0x0F0F0F0F; Y = Y XOR T; X = X XOR push_bit 4 T;
     T = (drop_bit 16 X XOR Y) AND 0x0000FFFF; Y = Y XOR T; X = X XOR push_bit 16 T;
     T = (drop_bit 2 Y XOR X) AND 0x33333333; X = X XOR T; Y = Y XOR push_bit 2 T;
     T = (drop_bit 8 Y XOR X) AND 0x00FF00FF; X = X XOR T; Y = Y XOR push_bit 8 T;
     Y = (push_bit 1 Y OR drop_bit 31 Y) AND 0xFFFFFFFF;
     T = (X XOR Y) AND 0xAAAAAAAA; Y = Y XOR T; X = X XOR T;
     X = (push_bit 1 X OR drop_bit 31 X) AND 0xFFFFFFFF in (X, Y))"

definition DES_FP :: "u32 \<times> u32 \<Rightarrow> u32 \<times> u32" where
  "DES_FP XY = (let (X, Y) = XY;
     X = (push_bit 31 X OR drop_bit 1 X) AND 0xFFFFFFFF;
     T = (X XOR Y) AND 0xAAAAAAAA; X = X XOR T; Y = Y XOR T;
     Y = (push_bit 31 Y OR drop_bit 1 Y) AND 0xFFFFFFFF;
     T = (drop_bit 8 Y XOR X) AND 0x00FF00FF; X = X XOR T; Y = Y XOR push_bit 8 T;
     T = (drop_bit 2 Y XOR X) AND 0x33333333; X = X XOR T; Y = Y XOR push_bit 2 T;
     T = (drop_bit 16 X XOR Y) AND 0x0000FFFF; Y = Y XOR T; X = X XOR push_bit 16 T;
     T = (drop_bit 4 X XOR Y) AND 0x0F0F0F0F; Y = Y XOR T; X = X XOR push_bit 4 T in (X, Y))"

text \<open>\<open>DES_ROUND (X, Y)\<close> with the next two subkeys: the new value of \<open>Y\<close>.\<close>

definition sbox :: "u32 list \<Rightarrow> u32 \<Rightarrow> u32" where
  "sbox t x = t ! unat (x AND 0x3F)"

definition DES_ROUND :: "u32 \<Rightarrow> u32 \<Rightarrow> u32 \<Rightarrow> u32 \<Rightarrow> u32" where
  "DES_ROUND k1 k2 X Y =
     (let T = k1 XOR X;
          Y = Y XOR (sbox SB8 T XOR sbox SB6 (drop_bit 8 T) XOR sbox SB4 (drop_bit 16 T) XOR sbox SB2 (drop_bit 24 T));
          T = k2 XOR (push_bit 28 X OR drop_bit 4 X) in
      Y XOR (sbox SB7 T XOR sbox SB5 (drop_bit 8 T) XOR sbox SB3 (drop_bit 16 T) XOR sbox SB1 (drop_bit 24 T)))"

definition des_key_rot :: "nat \<Rightarrow> u32 \<Rightarrow> u32" where
  "des_key_rot i X = (if i < 2 \<or> i = 8 \<or> i = 15
     then (push_bit 1 X OR drop_bit 27 X) AND 0x0FFFFFFF
     else (push_bit 2 X OR drop_bit 26 X) AND 0x0FFFFFFF)"

text \<open>The two subkeys of a round.\<close>

definition des_subkeys :: "u32 \<Rightarrow> u32 \<Rightarrow> u32 list" where
  "des_subkeys X Y = [
     (push_bit 4 X AND 0x24000000) OR (push_bit 28 X AND 0x10000000) OR (push_bit 14 X AND 0x08000000) OR
     (push_bit 18 X AND 0x02080000) OR (push_bit 6 X AND 0x01000000) OR (push_bit 9 X AND 0x00200000) OR
     (drop_bit 1 X AND 0x00100000) OR (push_bit 10 X AND 0x00040000) OR (push_bit 2 X AND 0x00020000) OR
     (drop_bit 10 X AND 0x00010000) OR (drop_bit 13 Y AND 0x00002000) OR (drop_bit 4 Y AND 0x00001000) OR
     (push_bit 6 Y AND 0x00000800) OR (drop_bit 1 Y AND 0x00000400) OR (drop_bit 14 Y AND 0x00000200) OR
     (Y AND 0x00000100) OR (drop_bit 5 Y AND 0x00000020) OR (drop_bit 10 Y AND 0x00000010) OR
     (drop_bit 3 Y AND 0x00000008) OR (drop_bit 18 Y AND 0x00000004) OR (drop_bit 26 Y AND 0x00000002) OR
     (drop_bit 24 Y AND 0x00000001),
     (push_bit 15 X AND 0x20000000) OR (push_bit 17 X AND 0x10000000) OR (push_bit 10 X AND 0x08000000) OR
     (push_bit 22 X AND 0x04000000) OR (drop_bit 2 X AND 0x02000000) OR (push_bit 1 X AND 0x01000000) OR
     (push_bit 16 X AND 0x00200000) OR (push_bit 11 X AND 0x00100000) OR (push_bit 3 X AND 0x00080000) OR
     (drop_bit 6 X AND 0x00040000) OR (push_bit 15 X AND 0x00020000) OR (drop_bit 4 X AND 0x00010000) OR
     (drop_bit 2 Y AND 0x00002000) OR (push_bit 8 Y AND 0x00001000) OR (drop_bit 14 Y AND 0x00000808) OR
     (drop_bit 9 Y AND 0x00000400) OR (Y AND 0x00000200) OR (push_bit 7 Y AND 0x00000100) OR
     (drop_bit 7 Y AND 0x00000020) OR (drop_bit 3 Y AND 0x00000011) OR (push_bit 2 Y AND 0x00000004) OR
     (drop_bit 21 Y AND 0x00000002)]"

text \<open>The loop of \<open>ultralight_des_setkey\<close> from round \<open>i\<close>, with \<open>n\<close> rounds to go.\<close>

fun des_key_schedule :: "nat \<Rightarrow> nat \<Rightarrow> u32 \<Rightarrow> u32 \<Rightarrow> u32 list" where
  "des_key_schedule i 0 X Y = []"
| "des_key_schedule i (Suc n) X Y =
     (let X = des_key_rot i X; Y = des_key_rot i Y in des_subkeys X Y @ des_key_schedule (Suc i) n X Y)"

definition lookup16 :: "u32 list \<Rightarrow> u32 \<Rightarrow> u32" where
  "lookup16 t x = t ! unat (x AND 0xF)"

definition ultralight_des_setkey :: "bytes \<Rightarrow> u32 list" where
  "ultralight_des_setkey key =
     (let X = GET_UINT32_BE key 0; Y = GET_UINT32_BE key 4;
          T = (drop_bit 4 Y XOR X) AND 0x0F0F0F0F; X = X XOR T; Y = Y XOR push_bit 4 T;
          T = (Y XOR X) AND 0x10101010; X = X XOR T; Y = Y XOR T;
          X = push_bit 3 (lookup16 LHs X) OR push_bit 2 (lookup16 LHs (drop_bit 8 X)) OR
              push_bit 1 (lookup16 LHs (drop_bit 16 X)) OR lookup16 LHs (drop_bit 24 X) OR
              push_bit 7 (lookup16 LHs (drop_bit 5 X)) OR push_bit 6 (lookup16 LHs (drop_bit 13 X)) OR
              push_bit 5 (lookup16 LHs (drop_bit 21 X)) OR push_bit 4 (lookup16 LHs (drop_bit 29 X));
          Y = push_bit 3 (lookup16 RHs (drop_bit 1 Y)) OR push_bit 2 (lookup16 RHs (drop_bit 9 Y)) OR
              push_bit 1 (lookup16 RHs (drop_bit 17 Y)) OR lookup16 RHs (drop_bit 25 Y) OR
              push_bit 7 (lookup16 RHs (drop_bit 4 Y)) OR push_bit 6 (lookup16 RHs (drop_bit 12 Y)) OR
              push_bit 5 (lookup16 RHs (drop_bit 20 Y)) OR push_bit 4 (lookup16 RHs (drop_bit 28 Y));
          X = X AND 0x0FFFFFFF; Y = Y AND 0x0FFFFFFF in
      des_key_schedule 0 16 X Y)"

definition ultralight_des_setkey_enc :: "bytes \<Rightarrow> u32 list" where
  "ultralight_des_setkey_enc key = ultralight_des_setkey key"

definition SWAP :: "nat \<Rightarrow> nat \<Rightarrow> u32 list \<Rightarrow> u32 list" where
  "SWAP a b sk = sk[a := sk ! b, b := sk ! a]"

definition ultralight_des_setkey_dec :: "bytes \<Rightarrow> u32 list" where
  "ultralight_des_setkey_dec key =
     fold (\<lambda>i sk. SWAP (i + 1) (31 - i) (SWAP i (30 - i) sk)) [0, 2, 4, 6, 8, 10, 12, 14] (ultralight_des_setkey key)"

text \<open>One turn of the loop of \<open>ultralight_des_crypt_ecb\<close>.\<close>

definition des_two_rounds :: "u32 list \<Rightarrow> nat \<Rightarrow> u32 \<times> u32 \<Rightarrow> u32 \<times> u32" where
  "des_two_rounds sk i XY = (let (X, Y) = XY;
     X = DES_ROUND (sk ! (4 * i)) (sk ! (4 * i + 1)) Y X;
     Y = DES_ROUND (sk ! (4 * i + 2)) (sk ! (4 * i + 3)) X Y in (X, Y))"

definition ultralight_des_crypt_ecb :: "u32 list \<Rightarrow> bytes \<Rightarrow> bytes" where
  "ultralight_des_crypt_ecb sk inp =
     (let (X, Y) = DES_IP (GET_UINT32_BE inp 0, GET_UINT32_BE inp 4);
          (X, Y) = fold (des_two_rounds sk) [0..<8] (X, Y);
          (Y, X) = DES_FP (Y, X) in
      PUT_UINT32_BE Y @ PUT_UINT32_BE X)"

section \<open>Triple DES in CBC mode\<close>

definition ultralight_3des_shift_data :: "bytes \<Rightarrow> bytes" where
  "ultralight_3des_shift_data data = drop 1 data @ [data ! 0]"

definition tdes2_block :: "bytes \<Rightarrow> bytes \<Rightarrow> bool \<Rightarrow> bytes" where
  "tdes2_block key inp decrypt =
     (if \<not> decrypt then
        let tmp = ultralight_des_crypt_ecb (ultralight_des_setkey_enc (take 8 key)) inp;
            tmp = ultralight_des_crypt_ecb (ultralight_des_setkey_dec (drop 8 key)) tmp in
        ultralight_des_crypt_ecb (ultralight_des_setkey_enc (take 8 key)) tmp
      else
        let tmp = ultralight_des_crypt_ecb (ultralight_des_setkey_dec (take 8 key)) inp;
            tmp = ultralight_des_crypt_ecb (ultralight_des_setkey_enc (drop 8 key)) tmp in
        ultralight_des_crypt_ecb (ultralight_des_setkey_dec (take 8 key)) tmp)"

text \<open>The loops over the eight-byte blocks of the input.\<close>

fun ultralight_3des_encrypt :: "bytes \<Rightarrow> bytes \<Rightarrow> bytes \<Rightarrow> bytes" where
  "ultralight_3des_encrypt key iv [] = []"
| "ultralight_3des_encrypt key iv (x # xs) =
     (let block = tdes2_block key (map2 (XOR) (take 8 (x # xs)) iv) False in
      block @ ultralight_3des_encrypt key block (drop 8 (x # xs)))"

fun ultralight_3des_decrypt :: "bytes \<Rightarrow> bytes \<Rightarrow> bytes \<Rightarrow> bytes" where
  "ultralight_3des_decrypt key iv [] = []"
| "ultralight_3des_decrypt key iv (x # xs) =
     (let block = take 8 (x # xs); plain = tdes2_block key block True in
      map2 (XOR) plain iv @ ultralight_3des_decrypt key block (drop 8 (x # xs)))"

section \<open>The permutations are inverse\<close>

text \<open>The exchange of bits between two words that both permutations are built from.\<close>

definition swap_bits :: "nat \<Rightarrow> u32 \<Rightarrow> u32 \<times> u32 \<Rightarrow> u32 \<times> u32" where
  "swap_bits n m XY = (let (X, Y) = XY; T = (drop_bit n X XOR Y) AND m in (X XOR push_bit n T, Y XOR T))"

definition rotl1 :: "u32 \<Rightarrow> u32" where "rotl1 w = push_bit 1 w OR drop_bit 31 w"
definition rotr1 :: "u32 \<Rightarrow> u32" where "rotr1 w = push_bit 31 w OR drop_bit 1 w"

lemma swap_bits_twice:
  assumes "drop_bit n (push_bit n m) = m"
  shows "swap_bits n m (swap_bits n m p) = p"
proof -
  obtain X Y where p: "p = (X, Y)" by fastforce
  have m: "bit m j \<Longrightarrow> n + j < 32" for j
    using arg_cong [OF assms, of "\<lambda>w. bit w j"] by (auto simp: bit_drop_bit_eq bit_push_bit_iff)
  define T where "T = (drop_bit n X XOR Y) AND m"
  have "bit T j \<Longrightarrow> n + j < 32" for j using m [of j] by (simp add: T_def bit_and_iff)
  then have "drop_bit n (push_bit n T) = T"
    by (intro bit_word_eqI) (auto simp: bit_drop_bit_eq bit_push_bit_iff)
  then have "(drop_bit n (X XOR push_bit n T) XOR (Y XOR T)) AND m = T"
    unfolding drop_bit_xor by (simp add: xor.assoc xor.left_commute xor.commute) (simp only: T_def xor.commute)
  then show ?thesis
    unfolding p swap_bits_def Let_def prod.case T_def [symmetric] by (simp add: xor.assoc)
qed

lemma rot_inverse [simp]: "rotl1 (rotr1 w) = w" "rotr1 (rotl1 w) = w"
proof -
  have l: "bit (rotl1 v) j \<longleftrightarrow> (if j = 0 then bit v 31 else j < 32 \<and> bit v (j - 1))" for v j
    unfolding rotl1_def bit_or_iff bit_push_bit_iff bit_drop_bit_eq comp_def by (auto dest: bit_imp_le_length)
  have r: "bit (rotr1 v) j \<longleftrightarrow> (if j = 31 then bit v 0 else j < 31 \<and> bit v (Suc j))" for v j
    unfolding rotr1_def bit_or_iff bit_push_bit_iff bit_drop_bit_eq comp_def by (auto dest: bit_imp_le_length)
  have "bit (rotl1 (rotr1 w)) j = bit w j" "bit (rotr1 (rotl1 w)) j = bit w j" if "j < 32" for j
    unfolding l r using that by auto
  then show "rotl1 (rotr1 w) = w" "rotr1 (rotl1 w) = w"
    by (auto intro: bit_word_eqI)
qed

lemma and_FFFFFFFF [simp]: "(w :: u32) AND 0xFFFFFFFF = w"
proof -
  have "(0xFFFFFFFF :: u32) = - 1" by simp
  then show ?thesis by (metis and.right_neutral)
qed

lemma DES_IP_steps:
  "DES_IP p = map_prod rotl1 id (swap_bits 0 0xAAAAAAAA (map_prod id rotl1 (prod.swap (swap_bits 8 0x00FF00FF
     (swap_bits 2 0x33333333 (prod.swap (swap_bits 16 0x0000FFFF (swap_bits 4 0x0F0F0F0F p))))))))"
  unfolding DES_IP_def swap_bits_def Let_def rotl1_def
  by (cases p) (simp only: prod.case map_prod_simp swap_simp id_apply and_FFFFFFFF push_bit_0_id drop_bit_0)

lemma DES_FP_steps:
  "DES_FP p = swap_bits 4 0x0F0F0F0F (swap_bits 16 0x0000FFFF (prod.swap (swap_bits 2 0x33333333 (swap_bits 8 0x00FF00FF
     (prod.swap (map_prod id rotr1 (swap_bits 0 0xAAAAAAAA (map_prod rotr1 id p))))))))"
  unfolding DES_FP_def swap_bits_def Let_def rotr1_def
  by (cases p) (simp only: prod.case map_prod_simp swap_simp id_apply and_FFFFFFFF push_bit_0_id drop_bit_0)

lemma map_prod_rot [simp]:
  "map_prod rotl1 id (map_prod rotr1 id p) = p" "map_prod rotr1 id (map_prod rotl1 id p) = p"
  "map_prod id rotl1 (map_prod id rotr1 p) = p" "map_prod id rotr1 (map_prod id rotl1 p) = p"
  by (cases p; simp)+

lemma DES_IP_FP [simp]: "DES_IP (DES_FP p) = p"
  unfolding DES_IP_steps DES_FP_steps by (simp add: swap_bits_twice)

lemma DES_FP_IP [simp]: "DES_FP (DES_IP p) = p"
  unfolding DES_IP_steps DES_FP_steps by (simp add: swap_bits_twice)

section \<open>The rounds are undone in reverse order\<close>

lemma DES_ROUND_twice [simp]: "DES_ROUND k1 k2 X (DES_ROUND k1 k2 X Y) = Y"
proof -
  have r: "DES_ROUND k1 k2 X Y = Y XOR DES_ROUND k1 k2 X 0" for Y
    by (simp add: DES_ROUND_def Let_def xor.assoc)
  show ?thesis by (subst r, subst r) (simp add: xor.assoc)
qed

lemma length_key_schedule: "length (des_key_schedule i n X Y) = 2 * n"
  by (induction i n X Y rule: des_key_schedule.induct) (simp_all add: des_subkeys_def Let_def)

lemma length_setkey [simp]: "length (ultralight_des_setkey key) = 32"
  by (simp add: ultralight_des_setkey_def Let_def length_key_schedule)

lemma nth_SWAP:
  "a < length sk \<Longrightarrow> b < length sk \<Longrightarrow> SWAP a b sk ! j = sk ! (if j = a then b else if j = b then a else j)"
  by (auto simp: SWAP_def nth_list_update)

lemma length_SWAP [simp]: "length (SWAP a b sk) = length sk"
  by (simp add: SWAP_def)

lemma setkey_dec_nth:
  assumes "i < 8"
  shows "ultralight_des_setkey_dec key ! (4 * i) = ultralight_des_setkey key ! (30 - 4 * i)"
    "ultralight_des_setkey_dec key ! (4 * i + 1) = ultralight_des_setkey key ! (31 - 4 * i)"
    "ultralight_des_setkey_dec key ! (4 * i + 2) = ultralight_des_setkey key ! (28 - 4 * i)"
    "ultralight_des_setkey_dec key ! (4 * i + 3) = ultralight_des_setkey key ! (29 - 4 * i)"
proof -
  have "i = 0 \<or> i = 1 \<or> i = 2 \<or> i = 3 \<or> i = 4 \<or> i = 5 \<or> i = 6 \<or> i = 7" using assms by linarith
  then show "ultralight_des_setkey_dec key ! (4 * i) = ultralight_des_setkey key ! (30 - 4 * i)"
    "ultralight_des_setkey_dec key ! (4 * i + 1) = ultralight_des_setkey key ! (31 - 4 * i)"
    "ultralight_des_setkey_dec key ! (4 * i + 2) = ultralight_des_setkey key ! (28 - 4 * i)"
    "ultralight_des_setkey_dec key ! (4 * i + 3) = ultralight_des_setkey key ! (29 - 4 * i)"
    unfolding ultralight_des_setkey_dec_def by (elim disjE; simp add: nth_SWAP)+
qed

lemma two_rounds_undone:
  assumes "i < 8"
  shows "des_two_rounds (ultralight_des_setkey_dec key) i (prod.swap (des_two_rounds (ultralight_des_setkey key) (7 - i) p)) = prod.swap p"
    "des_two_rounds (ultralight_des_setkey key) i (prod.swap (des_two_rounds (ultralight_des_setkey_dec key) (7 - i) p)) = prod.swap p"
proof -
  obtain X Y where p: "p = (X, Y)" by fastforce
  have j: "4 * (7 - i) = 28 - 4 * i" "28 - 4 * i + 1 = 29 - 4 * i" "28 - 4 * i + 2 = 30 - 4 * i" "28 - 4 * i + 3 = 31 - 4 * i"
    using assms by linarith+
  have "7 - i < 8" by simp
  note d = setkey_dec_nth [OF assms, of key] setkey_dec_nth [OF this, of key]
  have k: "30 - 4 * (7 - i) = 4 * i + 2" "31 - 4 * (7 - i) = 4 * i + 3" "28 - 4 * (7 - i) = 4 * i" "29 - 4 * (7 - i) = 4 * i + 1"
    using assms by linarith+
  show "des_two_rounds (ultralight_des_setkey_dec key) i (prod.swap (des_two_rounds (ultralight_des_setkey key) (7 - i) p)) = prod.swap p"
    unfolding des_two_rounds_def p Let_def prod.case swap_simp d(1-4) j by simp
  show "des_two_rounds (ultralight_des_setkey key) i (prod.swap (des_two_rounds (ultralight_des_setkey_dec key) (7 - i) p)) = prod.swap p"
    unfolding des_two_rounds_def p Let_def prod.case swap_simp d(5-8) k by simp
qed

section \<open>Decryption inverts encryption\<close>

lemma GET_be32: "GET_UINT32_BE b i = be32 [b ! i, b ! (i + 1), b ! (i + 2), b ! (i + 3)]"
  by (simp add: GET_UINT32_BE_def be32_def)

lemma PUT_be32_bytes: "PUT_UINT32_BE n = be32_bytes n"
  by (simp add: PUT_UINT32_BE_def be32_bytes_def)

lemma be32_PUT: "be32 (PUT_UINT32_BE n) = n"
  by (simp add: PUT_be32_bytes be32_be32_bytes)

lemma PUT_be32: "length b = 4 \<Longrightarrow> PUT_UINT32_BE (be32 b) = b"
  by (simp add: PUT_be32_bytes be32_bytes_be32)

lemma length_8_split:
  assumes "length b = 8"
  shows "[b ! 0, b ! 1, b ! 2, b ! 3] @ [b ! 4, b ! 5, b ! 6, b ! 7] = b"
  using assms by (auto simp: length_Suc_conv eval_nat_numeral)

lemma GET_PUT: "GET_UINT32_BE (PUT_UINT32_BE Y @ PUT_UINT32_BE X) 0 = Y" "GET_UINT32_BE (PUT_UINT32_BE Y @ PUT_UINT32_BE X) 4 = X"
proof -
  have "GET_UINT32_BE (PUT_UINT32_BE Y @ PUT_UINT32_BE X) 0 = be32 (PUT_UINT32_BE Y)"
    "GET_UINT32_BE (PUT_UINT32_BE Y @ PUT_UINT32_BE X) 4 = be32 (PUT_UINT32_BE X)"
    by (simp_all add: GET_be32 PUT_UINT32_BE_def)
  then show "GET_UINT32_BE (PUT_UINT32_BE Y @ PUT_UINT32_BE X) 0 = Y" "GET_UINT32_BE (PUT_UINT32_BE Y @ PUT_UINT32_BE X) 4 = X"
    by (simp_all add: be32_PUT)
qed

lemma PUT_GET: "length b = 8 \<Longrightarrow> PUT_UINT32_BE (GET_UINT32_BE b 0) @ PUT_UINT32_BE (GET_UINT32_BE b 4) = b"
  using length_8_split [of b] by (simp add: GET_be32 PUT_be32 del: add_2_eq_Suc')

lemma length_crypt_ecb [simp]: "length (ultralight_des_crypt_ecb sk b) = 8"
  by (simp add: ultralight_des_crypt_ecb_def PUT_UINT32_BE_def split: prod.split)

text \<open>Encryption with one schedule is undone with the other, if every pair of rounds is.\<close>

lemma crypt_ecb_undo:
  assumes undo: "\<And>i p. i < 8 \<Longrightarrow> des_two_rounds sk' i (prod.swap (des_two_rounds sk (7 - i) p)) = prod.swap p"
    and len: "length b = 8"
  shows "ultralight_des_crypt_ecb sk' (ultralight_des_crypt_ecb sk b) = b"
proof -
  let ?p = "DES_IP (GET_UINT32_BE b 0, GET_UINT32_BE b 4)"
  have upt8: "[0..<8] = [0, 1, 2, 3, 4, 5, 6, 7 :: nat]" by (simp add: upt_rec)
  have rounds: "fold (des_two_rounds sk') [0..<8] (prod.swap (fold (des_two_rounds sk) [0..<8] p)) = prod.swap p" for p
    using undo [of 0] undo [of 1] undo [of 2] undo [of 3] undo [of 4] undo [of 5] undo [of 6] undo [of 7]
    unfolding upt8 by simp
  obtain X Y where XY: "fold (des_two_rounds sk) [0..<8] ?p = (X, Y)" by fastforce
  obtain Y' X' where F: "DES_FP (Y, X) = (Y', X')" by fastforce
  have c: "ultralight_des_crypt_ecb sk b = PUT_UINT32_BE Y' @ PUT_UINT32_BE X'"
    using XY F by (simp add: ultralight_des_crypt_ecb_def split_beta Let_def del: upt_rec_numeral upt_Suc)
  have "DES_IP (Y', X') = prod.swap (X, Y)" using DES_IP_FP [of "(Y, X)"] F by simp
  then have r: "fold (des_two_rounds sk') [0..<8] (DES_IP (Y', X')) = prod.swap ?p"
    using rounds [of ?p] XY by simp
  obtain A B where AB: "?p = (A, B)" by fastforce
  have "DES_FP (A, B) = (GET_UINT32_BE b 0, GET_UINT32_BE b 4)" using DES_FP_IP AB by metis
  then show ?thesis
    unfolding c using r AB PUT_GET [OF len]
    by (simp add: ultralight_des_crypt_ecb_def [of sk'] GET_PUT split_beta Let_def del: upt_rec_numeral upt_Suc)
qed

lemma des_dec_enc [simp]:
  "length b = 8 \<Longrightarrow> ultralight_des_crypt_ecb (ultralight_des_setkey_dec k) (ultralight_des_crypt_ecb (ultralight_des_setkey_enc k) b) = b"
  "length b = 8 \<Longrightarrow> ultralight_des_crypt_ecb (ultralight_des_setkey_enc k) (ultralight_des_crypt_ecb (ultralight_des_setkey_dec k) b) = b"
  unfolding ultralight_des_setkey_enc_def by (rule crypt_ecb_undo; simp add: two_rounds_undone)+

lemma length_tdes2 [simp]: "length (tdes2_block key b d) = 8"
  by (simp add: tdes2_block_def Let_def)

lemma tdes2_inverse [simp]: "length b = 8 \<Longrightarrow> tdes2_block key (tdes2_block key b False) True = b"
  by (simp add: tdes2_block_def Let_def)

lemma map2_xor_cancel:
  "length a = length b \<Longrightarrow> map2 (XOR) (map2 (XOR) a b) b = (a :: bytes)"
  by (induction a b rule: list_induct2) (simp_all add: xor.assoc)

lemma cbc_roundtrip:
  "length iv = 8 \<Longrightarrow> length xs = 8 * n \<Longrightarrow>
    ultralight_3des_decrypt key iv (ultralight_3des_encrypt key iv xs) = xs \<and> length (ultralight_3des_encrypt key iv xs) = 8 * n"
proof (induction n arbitrary: iv xs)
  case (Suc n)
  let ?b = "take 8 xs" and ?r = "drop 8 xs"
  let ?c = "tdes2_block key (map2 (XOR) ?b iv) False"
  have l: "length ?b = 8" "length ?r = 8 * n" using Suc.prems(2) by simp_all
  have "xs \<noteq> []" using Suc.prems(2) by auto
  then have e: "ultralight_3des_encrypt key iv xs = ?c @ ultralight_3des_encrypt key ?c ?r" by (cases xs) (simp_all add: Let_def)
  have d: "ultralight_3des_decrypt key iv (?c @ ys) = map2 (XOR) (tdes2_block key ?c True) iv @ ultralight_3des_decrypt key ?c ys" for ys
  proof -
    have "?c \<noteq> []" using length_tdes2 [of key "map2 (XOR) ?b iv" False] by (metis list.size(3) zero_neq_numeral)
    then obtain z zs where "?c = z # zs" by (cases ?c) auto
    then show ?thesis using length_tdes2 [of key "map2 (XOR) ?b iv" False] by (simp add: Let_def)
  qed
  have "map2 (XOR) (tdes2_block key ?c True) iv = ?b"
    using l(1) Suc.prems(1) by (simp add: map2_xor_cancel)
  with Suc.IH [of ?c ?r] l show ?case unfolding e d by simp
qed simp

text \<open>C28. Triple-DES CBC decryption inverts encryption, for every two-key key, initial vector and message of whole blocks.\<close>

theorem ultralight_3des_decrypt_encrypt:
  assumes "length iv = 8" "8 dvd length xs"
  shows "ultralight_3des_decrypt key iv (ultralight_3des_encrypt key iv xs) = xs"
  using assms cbc_roundtrip [OF assms(1), of xs "length xs div 8" key] by simp

theorem ultralight_3des_decrypt_encrypt_witness:
  "ultralight_3des_decrypt (replicate 16 1) (replicate 8 0) (ultralight_3des_encrypt (replicate 16 1) (replicate 8 0) (replicate 16 7)) = replicate 16 7"
  by (rule ultralight_3des_decrypt_encrypt) simp_all

end
