(* ===== verification/Ultralight_T2.thy ===== *)
theory Ultralight_T2
  imports Ultralight_Model Ultralight_Des
begin

text \<open>
  The emulated Type 2 tag (\<open>protocols/ultralight/ultralight_listener_t2.c\<close>).  A handler returns the new module state and
  the responses it gave to the transport.  The tag's nonce, which the source takes from \<open>sys_rand_get\<close>, is a parameter.
\<close>

section \<open>Definitions\<close>

abbreviation (input) ULTRALIGHT_CMD_READ :: u8 where "ULTRALIGHT_CMD_READ \<equiv> 0x30"
abbreviation (input) ULTRALIGHT_CMD_GET_VERSION :: u8 where "ULTRALIGHT_CMD_GET_VERSION \<equiv> 0x60"
abbreviation (input) ULTRALIGHT_CMD_READ_SIG :: u8 where "ULTRALIGHT_CMD_READ_SIG \<equiv> 0x3C"
abbreviation (input) ULTRALIGHT_CMD_READ_CNT :: u8 where "ULTRALIGHT_CMD_READ_CNT \<equiv> 0x39"
abbreviation (input) ULTRALIGHT_CMD_CHECK_TEARING :: u8 where "ULTRALIGHT_CMD_CHECK_TEARING \<equiv> 0x3E"
abbreviation (input) ULTRALIGHT_CMD_PWD_AUTH :: u8 where "ULTRALIGHT_CMD_PWD_AUTH \<equiv> 0x1B"
abbreviation (input) ULTRALIGHT_CMD_AUTH :: u8 where "ULTRALIGHT_CMD_AUTH \<equiv> 0x1A"
abbreviation (input) ULTRALIGHT_CMD_AUTH_CONT :: u8 where "ULTRALIGHT_CMD_AUTH_CONT \<equiv> 0xAF"
abbreviation (input) ULTRALIGHT_READ_RESP_LEN :: nat where "ULTRALIGHT_READ_RESP_LEN \<equiv> 16"
abbreviation (input) ULTRALIGHT_PWD_AUTH_RESP_LEN :: nat where "ULTRALIGHT_PWD_AUTH_RESP_LEN \<equiv> 2"
abbreviation (input) ULTRALIGHT_C_KEY_PAGE :: nat where "ULTRALIGHT_C_KEY_PAGE \<equiv> 44"
abbreviation (input) ULTRALIGHT_C_ENCRYPTED_PACK_SIZE :: nat where "ULTRALIGHT_C_ENCRYPTED_PACK_SIZE \<equiv> 17"
abbreviation (input) ULTRALIGHT_C_AUTH_RESPONSE_SIZE :: nat where "ULTRALIGHT_C_AUTH_RESPONSE_SIZE \<equiv> 9"
abbreviation (input) ULTRALIGHT_C_AUTH_DATA_SIZE :: nat where "ULTRALIGHT_C_AUTH_DATA_SIZE \<equiv> 16"
abbreviation (input) ULTRALIGHT_C_AUTH_RND_BLOCK_SIZE :: nat where "ULTRALIGHT_C_AUTH_RND_BLOCK_SIZE \<equiv> 8"

datatype ultralight_t2_auth_state = UL_T2_AUTH_IDLE | UL_T2_AUTH_WAIT_CONT | UL_T2_AUTH_SUCCESS

record ultralight_t2 =
  t2_model :: ultralight_data
  t2_cfg :: ultralight_config
  t2_initialized :: bool
  t2_auth_state :: ultralight_t2_auth_state
  t2_rnd_b :: bytes
  t2_enc_b :: bytes

definition ultralight_3des_key_valid :: "ultralight_data \<Rightarrow> bool" where
  "ultralight_3des_key_valid d \<longleftrightarrow> ul_type d = UL_TYPE_MFUL_C \<and>
     ul_pages_read d \<noteq> (ul_pages_total d + (65536 - 4)) mod 65536"

text \<open>The key is the sixteen bytes from page 44 on.\<close>

definition ultralight_3des_get_key :: "ultralight_data \<Rightarrow> bytes" where
  "ultralight_3des_get_key d = concat (sub_bytes ULTRALIGHT_C_KEY_PAGE 4 (ul_pages d))"

definition ultralight_t2_type_supports_auth :: "ultralight_type \<Rightarrow> bool" where
  "ultralight_t2_type_supports_auth type \<longleftrightarrow> type = UL_TYPE_MFUL_C"

definition ultralight_t2_type_supports_pwd :: "ultralight_type \<Rightarrow> bool" where
  "ultralight_t2_type_supports_pwd type = ultralight_type_has_password_config type"

definition ultralight_t2_page_readable :: "ultralight_t2 \<Rightarrow> nat \<Rightarrow> bool" where
  "ultralight_t2_page_readable s page =
     (if ul_pages_total (t2_model s) \<le> page then False
      else if ultralight_t2_type_supports_pwd (ul_type (t2_model s)) \<and> t2_auth_state s \<noteq> UL_T2_AUTH_SUCCESS \<and>
        uc_valid (t2_cfg s) \<and> ultralight_page_needs_auth (t2_cfg s) page then False
      else True)"

text \<open>The loop over the four pages; \<open>None\<close> is the early return with the NAK.\<close>

fun ultralight_t2_read_loop :: "ultralight_t2 \<Rightarrow> u8 \<Rightarrow> nat list \<Rightarrow> bytes \<Rightarrow> bytes option" where
  "ultralight_t2_read_loop s start_page [] out = Some out"
| "ultralight_t2_read_loop s start_page (i # is) out =
     (let page = unat start_page + i in
      if ul_pages_total (t2_model s) \<le> page then ultralight_t2_read_loop s start_page is out
      else if \<not> ultralight_t2_page_readable s page then None
      else ultralight_t2_read_loop s start_page is
        (memcpy_at out (i * ULTRALIGHT_PAGE_SIZE) (take ULTRALIGHT_PAGE_SIZE (ul_pages (t2_model s) ! page))))"

definition ultralight_t2_handle_read :: "bytes \<Rightarrow> ultralight_t2 \<Rightarrow> ultralight_t2 \<times> bytes list" where
  "ultralight_t2_handle_read tx s =
     (if length tx < 2 then (s, [])
      else case ultralight_t2_read_loop s (tx ! 1) [0, 1, 2, 3] (replicate ULTRALIGHT_READ_RESP_LEN 0) of
        None \<Rightarrow> (s, [[0x00]])
      | Some out \<Rightarrow> (s, [out]))"

definition ultralight_t2_handle_get_version :: "ultralight_t2 \<Rightarrow> ultralight_t2 \<times> bytes list" where
  "ultralight_t2_handle_get_version s =
     (s, if ul_has_version (t2_model s) then [take ULTRALIGHT_VERSION_SIZE (ul_version (t2_model s))] else [])"

definition ultralight_t2_handle_read_sig :: "ultralight_t2 \<Rightarrow> ultralight_t2 \<times> bytes list" where
  "ultralight_t2_handle_read_sig s =
     (s, if ul_has_signature (t2_model s) then [take ULTRALIGHT_SIGNATURE_SIZE (ul_signature (t2_model s))] else [])"

definition ultralight_t2_handle_read_cnt :: "bytes \<Rightarrow> ultralight_t2 \<Rightarrow> ultralight_t2 \<times> bytes list" where
  "ultralight_t2_handle_read_cnt tx s =
     (if length tx < 2 \<or> ul_counter_count (t2_model s) \<le> unat (tx ! 1) then (s, [])
      else (s, [take 3 (ul_counters (t2_model s) ! unat (tx ! 1))]))"

definition ultralight_t2_handle_tearing :: "bytes \<Rightarrow> ultralight_t2 \<Rightarrow> ultralight_t2 \<times> bytes list" where
  "ultralight_t2_handle_tearing tx s =
     (if length tx < 2 \<or> ul_tearing_flag_count (t2_model s) \<le> unat (tx ! 1) then (s, [])
      else (s, [[ul_tearing_flags (t2_model s) ! unat (tx ! 1)]]))"

definition ultralight_t2_handle_pwd_auth :: "bytes \<Rightarrow> ultralight_t2 \<Rightarrow> ultralight_t2 \<times> bytes list" where
  "ultralight_t2_handle_pwd_auth tx s =
     (if \<not> ultralight_t2_type_supports_pwd (ul_type (t2_model s)) \<or> length tx < 5 then (s, [])
      else if \<not> uc_valid (t2_cfg s) then (s, [])
      else if sub_bytes 1 4 tx \<noteq> uc_pwd (t2_cfg s) then (s, [])
      else (s\<lparr>t2_auth_state := UL_T2_AUTH_SUCCESS\<rparr>, [uc_pack (t2_cfg s)]))"

definition ultralight_t2_handle_auth_start :: "bytes \<Rightarrow> ultralight_t2 \<Rightarrow> ultralight_t2 \<times> bytes list" where
  "ultralight_t2_handle_auth_start rnd_b s =
     (if \<not> ultralight_t2_type_supports_auth (ul_type (t2_model s)) then (s, [])
      else
        let key = ultralight_3des_get_key (t2_model s); enc_b = ultralight_3des_encrypt key (replicate 8 0) rnd_b in
        (s\<lparr>t2_rnd_b := rnd_b, t2_enc_b := enc_b, t2_auth_state := UL_T2_AUTH_WAIT_CONT\<rparr>,
         [ULTRALIGHT_CMD_AUTH_CONT # enc_b]))"

definition ultralight_t2_handle_auth_cont :: "bytes \<Rightarrow> ultralight_t2 \<Rightarrow> ultralight_t2 \<times> bytes list" where
  "ultralight_t2_handle_auth_cont tx s =
     (if \<not> ultralight_t2_type_supports_auth (ul_type (t2_model s)) \<or> length tx \<noteq> ULTRALIGHT_C_ENCRYPTED_PACK_SIZE then (s, [])
      else
        let key = ultralight_3des_get_key (t2_model s);
            plain = ultralight_3des_decrypt key (t2_enc_b s) (sub_bytes 1 ULTRALIGHT_C_AUTH_DATA_SIZE tx);
            shifted_a = ultralight_3des_shift_data (take 8 plain);
            shifted_b = ultralight_3des_shift_data (t2_rnd_b s) in
        if sub_bytes 8 8 plain \<noteq> shifted_b then (s\<lparr>t2_auth_state := UL_T2_AUTH_IDLE\<rparr>, [])
        else (s\<lparr>t2_auth_state := UL_T2_AUTH_SUCCESS\<rparr>,
          [0x00 # ultralight_3des_encrypt key (sub_bytes 9 8 tx) shifted_a]))"

definition ultralight_listener_t2_on_tag_cmd :: "bytes \<Rightarrow> bytes option \<Rightarrow> ultralight_t2 \<Rightarrow> ultralight_t2 \<times> bytes list" where
  "ultralight_listener_t2_on_tag_cmd rnd_b tx s = (case tx of
     None \<Rightarrow> (s, [])
   | Some [] \<Rightarrow> (s, [])
   | Some (cmd # args) \<Rightarrow>
     if \<not> t2_initialized s then (s, [])
     else if cmd = ULTRALIGHT_CMD_READ then ultralight_t2_handle_read (cmd # args) s
     else if cmd = ULTRALIGHT_CMD_GET_VERSION then ultralight_t2_handle_get_version s
     else if cmd = ULTRALIGHT_CMD_READ_SIG then ultralight_t2_handle_read_sig s
     else if cmd = ULTRALIGHT_CMD_READ_CNT then ultralight_t2_handle_read_cnt (cmd # args) s
     else if cmd = ULTRALIGHT_CMD_CHECK_TEARING then ultralight_t2_handle_tearing (cmd # args) s
     else if cmd = ULTRALIGHT_CMD_PWD_AUTH then ultralight_t2_handle_pwd_auth (cmd # args) s
     else if cmd = ULTRALIGHT_CMD_AUTH then ultralight_t2_handle_auth_start rnd_b s
     else if cmd = ULTRALIGHT_CMD_AUTH_CONT then
       (if t2_auth_state s = UL_T2_AUTH_WAIT_CONT then ultralight_t2_handle_auth_cont (cmd # args) s else (s, []))
     else (s, []))"

definition ultralight_listener_t2_serialize :: "nat option \<Rightarrow> ultralight_t2 \<Rightarrow> bytes result" where
  "ultralight_listener_t2_serialize out s =
     (if \<not> t2_initialized s then Inl ENODEV else ultralight_serialize (Some (t2_model s)) out)"

definition ultralight_listener_t2_deserialize :: "bytes option \<Rightarrow> ultralight_t2 \<Rightarrow> unit result \<times> ultralight_t2" where
  "ultralight_listener_t2_deserialize inp s =
     (if \<not> t2_initialized s then (Inl ENODEV, s)
      else case ultralight_deserialize inp (t2_model s) of
        (Inl e, m) \<Rightarrow> (Inl e, s\<lparr>t2_model := m\<rparr>)
      | (Inr _, m) \<Rightarrow>
        let cfg = ultralight_parse_config m in
        (Inr (), s\<lparr>t2_model := m, t2_cfg := cfg,
           t2_auth_state := (if ultralight_t2_type_supports_pwd (ul_type m) \<and> ul_pages_total m \<le> ul_pages_read m \<and> uc_valid cfg \<and>
               (\<not> ultralight_read_protection_enabled cfg \<or> \<not> uc_prot cfg)
             then UL_T2_AUTH_SUCCESS else UL_T2_AUTH_IDLE)\<rparr>))"

definition ultralight_listener_t2_init :: "ultralight_t2 \<Rightarrow> unit result \<times> ultralight_t2" where
  "ultralight_listener_t2_init s =
     (if t2_initialized s then (Inl EALREADY, s)
      else (Inr (), s\<lparr>t2_model := ultralight_data_reset, t2_auth_state := UL_T2_AUTH_IDLE, t2_initialized := True\<rparr>))"

definition ultralight_listener_t2_shutdown :: "ultralight_t2 \<Rightarrow> unit result \<times> ultralight_t2" where
  "ultralight_listener_t2_shutdown s =
     (if \<not> t2_initialized s then (Inr (), s)
      else (Inr (), s\<lparr>t2_model := ultralight_data_reset, t2_auth_state := UL_T2_AUTH_IDLE, t2_initialized := False\<rparr>))"

text \<open>The module's variables before its first use, all zero.\<close>

definition ultralight_t2_boot :: ultralight_t2 where
  "ultralight_t2_boot = \<lparr>t2_model = ultralight_data_reset\<lparr>ul_type := UL_TYPE_ORIGIN, ul_variant := 0\<rparr>,
     t2_cfg = ultralight_config_zero, t2_initialized = False, t2_auth_state = UL_T2_AUTH_IDLE,
     t2_rnd_b = replicate 8 0, t2_enc_b = replicate 8 0\<rparr>"

section \<open>Protected pages\<close>

lemmas t2_handler_defs = ultralight_listener_t2_on_tag_cmd_def ultralight_t2_handle_read_def ultralight_t2_handle_get_version_def
  ultralight_t2_handle_read_sig_def ultralight_t2_handle_read_cnt_def ultralight_t2_handle_tearing_def
  ultralight_t2_handle_pwd_auth_def ultralight_t2_handle_auth_start_def ultralight_t2_handle_auth_cont_def

text \<open>The commands of a reader, each with the nonce the tag draws, and the answers to them.\<close>

fun ultralight_t2_run :: "(bytes \<times> bytes) list \<Rightarrow> ultralight_t2 \<Rightarrow> ultralight_t2 \<times> bytes list list" where
  "ultralight_t2_run [] s = (s, [])"
| "ultralight_t2_run ((rnd_b, tx) # cs) s =
     (let (s, r) = ultralight_listener_t2_on_tag_cmd rnd_b (Some tx) s; (s, rs) = ultralight_t2_run cs s in (s, r # rs))"

text \<open>Two cards with the same public part: they differ at most in pages that are protected against reading.\<close>

definition ultralight_same_public :: "ultralight_data \<Rightarrow> ultralight_data \<Rightarrow> bool" where
  "ultralight_same_public m1 m2 \<longleftrightarrow>
     m2 = m1\<lparr>ul_pages := ul_pages m2\<rparr> \<and>
     uc_valid (ultralight_parse_config m1) \<and> uc_valid (ultralight_parse_config m2) \<and>
     uc_prot (ultralight_parse_config m1) \<and> uc_prot (ultralight_parse_config m2) \<and>
     uc_auth0 (ultralight_parse_config m1) \<noteq> ULTRALIGHT_AUTH0_NONE \<and>
     uc_auth0 (ultralight_parse_config m2) = uc_auth0 (ultralight_parse_config m1) \<and>
     (\<forall>p < unat (uc_auth0 (ultralight_parse_config m1)). ul_pages m1 ! p = ul_pages m2 ! p)"

definition ultralight_sends_password :: "bytes \<Rightarrow> ultralight_data \<Rightarrow> bool" where
  "ultralight_sends_password tx m \<longleftrightarrow> 5 \<le> length tx \<and> tx ! 0 = ULTRALIGHT_CMD_PWD_AUTH \<and>
     sub_bytes 1 4 tx = uc_pwd (ultralight_parse_config m)"

text \<open>The states of the two listeners while nobody has authenticated.\<close>

definition t2_locked_pair :: "ultralight_t2 \<Rightarrow> ultralight_t2 \<Rightarrow> bool" where
  "t2_locked_pair s1 s2 \<longleftrightarrow> ultralight_same_public (t2_model s1) (t2_model s2) \<and>
     ultralight_type_has_password_config (ul_type (t2_model s1)) \<and>
     t2_cfg s1 = ultralight_parse_config (t2_model s1) \<and> t2_cfg s2 = ultralight_parse_config (t2_model s2) \<and>
     t2_initialized s1 = t2_initialized s2 \<and> t2_auth_state s1 = UL_T2_AUTH_IDLE \<and> t2_auth_state s2 = UL_T2_AUTH_IDLE"

lemma same_public_fields:
  assumes "ultralight_same_public m1 m2"
  shows "ul_type m2 = ul_type m1" "ul_pages_total m2 = ul_pages_total m1" "ul_has_version m2 = ul_has_version m1"
    "ul_version m2 = ul_version m1" "ul_has_signature m2 = ul_has_signature m1" "ul_signature m2 = ul_signature m1"
    "ul_counters m2 = ul_counters m1" "ul_counter_count m2 = ul_counter_count m1"
    "ul_tearing_flags m2 = ul_tearing_flags m1" "ul_tearing_flag_count m2 = ul_tearing_flag_count m1"
proof -
  obtain ps where "m2 = m1\<lparr>ul_pages := ps\<rparr>" using assms unfolding ultralight_same_public_def by blast
  then show "ul_type m2 = ul_type m1" "ul_pages_total m2 = ul_pages_total m1" "ul_has_version m2 = ul_has_version m1"
    "ul_version m2 = ul_version m1" "ul_has_signature m2 = ul_has_signature m1" "ul_signature m2 = ul_signature m1"
    "ul_counters m2 = ul_counters m1" "ul_counter_count m2 = ul_counter_count m1"
    "ul_tearing_flags m2 = ul_tearing_flags m1" "ul_tearing_flag_count m2 = ul_tearing_flag_count m1" by simp_all
qed

lemma t2_locked_fields:
  assumes "t2_locked_pair s1 s2"
  shows "ultralight_same_public (t2_model s1) (t2_model s2)" "ultralight_type_has_password_config (ul_type (t2_model s1))"
    "t2_cfg s1 = ultralight_parse_config (t2_model s1)" "t2_cfg s2 = ultralight_parse_config (t2_model s2)"
    "t2_initialized s2 = t2_initialized s1" "t2_auth_state s1 = UL_T2_AUTH_IDLE" "t2_auth_state s2 = UL_T2_AUTH_IDLE"
  using assms by (auto simp: t2_locked_pair_def)

lemma t2_locked_readable:
  assumes "t2_locked_pair s1 s2"
  shows "ultralight_t2_page_readable s1 p \<longleftrightarrow> p < ul_pages_total (t2_model s1) \<and> p < unat (uc_auth0 (t2_cfg s1))"
    "ultralight_t2_page_readable s2 p = ultralight_t2_page_readable s1 p"
  using same_public_fields(1,2) [OF t2_locked_fields(1) [OF assms]] assms
  unfolding t2_locked_pair_def ultralight_same_public_def
  by (auto simp: ultralight_t2_page_readable_def ultralight_t2_type_supports_pwd_def
      ultralight_page_needs_auth_def ultralight_read_protection_enabled_def)

lemma t2_locked_read_loop:
  assumes "t2_locked_pair s1 s2"
  shows "ultralight_t2_read_loop s2 start_page is out = ultralight_t2_read_loop s1 start_page is out"
proof (induction "is" arbitrary: out)
  case (Cons i "is")
  have "ul_pages (t2_model s1) ! p = ul_pages (t2_model s2) ! p" if "ultralight_t2_page_readable s1 p" for p
    using t2_locked_readable(1) [OF assms] that t2_locked_fields(1,3) [OF assms] by (simp add: ultralight_same_public_def)
  with Cons show ?case
    using t2_locked_readable(2) [OF assms] same_public_fields(2) [OF t2_locked_fields(1) [OF assms]]
    by (simp add: Let_def)
qed simp

lemma t2_locked_pwd:
  assumes "\<not> ultralight_sends_password (0x1B # args) (t2_model s)" "t2_cfg s = ultralight_parse_config (t2_model s)"
  shows "ultralight_t2_handle_pwd_auth (0x1B # args) s = (s, [])"
  using assms by (simp add: ultralight_t2_handle_pwd_auth_def ultralight_sends_password_def)

lemma t2_locked_cmd:
  assumes l: "t2_locked_pair s1 s2" and p: "\<not> ultralight_sends_password tx (t2_model s1)" "\<not> ultralight_sends_password tx (t2_model s2)"
  shows "\<exists>r. ultralight_listener_t2_on_tag_cmd rnd_b (Some tx) s1 = (s1, r) \<and> ultralight_listener_t2_on_tag_cmd rnd_b (Some tx) s2 = (s2, r)"
proof (cases tx)
  case (Cons cmd args)
  note f = t2_locked_fields(5-7) [OF l] same_public_fields [OF t2_locked_fields(1) [OF l]]
  have t: "ul_type (t2_model s1) \<noteq> UL_TYPE_MFUL_C" using t2_locked_fields(2) [OF l] by (auto simp: ultralight_type_has_password_config_def)
  have "\<exists>r. ultralight_t2_handle_read tx s1 = (s1, r) \<and> ultralight_t2_handle_read tx s2 = (s2, r)"
    unfolding ultralight_t2_handle_read_def t2_locked_read_loop [OF l]
    by (cases "ultralight_t2_read_loop s1 (tx ! 1) [0, 1, 2, 3] (replicate 16 0)") (simp_all del: ultralight_t2_read_loop.simps)
  moreover have "\<exists>r. ultralight_t2_handle_get_version s1 = (s1, r) \<and> ultralight_t2_handle_get_version s2 = (s2, r)"
    "\<exists>r. ultralight_t2_handle_read_sig s1 = (s1, r) \<and> ultralight_t2_handle_read_sig s2 = (s2, r)"
    "\<exists>r. ultralight_t2_handle_read_cnt tx s1 = (s1, r) \<and> ultralight_t2_handle_read_cnt tx s2 = (s2, r)"
    "\<exists>r. ultralight_t2_handle_tearing tx s1 = (s1, r) \<and> ultralight_t2_handle_tearing tx s2 = (s2, r)"
    by (simp_all add: f ultralight_t2_handle_get_version_def ultralight_t2_handle_read_sig_def
        ultralight_t2_handle_read_cnt_def ultralight_t2_handle_tearing_def)
  moreover have "ultralight_t2_handle_auth_start rnd_b s1 = (s1, [])" "ultralight_t2_handle_auth_start rnd_b s2 = (s2, [])"
    using t by (simp_all add: f ultralight_t2_handle_auth_start_def ultralight_t2_type_supports_auth_def)
  moreover have "cmd = 0x1B \<Longrightarrow> ultralight_t2_handle_pwd_auth tx s1 = (s1, []) \<and> ultralight_t2_handle_pwd_auth tx s2 = (s2, [])"
    using t2_locked_pwd [of args s1] t2_locked_pwd [of args s2] p t2_locked_fields(3,4) [OF l] Cons by simp
  ultimately show ?thesis
    unfolding ultralight_listener_t2_on_tag_cmd_def Cons option.case list.case
    by (auto simp: f)
qed (simp add: ultralight_listener_t2_on_tag_cmd_def)

lemma t2_locked_run:
  assumes "t2_locked_pair s1 s2"
    "\<forall>(rnd_b, tx) \<in> set cs. \<not> ultralight_sends_password tx (t2_model s1) \<and> \<not> ultralight_sends_password tx (t2_model s2)"
  shows "\<exists>rs. ultralight_t2_run cs s1 = (s1, rs) \<and> ultralight_t2_run cs s2 = (s2, rs)"
  using assms(2)
proof (induction cs)
  case (Cons c cs)
  obtain rnd_b tx where c: "c = (rnd_b, tx)" by fastforce
  with Cons.prems have p: "\<not> ultralight_sends_password tx (t2_model s1)" "\<not> ultralight_sends_password tx (t2_model s2)" by auto
  obtain rs where rs: "ultralight_t2_run cs s1 = (s1, rs)" "ultralight_t2_run cs s2 = (s2, rs)" using Cons by auto
  obtain r where "ultralight_listener_t2_on_tag_cmd rnd_b (Some tx) s1 = (s1, r)" "ultralight_listener_t2_on_tag_cmd rnd_b (Some tx) s2 = (s2, r)"
    using t2_locked_cmd [OF assms(1) p] by blast
  with rs show ?case by (simp add: c)
qed simp

lemma parse_config_type: "uc_valid (ultralight_parse_config m) \<Longrightarrow> ultralight_type_has_password_config (ul_type m)"
  by (auto simp: ultralight_parse_config_def ultralight_config_zero_def Let_def split: if_splits prod.splits)

lemma t2_loaded_locked:
  assumes "ultralight_listener_t2_deserialize (Some b1) s = (Inr (), s1)" "ultralight_listener_t2_deserialize (Some b2) s = (Inr (), s2)"
    "ultralight_same_public (t2_model s1) (t2_model s2)"
  shows "t2_locked_pair s1 s2"
proof -
  have l: "t2_cfg s' = ultralight_parse_config (t2_model s') \<and> t2_initialized s' \<and>
      (uc_prot (t2_cfg s') \<and> ultralight_read_protection_enabled (t2_cfg s') \<longrightarrow> t2_auth_state s' = UL_T2_AUTH_IDLE)"
    if "ultralight_listener_t2_deserialize (Some b) s = (Inr (), s')" for b s'
    using that by (auto simp: ultralight_listener_t2_deserialize_def Let_def split: if_splits prod.splits sum.splits)
  from l [OF assms(1)] l [OF assms(2)] assms(3) show ?thesis
    by (auto simp: t2_locked_pair_def ultralight_same_public_def ultralight_read_protection_enabled_def parse_config_type)
qed

text \<open>C22. Password-protected pages do not leak: after loading two cards that differ only in protected pages (their
  passwords included), any sequence of commands that contains neither password gets the same answers from both.\<close>

theorem ultralight_t2_protected_pages:
  assumes "ultralight_listener_t2_deserialize (Some b1) s = (Inr (), s1)" "ultralight_listener_t2_deserialize (Some b2) s = (Inr (), s2)"
    "ultralight_same_public (t2_model s1) (t2_model s2)"
    "\<forall>(rnd_b, tx) \<in> set cs. \<not> ultralight_sends_password tx (t2_model s1) \<and> \<not> ultralight_sends_password tx (t2_model s2)"
  shows "snd (ultralight_t2_run cs s1) = snd (ultralight_t2_run cs s2)"
  using t2_locked_run [OF t2_loaded_locked [OF assms(1-3)] assms(4)] by auto

text \<open>Two protected cards that differ in their password and a secret page.\<close>

definition sample_locked :: "u8 \<Rightarrow> bytes \<Rightarrow> ultralight_data" where
  "sample_locked secret pwd = sample_ntag\<lparr>ul_pages := (ul_pages sample_ntag)[8 := replicate 4 secret, 41 := [0, 0, 0, 8], 42 := [0x80, 0, 0, 0], 43 := pwd]\<rparr>"

lemma sample_locked_ok: "length pwd = 4 \<Longrightarrow> ultralight_ok (sample_locked secret pwd)"
  using sample_ntag_ok by (auto simp: sample_locked_def ultralight_ok_def dest!: set_update_subset_insert [THEN subsetD])

definition sample_t2 :: "ultralight_data \<Rightarrow> ultralight_t2" where
  "sample_t2 d = snd (ultralight_listener_t2_deserialize (Some (ultralight_blob d)) (snd (ultralight_listener_t2_init ultralight_t2_boot)))"

lemma sample_t2_loaded:
  assumes "ultralight_ok d" "0 < ul_pages_total d"
  shows "ultralight_listener_t2_deserialize (Some (ultralight_blob d)) (snd (ultralight_listener_t2_init ultralight_t2_boot)) = (Inr (), sample_t2 d)"
    "t2_model (sample_t2 d) = ultralight_stored d"
  unfolding sample_t2_def by (simp_all add: ultralight_listener_t2_deserialize_def ultralight_listener_t2_init_def
      ultralight_t2_boot_def ultralight_deserialize_blob [OF assms] Let_def)

lemma sample_locked_public: "ultralight_same_public (ultralight_stored (sample_locked 7 [1, 2, 3, 4])) (ultralight_stored (sample_locked 9 [5, 6, 7, 8]))"
  by code_simp

theorem ultralight_t2_protected_pages_witness:
  "snd (ultralight_t2_run [([], [0x30, 6]), ([], [0x1B, 0, 0, 0, 0]), ([], [0x30, 8])] (sample_t2 (sample_locked 7 [1, 2, 3, 4]))) =
   snd (ultralight_t2_run [([], [0x30, 6]), ([], [0x1B, 0, 0, 0, 0]), ([], [0x30, 8])] (sample_t2 (sample_locked 9 [5, 6, 7, 8])))"
proof -
  let ?d = "sample_locked 7 [1, 2, 3, 4]" and ?e = "sample_locked 9 [5, 6, 7, 8]"
  have p: "0 < ul_pages_total ?d" "0 < ul_pages_total ?e" by (simp_all add: sample_locked_def sample_ntag_def)
  note d = sample_t2_loaded [OF sample_locked_ok p(1)] and e = sample_t2_loaded [OF sample_locked_ok p(2)]
  have s: "ultralight_same_public (t2_model (sample_t2 ?d)) (t2_model (sample_t2 ?e))" using sample_locked_public d(2) e(2) by simp
  have "uc_pwd (ultralight_parse_config (ultralight_stored ?d)) = [1, 2, 3, 4]" "uc_pwd (ultralight_parse_config (ultralight_stored ?e)) = [5, 6, 7, 8]"
    by code_simp+
  then have "\<forall>(rnd_b, tx) \<in> set [([], [0x30, 6]), ([] :: bytes, [0x1B, 0, 0, 0, 0]), ([], [0x30, 8])].
      \<not> ultralight_sends_password tx (t2_model (sample_t2 ?d)) \<and> \<not> ultralight_sends_password tx (t2_model (sample_t2 ?e))"
    using d(2) e(2) by (simp add: ultralight_sends_password_def sub_bytes_def)
  from ultralight_t2_protected_pages [OF d(1) e(1) s this] show ?thesis by simp
qed

section \<open>Reading\<close>

text \<open>A page as READ answers it: zero past the end of the memory.\<close>

definition ul_row :: "ultralight_data \<Rightarrow> nat \<Rightarrow> bytes" where
  "ul_row m p = (if p < ul_pages_total m then ul_pages m ! p else replicate ULTRALIGHT_PAGE_SIZE 0)"

lemma length_ul_row [simp]: "ultralight_ok m \<Longrightarrow> length (ul_row m p) = 4"
  by (auto simp: ul_row_def ultralight_ok_def)

lemma t2_read_loop_rows:
  assumes "ultralight_ok (t2_model s)" "\<forall>i < 4. unat p + i < ul_pages_total (t2_model s) \<longrightarrow> ultralight_t2_page_readable s (unat p + i)"
  shows "length pre = 4 * i \<Longrightarrow> i + n = 4 \<Longrightarrow> ultralight_t2_read_loop s p [i..<4] (pre @ replicate (4 * n) 0) =
    Some (pre @ concat (map (\<lambda>i. ul_row (t2_model s) (unat p + i)) [i..<4]))"
proof (induction n arbitrary: i pre)
  case (Suc n)
  let ?row = "ul_row (t2_model s) (unat p + i)"
  have i: "[i..<4] = i # [Suc i..<4]" using Suc.prems by (simp add: upt_conv_Cons)
  have r: "length ?row = 4" using assms(1) by simp
  have "memcpy_at (pre @ replicate (4 * Suc n) 0) (i * 4) ?row = (pre @ ?row) @ replicate (4 * n) 0"
    using Suc.prems(1) r by (simp add: memcpy_at_def mult.commute)
  moreover have "ultralight_t2_read_loop s p [Suc i..<4] ((pre @ ?row) @ replicate (4 * n) 0) =
      Some ((pre @ ?row) @ concat (map (\<lambda>i. ul_row (t2_model s) (unat p + i)) [Suc i..<4]))"
    using Suc.IH [of "pre @ ?row" "Suc i"] Suc.prems r by simp
  moreover have "unat p + i < ul_pages_total (t2_model s) \<longrightarrow> ultralight_t2_page_readable s (unat p + i)"
    using assms(2) Suc.prems(2) by simp
  ultimately show ?case
    unfolding i using r by (cases "unat p + i < ul_pages_total (t2_model s)")
      (simp_all add: Let_def ul_row_def replicate_add)
qed simp

lemma t2_read_rows:
  assumes "t2_initialized s" "ultralight_ok (t2_model s)"
    "\<forall>i < 4. unat p + i < ul_pages_total (t2_model s) \<longrightarrow> ultralight_t2_page_readable s (unat p + i)"
  shows "ultralight_listener_t2_on_tag_cmd rnd_b (Some [ULTRALIGHT_CMD_READ, p]) s =
    (s, [concat (map (\<lambda>i. ul_row (t2_model s) (unat p + i)) [0..<4])])"
proof -
  have "[0..<4] = [0, 1, 2, 3 :: nat]" by (simp add: upt_rec)
  with t2_read_loop_rows [OF assms(2,3), of "[]" 0 4] have
    "ultralight_t2_read_loop s p [0, 1, 2, 3] (replicate 16 0) = Some (concat (map (\<lambda>i. ul_row (t2_model s) (unat p + i)) [0..<4]))"
    by (simp del: ultralight_t2_read_loop.simps upt_rec_numeral)
  with assms(1) show ?thesis
    by (simp add: ultralight_listener_t2_on_tag_cmd_def ultralight_t2_handle_read_def del: ultralight_t2_read_loop.simps upt_rec_numeral)
qed

text \<open>A load that fails replaces the card and leaves the authentication of the previous one, so its pages are readable.\<close>

lemma ultralight_t2_rejected_blob_served:
  assumes d: "ultralight_ok d" "0 < ul_pages_total d"
    and s: "t2_initialized s" "t2_auth_state s = UL_T2_AUTH_SUCCESS" and p: "unat p + 4 \<le> ul_pages_total d"
  shows "\<exists>s'. ultralight_listener_t2_deserialize (Some (take (4 + 4 * ul_pages_total d) (ultralight_blob d))) s = (Inl EBADMSG, s') \<and>
    ultralight_listener_t2_on_tag_cmd rnd_b (Some [ULTRALIGHT_CMD_READ, p]) s' = (s', [concat (sub_bytes (unat p) 4 (ul_pages d))])"
proof -
  let ?n = "ul_pages_total d" and ?h = "[1, ul_variant d, lo8 (ul_pages_total d), hi8 (ul_pages_total d)]"
  let ?m = "snd (ultralight_deserialize (Some (?h @ concat (take ?n (ul_pages d)) @ [])) (t2_model s))"
  have n: "?n \<le> 256" "length (ul_pages d) = 256" using d by (simp_all add: ultralight_ok_def)
  have "length (concat (take ?n (ul_pages d))) = 4 * ?n"
    using length_concat_eq [OF ultralight_ok_rows(1) [OF d(1)]] n by simp
  then have "4 + 4 * ?n = length (?h @ concat (take ?n (ul_pages d)))" by simp
  then have b: "take (4 + 4 * ?n) (ultralight_blob d) = ?h @ concat (take ?n (ul_pages d)) @ []"
    unfolding ultralight_blob_def append_assoc [symmetric] by (simp only: append_take_drop_id take_append append_Nil2) simp
  have e: "ultralight_deserialize (Some (take (4 + 4 * ?n) (ultralight_blob d))) (t2_model s) = (Inl EBADMSG, ?m)"
    unfolding b ultralight_deserialize_pages [OF d] by (simp add: ul_read_version_def)
  have m: "ul_pages_total ?m = ?n" "\<And>k. k < ?n \<Longrightarrow> ul_pages ?m ! k = ul_pages d ! k"
    unfolding ultralight_deserialize_pages [OF d] using n by (simp_all add: ul_read_version_def Let_def memcpy_at_def nth_append)
  have ok: "ultralight_ok ?m"
    using ultralight_deserialize_ok [OF ultralight_reset_ok, of "Some (?h @ concat (take ?n (ul_pages d)) @ [])"]
    unfolding ultralight_deserialize_pages [OF d] .
  let ?s = "s\<lparr>t2_model := ?m\<rparr>"
  have "ultralight_listener_t2_on_tag_cmd rnd_b (Some [0x30, p]) ?s = (?s, [concat (map (\<lambda>i. ul_row ?m (unat p + i)) [0..<4])])"
    using t2_read_rows [of ?s p rnd_b] s m(1) ok by (simp add: ultralight_t2_page_readable_def del: upt_rec_numeral)
  moreover have "map (\<lambda>i. ul_row ?m (unat p + i)) [0..<4] = sub_bytes (unat p) 4 (ul_pages d)"
    using p m n by (intro nth_equalityI) (simp_all add: geom_simps nth_sub_bytes ul_row_def del: upt_rec_numeral)
  ultimately show ?thesis using e s(1) by (simp add: ultralight_listener_t2_deserialize_def del: upt_rec_numeral)
qed

end
