(* ===== verification/Ultralight_Poller.thy ===== *)
theory Ultralight_Poller
  imports Reader_Session Apdu_Framing Ultralight_T2
begin

text \<open>
  The Ultralight and NTAG reader (\<open>protocols/ultralight/ultralight_poller.c\<close> and \<open>ultralight_poller_i.c\<close>).  \<open>rng\<close> stands for
  \<open>sys_rand_get\<close> on the state of the environment.
\<close>

section \<open>Commands\<close>

definition ultralight_poller_i_transceive ::
  "(bytes \<Rightarrow> nat \<Rightarrow> ('t, bytes) io) \<Rightarrow> nfc_reader_session option \<Rightarrow> bytes \<Rightarrow> ('t, bytes) io" where
  "ultralight_poller_i_transceive hal session tx =
     nfc_reader_session_transceive hal session tx NFC_TRANSPORT_MAX_RESPONSE_LEN"

text \<open>In what follows \<open>xc\<close> is \<open>ultralight_poller_i_transceive\<close> with the session applied.  The commands share their shape: send, reject a
  short answer, copy a prefix.\<close>

definition ultralight_poller_i_command :: "(bytes \<Rightarrow> ('t, bytes) io) \<Rightarrow> bytes \<Rightarrow> nat \<Rightarrow> ('t, bytes) io" where
  "ultralight_poller_i_command xc tx n =
     io_bind (xc tx) (\<lambda>rx. if length rx < n then io_fail EIO else io_return (take n rx))"

definition ultralight_poller_i_read_page :: "(bytes \<Rightarrow> ('t, bytes) io) \<Rightarrow> u8 \<Rightarrow> ('t, bytes) io" where
  "ultralight_poller_i_read_page xc page = ultralight_poller_i_command xc [ULTRALIGHT_CMD_READ, page] ULTRALIGHT_READ_RESP_LEN"

definition ultralight_poller_i_get_version :: "(bytes \<Rightarrow> ('t, bytes) io) \<Rightarrow> ('t, bytes) io" where
  "ultralight_poller_i_get_version xc = ultralight_poller_i_command xc [ULTRALIGHT_CMD_GET_VERSION] ULTRALIGHT_VERSION_SIZE"

definition ultralight_poller_i_read_signature :: "(bytes \<Rightarrow> ('t, bytes) io) \<Rightarrow> ('t, bytes) io" where
  "ultralight_poller_i_read_signature xc = ultralight_poller_i_command xc [ULTRALIGHT_CMD_READ_SIG, 0x00] ULTRALIGHT_SIGNATURE_SIZE"

definition ultralight_poller_i_read_counter :: "(bytes \<Rightarrow> ('t, bytes) io) \<Rightarrow> u8 \<Rightarrow> ('t, bytes) io" where
  "ultralight_poller_i_read_counter xc index = ultralight_poller_i_command xc [ULTRALIGHT_CMD_READ_CNT, index] 3"

definition ultralight_poller_i_read_tearing :: "(bytes \<Rightarrow> ('t, bytes) io) \<Rightarrow> u8 \<Rightarrow> ('t, bytes) io" where
  "ultralight_poller_i_read_tearing xc index = ultralight_poller_i_command xc [ULTRALIGHT_CMD_CHECK_TEARING, index] 1"

definition ultralight_poller_i_pwd_auth :: "(bytes \<Rightarrow> ('t, bytes) io) \<Rightarrow> bytes \<Rightarrow> ('t, unit) io" where
  "ultralight_poller_i_pwd_auth xc pwd =
     io_bind (ultralight_poller_i_command xc [ULTRALIGHT_CMD_PWD_AUTH, pwd ! 0, pwd ! 1, pwd ! 2, pwd ! 3] ULTRALIGHT_PWD_AUTH_RESP_LEN)
       (\<lambda>_. io_return ())"

definition ultralight_poller_i_send_auth_cmd :: "(bytes \<Rightarrow> ('t, bytes) io) \<Rightarrow> bytes \<Rightarrow> bool \<Rightarrow> ('t, bytes) io" where
  "ultralight_poller_i_send_auth_cmd xc cmd initial_cmd =
     io_bind (xc cmd) (\<lambda>rx.
       let expect_code = (if initial_cmd then ULTRALIGHT_CMD_AUTH_CONT else 0x00) in
       if length rx \<noteq> ULTRALIGHT_C_AUTH_RESPONSE_SIZE \<or> rx ! 0 \<noteq> expect_code then io_fail EACCES
       else io_return rx)"

definition ultralight_poller_i_authentication_test :: "(bytes \<Rightarrow> ('t, bytes) io) \<Rightarrow> ('t, bytes) io" where
  "ultralight_poller_i_authentication_test xc = ultralight_poller_i_send_auth_cmd xc [ULTRALIGHT_CMD_AUTH, 0x00] True"

text \<open>The last eight bytes of \<open>output\<close> hold the tag's nonce at first and, after the encryption in place, the last
  ciphertext block, which is the initial vector of the answer.\<close>

definition ultralight_poller_i_authenticate ::
  "('t \<Rightarrow> bytes \<times> 't) \<Rightarrow> (bytes \<Rightarrow> ('t, bytes) io) \<Rightarrow> bytes \<Rightarrow> ('t, bool) io" where
  "ultralight_poller_i_authenticate rng xc key t =
     (let (rnda, t) = rng t in
      io_bind (ultralight_poller_i_send_auth_cmd xc [ULTRALIGHT_CMD_AUTH, 0x00] True) (\<lambda>rx.
        let enc_rnd_b = sub_bytes 1 8 rx;
            rnd_b = ultralight_3des_shift_data (ultralight_3des_decrypt key (replicate 8 0) enc_rnd_b);
            output = ultralight_3des_encrypt key enc_rnd_b (rnda @ rnd_b) in
        io_bind (ultralight_poller_i_send_auth_cmd xc (ULTRALIGHT_CMD_AUTH_CONT # output) False) (\<lambda>auth_rx.
          let decoded_shifted_rnda = ultralight_3des_decrypt key (drop 8 output) (sub_bytes 1 8 auth_rx) in
          io_return (ultralight_3des_shift_data rnda = decoded_shifted_rnda))) t)"

section \<open>Reading a tag\<close>

definition ultralight_poller_session_valid :: "nfc_reader_session option \<Rightarrow> bool" where
  "ultralight_poller_session_valid session \<longleftrightarrow> (case session of None \<Rightarrow> False | Some s \<Rightarrow> rs_active s)"

definition ultralight_version_is_zero :: "bytes \<Rightarrow> bool" where
  "ultralight_version_is_zero ver \<longleftrightarrow> list_all (\<lambda>b. b = 0) (take ULTRALIGHT_VERSION_SIZE ver)"

definition ultralight_type_from_version :: "bytes \<Rightarrow> ultralight_type" where
  "ultralight_type_from_version ver =
     (if ultralight_version_is_zero ver then UL_TYPE_UNKNOWN
      else if ver ! 6 = 0x0B then UL_TYPE_UL11 else if ver ! 6 = 0x0E then UL_TYPE_UL21
      else if ver ! 6 = 0x0F then UL_TYPE_NTAG213 else if ver ! 6 = 0x11 then UL_TYPE_NTAG215
      else if ver ! 6 = 0x13 then UL_TYPE_NTAG216 else UL_TYPE_UNKNOWN)"

text \<open>Success means that \<open>*authenticated\<close> has been set.\<close>

definition ultralight_poller_try_pwd_auth :: "(bytes \<Rightarrow> ('t, bytes) io) \<Rightarrow> ultralight_config \<Rightarrow> bool \<Rightarrow> ('t, unit) io" where
  "ultralight_poller_try_pwd_auth xc cfg authenticated =
     (if authenticated then io_fail EINVAL
      else if uc_valid cfg then
        io_case (ultralight_poller_i_pwd_auth xc (uc_pwd cfg))
          (\<lambda>e. if uc_authlim cfg = 0 then ultralight_poller_i_pwd_auth xc [0xFF, 0xFF, 0xFF, 0xFF] else io_fail e)
          (\<lambda>_. io_return ())
      else io_fail ENOTSUP)"

definition ultralight_poller_copy_read_chunk :: "nat \<Rightarrow> nat \<Rightarrow> bytes \<Rightarrow> ultralight_data \<Rightarrow> ultralight_data" where
  "ultralight_poller_copy_read_chunk start pages_total page_buf out =
     out\<lparr>ul_pages := memcpy_at (ul_pages out) start
           (map (\<lambda>i. sub_bytes (i * ULTRALIGHT_PAGE_SIZE) ULTRALIGHT_PAGE_SIZE page_buf) [0..<min 4 (pages_total - start)]),
         ul_pages_read := (if start + 4 < pages_total then start + 4 else pages_total)\<rparr>"

text \<open>The body of the loop of \<open>ultralight_poller_read_pages\<close>: \<open>None\<close> when it returns early, otherwise whether the reader is
  authenticated now.\<close>

definition ultralight_poller_read_chunk ::
  "(bytes \<Rightarrow> ('t, bytes) io) \<Rightarrow> nat \<Rightarrow> nat \<Rightarrow> ultralight_config \<Rightarrow> bool \<Rightarrow> (ultralight_data \<times> 't, bool option) io" where
  "ultralight_poller_read_chunk xc pages_total start cfg authenticated =
     (let keep = (\<lambda>a page_buf. io_bind (on_out (ultralight_poller_copy_read_chunk start pages_total page_buf)) (\<lambda>_. io_return (Some a)));
          read_page = on_tag (ultralight_poller_i_read_page xc (of_nat start)) in
      io_case read_page
        (\<lambda>_. if \<not> authenticated \<and> uc_valid cfg
             then io_case (on_tag (ultralight_poller_try_pwd_auth xc cfg authenticated)) (\<lambda>_. io_return None)
               (\<lambda>_. io_case read_page (\<lambda>_. io_return None) (keep True))
             else io_return None)
        (keep authenticated))"

fun ultralight_poller_read_pages ::
  "(bytes \<Rightarrow> ('t, bytes) io) \<Rightarrow> nat \<Rightarrow> nat list \<Rightarrow> bool \<Rightarrow> (ultralight_data \<times> 't, unit) io" where
  "ultralight_poller_read_pages xc pages_total [] authenticated dt = io_return () dt"
| "ultralight_poller_read_pages xc pages_total (start # ss) authenticated dt =
     (let cfg = ultralight_parse_config (fst dt); config_start = fst (ultralight_config_page_indices pages_total) in
      io_case (if ultralight_type_has_password_config (ul_type (fst dt)) \<and> uc_valid cfg \<and> \<not> authenticated \<and>
                  ultralight_read_protection_enabled cfg \<and> config_start \<le> start
               then io_case (on_tag (ultralight_poller_try_pwd_auth xc cfg authenticated)) (\<lambda>_. io_return authenticated) (\<lambda>_. io_return True)
               else io_return authenticated) io_fail
        (\<lambda>authenticated.
           io_case (if ultralight_page_needs_auth cfg start \<and> \<not> authenticated
                    then io_case (on_tag (ultralight_poller_try_pwd_auth xc cfg authenticated)) (\<lambda>_. io_return None)
                      (\<lambda>_. ultralight_poller_read_chunk xc pages_total start cfg True)
                    else ultralight_poller_read_chunk xc pages_total start cfg authenticated) io_fail
             (\<lambda>r. case r of None \<Rightarrow> io_return ()
                | Some authenticated \<Rightarrow> ultralight_poller_read_pages xc pages_total ss authenticated)) dt)"

text \<open>The type, and the version when \<open>has_version\<close> is set; first the part after an answer that settles no type.\<close>

definition ultralight_poller_identify_plain :: "(bytes \<Rightarrow> ('t, bytes) io) \<Rightarrow> bytes option \<Rightarrow> ('t, ultralight_type \<times> bytes option) io" where
  "ultralight_poller_identify_plain xc ver =
     io_case (ultralight_poller_i_authentication_test xc)
       (\<lambda>_. io_case (ultralight_poller_i_read_page xc 41)
          (\<lambda>_. io_return (UL_TYPE_ORIGIN, ver)) (\<lambda>_. io_return (UL_TYPE_NTAG203, ver)))
       (\<lambda>_. io_return (UL_TYPE_MFUL_C, ver))"

definition ultralight_poller_identify_type :: "(bytes \<Rightarrow> ('t, bytes) io) \<Rightarrow> ('t, ultralight_type \<times> bytes option) io" where
  "ultralight_poller_identify_type xc =
     io_case (ultralight_poller_i_get_version xc) (\<lambda>_. ultralight_poller_identify_plain xc None)
       (\<lambda>version.
          let ver = (if ultralight_version_is_zero version then None else Some version);
              type = ultralight_type_from_version version in
          if type \<noteq> UL_TYPE_UNKNOWN then io_return (type, ver) else ultralight_poller_identify_plain xc ver)"

definition ultralight_poller_auth_ultralight_c ::
  "('t \<Rightarrow> bytes \<times> 't) \<Rightarrow> (bytes \<Rightarrow> ('t, bytes) io) \<Rightarrow> (ultralight_data \<times> 't, bool) io" where
  "ultralight_poller_auth_ultralight_c rng xc dt =
     (let key = (if ULTRALIGHT_C_KEY_PAGE + 4 \<le> ul_pages_read (fst dt) then ultralight_3des_get_key (fst dt) else replicate 16 0) in
      io_bind (on_tag (ultralight_poller_i_authenticate rng xc key)) (\<lambda>authenticated.
        io_bind (on_out (\<lambda>d. if authenticated
          then d\<lparr>ul_pages := memcpy_at (ul_pages d) ULTRALIGHT_C_KEY_PAGE (map (\<lambda>i. sub_bytes (i * 4) 4 key) [0..<4])\<rparr> else d))
          (\<lambda>_. io_return authenticated)) dt)"

definition ultralight_poller_detect ::
  "(bytes \<Rightarrow> nat \<Rightarrow> ('t, bytes) io) \<Rightarrow> nfc_reader_session option \<Rightarrow> ('t, unit) io" where
  "ultralight_poller_detect hal session =
     (if \<not> ultralight_poller_session_valid session then io_fail EINVAL
      else io_bind (ultralight_poller_i_transceive hal session [ULTRALIGHT_CMD_READ, 0x00]) (\<lambda>rx.
        if length rx < ULTRALIGHT_READ_RESP_LEN then io_fail ENOTSUP else io_return ()))"

text \<open>Signature, counters and tearing flags: a part that cannot be read is left out.\<close>

definition ultralight_poller_read_sig :: "(bytes \<Rightarrow> ('t, bytes) io) \<Rightarrow> (ultralight_data \<times> 't, unit) io" where
  "ultralight_poller_read_sig xc =
     io_case (on_tag (ultralight_poller_i_read_signature xc)) (\<lambda>_. io_return ())
       (\<lambda>sig. on_out (\<lambda>d. d\<lparr>ul_signature := sig, ul_has_signature := True\<rparr>))"

fun ultralight_poller_read_counters :: "(bytes \<Rightarrow> ('t, bytes) io) \<Rightarrow> nat list \<Rightarrow> (ultralight_data \<times> 't, unit) io" where
  "ultralight_poller_read_counters xc [] = io_return ()"
| "ultralight_poller_read_counters xc (i # is) =
     io_case (on_tag (ultralight_poller_i_read_counter xc (of_nat i))) (\<lambda>_. ultralight_poller_read_counters xc is)
       (\<lambda>c. io_bind (on_out (\<lambda>d. d\<lparr>ul_counters := (ul_counters d)[i := c], ul_counter_count := i + 1\<rparr>))
          (\<lambda>_. ultralight_poller_read_counters xc is))"

fun ultralight_poller_read_tearings :: "(bytes \<Rightarrow> ('t, bytes) io) \<Rightarrow> nat list \<Rightarrow> (ultralight_data \<times> 't, unit) io" where
  "ultralight_poller_read_tearings xc [] = io_return ()"
| "ultralight_poller_read_tearings xc (i # is) =
     io_case (on_tag (ultralight_poller_i_read_tearing xc (of_nat i))) (\<lambda>_. ultralight_poller_read_tearings xc is)
       (\<lambda>f. io_bind (on_out (\<lambda>d. d\<lparr>ul_tearing_flags := (ul_tearing_flags d)[i := f ! 0], ul_tearing_flag_count := i + 1\<rparr>))
          (\<lambda>_. ultralight_poller_read_tearings xc is))"

definition ultralight_poller_read_rest :: "(bytes \<Rightarrow> ('t, bytes) io) \<Rightarrow> nat \<Rightarrow> bool \<Rightarrow> (ultralight_data \<times> 't, unit) io" where
  "ultralight_poller_read_rest xc pages_total has_version dt =
     (if ul_pages_read (fst dt) < pages_total \<or> \<not> has_version then (Inr (), dt)
      else io_bind (ultralight_poller_read_sig xc) (\<lambda>_.
        io_bind (ultralight_poller_read_counters xc [0, 1, 2]) (\<lambda>_. ultralight_poller_read_tearings xc [0, 1, 2])) dt)"

definition ultralight_poller_read ::
  "('t \<Rightarrow> bytes \<times> 't) \<Rightarrow> (bytes \<Rightarrow> nat \<Rightarrow> ('t, bytes) io) \<Rightarrow> nfc_reader_session option \<Rightarrow> (ultralight_data \<times> 't, unit) io" where
  "ultralight_poller_read rng hal session =
     (if \<not> ultralight_poller_session_valid session then io_fail EINVAL
      else let xc = ultralight_poller_i_transceive hal session in
        io_bind (on_out (\<lambda>_. ultralight_data_reset)) (\<lambda>_.
        io_bind (on_tag (ultralight_poller_identify_type xc)) (\<lambda>(type, ver).
        let pages_total = ultralight_pages_total_for_type type in
        io_bind (io_check (pages_total \<noteq> 0) ENOTSUP) (\<lambda>_.
        io_bind (on_out (\<lambda>d. d\<lparr>ul_type := type, ul_variant := variant_from_type type, ul_pages_total := pages_total\<rparr>)) (\<lambda>_.
        io_bind (on_out (\<lambda>d. case ver of None \<Rightarrow> d | Some v \<Rightarrow> d\<lparr>ul_has_version := True, ul_version := v\<rparr>)) (\<lambda>_.
        io_bind (if type = UL_TYPE_MFUL_C
                 then io_case (ultralight_poller_auth_ultralight_c rng xc) (\<lambda>_. io_return ()) (\<lambda>_. io_return ())
                 else io_return ()) (\<lambda>_.
        io_bind (on_out (\<lambda>d. d\<lparr>ul_pages_read := 0\<rparr>)) (\<lambda>_.
        io_bind (ultralight_poller_read_pages xc pages_total (map ((*) 4) [0..<(pages_total + 3) div 4]) False) (\<lambda>_.
        ultralight_poller_read_rest xc pages_total (ver \<noteq> None))))))))))"

section \<open>Every tag: memory safety\<close>

lemma gives_command: "gives (ultralight_poller_i_command xc tx n) (\<lambda>b. length b = n)"
  by (auto simp: gives_def ultralight_poller_i_command_def io_bind_def io_return_def io_fail_def split: prod.split sum.split)

text \<open>The structure while a tag of type \<open>ty\<close> with \<open>n\<close> pages is being read.\<close>

definition ul_reading :: "ultralight_type \<Rightarrow> nat \<Rightarrow> ultralight_data \<Rightarrow> bool" where
  "ul_reading ty n d \<longleftrightarrow> ultralight_ok d \<and> ul_type d = ty \<and> ul_pages_total d = n \<and> ul_pages_read d \<le> n"

lemma ul_reading_chunk:
  assumes "ul_reading ty n d" "length page_buf = 16" "start < n"
  shows "ul_reading ty n (ultralight_poller_copy_read_chunk start n page_buf d)"
proof -
  let ?rows = "map (\<lambda>i. sub_bytes (i * 4) 4 page_buf) [0..<min 4 (n - start)]"
  have d: "length (ul_pages d) = 256" "\<forall>p \<in> set (ul_pages d). length p = 4" "n \<le> 256"
    using assms(1) by (auto simp: ul_reading_def ultralight_ok_def)
  have "\<forall>p \<in> set ?rows. length p = 4" using length_sub_bytes_rows [of 0 4 "min 4 (n - start)" page_buf] assms(2) by auto
  from memcpy_at_rows [OF d(2) this] d assms show ?thesis
    by (simp add: ul_reading_def ultralight_poller_copy_read_chunk_def ultralight_ok_def geom_simps)
qed

lemma ul_reading_read_chunk:
  assumes "start < n"
  shows "keeps (ul_reading ty n) (ultralight_poller_read_chunk xc n start cfg a)"
proof -
  have k: "keeps (ul_reading ty n) (io_bind (on_out (ultralight_poller_copy_read_chunk start n page_buf)) (\<lambda>_. io_return (Some b)))"
    if "length page_buf = 16" for page_buf b
    by (intro keeps_bind keeps_out keeps_basic ul_reading_chunk that assms)
  show ?thesis
    unfolding ultralight_poller_read_chunk_def Let_def ultralight_poller_i_read_page_def
    by (intro keeps_case_tag [OF gives_command] keeps_if keeps_case keeps_basic k)
qed

lemma ul_reading_read_pages:
  fixes xc :: "bytes \<Rightarrow> ('t, bytes) io"
  shows "\<forall>s \<in> set ss. s < n \<Longrightarrow> keeps (ul_reading ty n) (ultralight_poller_read_pages xc n ss a)"
proof (induction ss arbitrary: a)
  case Nil
  have "ultralight_poller_read_pages xc n [] a = io_return ()" by (rule ext) simp
  then show ?case using keeps_basic(1) by metis
next
  case (Cons s ss)
  have r: "keeps (ul_reading ty n) (case r of None \<Rightarrow> io_return () | Some a \<Rightarrow> ultralight_poller_read_pages xc n ss a)" for r :: "bool option"
    using Cons by (cases r) auto
  show ?case
  proof (rule keepsI)
    fix d and t :: 't assume "ul_reading ty n d"
    then have i: "ul_reading ty n (fst (d, t))" by simp
    show "ul_reading ty n (fst (snd (ultralight_poller_read_pages xc n (s # ss) a (d, t))))"
      unfolding ultralight_poller_read_pages.simps Let_def using Cons.prems
      by (intro keepsD [of "ul_reading ty n" _ "(d, t)", OF _ i] keeps_case keeps_if keeps_basic ul_reading_read_chunk r) auto
  qed
qed

lemma ul_reading_rest: "keeps (ul_reading ty n) (ultralight_poller_read_rest xc n v)"
proof -
  have sig: "keeps (ul_reading ty n) (ultralight_poller_read_sig xc)"
    unfolding ultralight_poller_read_sig_def ultralight_poller_i_read_signature_def
    by (rule keeps_case_tag [OF gives_command]) (auto simp: ul_reading_def ultralight_ok_def)
  have cnt: "\<forall>i \<in> set is. i < 3 \<Longrightarrow> keeps (ul_reading ty n) (ultralight_poller_read_counters xc is)" for "is"
  proof (induction "is")
    case (Cons i "is")
    have "keeps (ul_reading ty n) (on_out (\<lambda>d. d\<lparr>ul_counters := (ul_counters d)[i := c], ul_counter_count := i + 1\<rparr>))" if "length c = 3" for c
      using Cons.prems that by (intro keeps_out) (auto simp: ul_reading_def ultralight_ok_def dest!: set_update_subset_insert [THEN subsetD])
    with Cons show ?case
      unfolding ultralight_poller_read_counters.simps ultralight_poller_i_read_counter_def
      by (intro keeps_case_tag [OF gives_command] keeps_bind) auto
  qed auto
  have tear: "\<forall>i \<in> set is. i < 3 \<Longrightarrow> keeps (ul_reading ty n) (ultralight_poller_read_tearings xc is)" for "is"
  proof (induction "is")
    case (Cons i "is")
    have "keeps (ul_reading ty n) (on_out (\<lambda>d. d\<lparr>ul_tearing_flags := (ul_tearing_flags d)[i := f], ul_tearing_flag_count := i + 1\<rparr>))" for f
      using Cons.prems by (intro keeps_out) (auto simp: ul_reading_def ultralight_ok_def)
    with Cons show ?case
      unfolding ultralight_poller_read_tearings.simps ultralight_poller_i_read_tearing_def
      by (intro keeps_case_tag [OF gives_command] keeps_bind) auto
  qed auto
  have "keeps (ul_reading ty n) (io_bind (ultralight_poller_read_sig xc) (\<lambda>_.
      io_bind (ultralight_poller_read_counters xc [0, 1, 2]) (\<lambda>_. ultralight_poller_read_tearings xc [0, 1, 2])))"
    by (intro keeps_bind sig cnt tear) auto
  then show ?thesis by (auto simp: keeps_def ultralight_poller_read_rest_def)
qed

text \<open>The identification always gives a type with a size, and a version of eight bytes.\<close>

lemma identify_plain_total:
  "\<exists>ty t'. ultralight_poller_identify_plain xc ver t = (Inr (ty, ver), t') \<and> ty \<noteq> UL_TYPE_UNKNOWN"
proof -
  obtain r t1 where 1: "ultralight_poller_i_authentication_test xc t = (r, t1)" by (metis surj_pair)
  obtain r' t2 where 2: "ultralight_poller_i_read_page xc 41 t1 = (r', t2)" by (metis surj_pair)
  from 1 2 show ?thesis by (cases r; cases r') (simp_all add: ultralight_poller_identify_plain_def io_case_def io_return_def)
qed

lemma identify_type_total:
  "\<exists>ty ver t'. ultralight_poller_identify_type xc t = (Inr (ty, ver), t') \<and> ty \<noteq> UL_TYPE_UNKNOWN \<and>
    (case ver of None \<Rightarrow> True | Some v \<Rightarrow> length v = ULTRALIGHT_VERSION_SIZE)"
proof -
  obtain r t1 where v: "ultralight_poller_i_get_version xc t = (r, t1)" by (metis surj_pair)
  show ?thesis
  proof (cases r)
    case (Inl e)
    with v identify_plain_total [of xc None t1] show ?thesis
      by (auto simp: ultralight_poller_identify_type_def io_case_def)
  next
    case (Inr version)
    have "gives (ultralight_poller_i_get_version xc) (\<lambda>b. length b = 8)"
      unfolding ultralight_poller_i_get_version_def by (rule gives_command)
    then have l: "length version = 8" using v Inr by (auto simp: gives_def dest!: spec [of _ t])
    obtain ty1 t2 where "ultralight_poller_identify_plain xc None t1 = (Inr (ty1, None), t2)" "ty1 \<noteq> UL_TYPE_UNKNOWN"
      using identify_plain_total [of xc None t1] by auto
    moreover obtain ty2 t3 where "ultralight_poller_identify_plain xc (Some version) t1 = (Inr (ty2, Some version), t3)" "ty2 \<noteq> UL_TYPE_UNKNOWN"
      using identify_plain_total [of xc "Some version" t1] by auto
    ultimately show ?thesis
      using v Inr l by (simp add: ultralight_poller_identify_type_def io_case_def Let_def io_return_def)
  qed
qed

lemma ul_reading_key:
  assumes "ul_reading ty n d" "length key = 16"
  shows "ul_reading ty n (d\<lparr>ul_pages := memcpy_at (ul_pages d) ULTRALIGHT_C_KEY_PAGE (map (\<lambda>i. sub_bytes (i * 4) 4 key) [0..<4])\<rparr>)"
proof -
  let ?rows = "map (\<lambda>i. sub_bytes (i * 4) 4 key) [0..<4]"
  have d: "length (ul_pages d) = 256" "\<forall>p \<in> set (ul_pages d). length p = 4" using assms(1) by (auto simp: ul_reading_def ultralight_ok_def)
  have "\<forall>p \<in> set ?rows. length p = 4" using length_sub_bytes_rows [of 0 4 4 key] assms(2) by simp
  from memcpy_at_rows [OF d(2) this, of 44] d assms show ?thesis
    by (simp add: ul_reading_def ultralight_ok_def length_memcpy_at del: upt_rec_numeral)
qed

lemma length_get_key: "ultralight_ok d \<Longrightarrow> length (ultralight_3des_get_key d) = 16"
proof -
  assume d: "ultralight_ok d"
  then have "list_all (\<lambda>x. length x = 4) (sub_bytes 44 4 (ul_pages d))"
    by (auto simp: ultralight_ok_def list_all_iff sub_bytes_def dest: in_set_takeD in_set_dropD)
  from length_concat_eq [OF this] d show ?thesis by (simp add: ultralight_3des_get_key_def ultralight_ok_def geom_simps)
qed

lemma ul_reading_auth_c:
  fixes xc :: "bytes \<Rightarrow> ('t, bytes) io"
  shows "keeps (ul_reading ty n) (ultralight_poller_auth_ultralight_c rng xc)"
proof (rule keepsI)
  fix d and t :: 't assume i: "ul_reading ty n d"
  define key where "key = (if 44 + 4 \<le> ul_pages_read d then ultralight_3des_get_key d else replicate 16 0)"
  have "length key = 16" using i length_get_key by (simp add: key_def ul_reading_def)
  then have "keeps (ul_reading ty n) (io_bind (on_tag (ultralight_poller_i_authenticate rng xc key)) (\<lambda>authenticated.
        io_bind (on_out (\<lambda>d. if authenticated
          then d\<lparr>ul_pages := memcpy_at (ul_pages d) ULTRALIGHT_C_KEY_PAGE (map (\<lambda>i. sub_bytes (i * 4) 4 key) [0..<4])\<rparr> else d))
          (\<lambda>_. io_return authenticated)))" (is "keeps _ ?m")
    by (intro keeps_bind keeps_basic keeps_out) (simp add: ul_reading_key del: upt_rec_numeral)
  from keepsD [OF this, of "(d, t)"] i have "ul_reading ty n (fst (snd (?m (d, t))))" by simp
  then show "ul_reading ty n (fst (snd (ultralight_poller_auth_ultralight_c rng xc (d, t))))"
    unfolding ultralight_poller_auth_ultralight_c_def Let_def fst_conv key_def .
qed

lemma pages_total_for_type_bounds: "ty \<noteq> UL_TYPE_UNKNOWN \<Longrightarrow> 0 < ultralight_pages_total_for_type ty \<and> ultralight_pages_total_for_type ty \<le> 231"
  by (cases ty) simp_all

text \<open>The reader after the identification, as one step.\<close>

lemma ultralight_poller_read_split:
  assumes "ultralight_poller_session_valid session"
    "ultralight_poller_identify_type (ultralight_poller_i_transceive hal session) t = (Inr (ty, ver), t1)" "ty \<noteq> UL_TYPE_UNKNOWN"
  shows "ultralight_poller_read rng hal session (d, t) =
    (let xc = ultralight_poller_i_transceive hal session; n = ultralight_pages_total_for_type ty;
         d0 = ultralight_data_reset\<lparr>ul_type := ty, ul_variant := variant_from_type ty, ul_pages_total := n\<rparr> in
     io_bind (if ty = UL_TYPE_MFUL_C
              then io_case (ultralight_poller_auth_ultralight_c rng xc) (\<lambda>_. io_return ()) (\<lambda>_. io_return ())
              else io_return ()) (\<lambda>_.
     io_bind (on_out (\<lambda>d. d\<lparr>ul_pages_read := 0\<rparr>)) (\<lambda>_.
     io_bind (ultralight_poller_read_pages xc n (map ((*) 4) [0..<(n + 3) div 4]) False) (\<lambda>_.
     ultralight_poller_read_rest xc n (ver \<noteq> None))))
     (case ver of None \<Rightarrow> d0 | Some v \<Rightarrow> d0\<lparr>ul_has_version := True, ul_version := v\<rparr>, t1))"
  using assms pages_total_for_type_bounds [OF assms(3)]
  by (simp add: ultralight_poller_read_def Let_def io_bind_simps io_bind_on_tag)

text \<open>C25. Whatever the tag answers, the Ultralight reader terminates inside its output structure, and when it reports
  success the structure holds a known type with that type's number of pages, so it can be stored.\<close>

theorem ultralight_poller_read_any_tag:
  assumes "ultralight_ok d" "ultralight_poller_read rng hal session (d, t) = (r, (d', t'))"
  shows "ultralight_ok d' \<and> (r = Inr () \<longrightarrow> ul_type d' \<noteq> UL_TYPE_UNKNOWN \<and>
    ul_pages_total d' = ultralight_pages_total_for_type (ul_type d') \<and> ul_pages_read d' \<le> ul_pages_total d' \<and>
    ultralight_serialize (Some d') (Some (ultralight_serial_len d')) = Inr (ultralight_blob d'))"
proof (cases "ultralight_poller_session_valid session")
  case False
  with assms show ?thesis by (auto simp: ultralight_poller_read_def io_fail_def)
next
  case True
  let ?xc = "ultralight_poller_i_transceive hal session"
  obtain ty ver t1 where i: "ultralight_poller_identify_type ?xc t = (Inr (ty, ver), t1)" "ty \<noteq> UL_TYPE_UNKNOWN"
    "case ver of None \<Rightarrow> True | Some v \<Rightarrow> length v = 8"
    using identify_type_total [of ?xc t] by blast
  let ?n = "ultralight_pages_total_for_type ty"
  let ?d0 = "ultralight_data_reset\<lparr>ul_type := ty, ul_variant := variant_from_type ty, ul_pages_total := ?n\<rparr>"
  let ?d1 = "case ver of None \<Rightarrow> ?d0 | Some v \<Rightarrow> ?d0\<lparr>ul_has_version := True, ul_version := v\<rparr>"
  note b = pages_total_for_type_bounds [OF i(2)]
  have "ul_reading ty ?n ?d0" using ultralight_reset_ok b by (simp add: ul_reading_def ultralight_ok_def) (simp add: ultralight_data_reset_def)
  then have d1: "ul_reading ty ?n (fst (?d1, t1))" using i(3) by (simp add: ul_reading_def ultralight_ok_def split: option.splits)
  have "keeps (ul_reading ty ?n) (io_bind (if ty = UL_TYPE_MFUL_C
              then io_case (ultralight_poller_auth_ultralight_c rng ?xc) (\<lambda>_. io_return ()) (\<lambda>_. io_return ())
              else io_return ()) (\<lambda>_.
     io_bind (on_out (\<lambda>d. d\<lparr>ul_pages_read := 0\<rparr>)) (\<lambda>_.
     io_bind (ultralight_poller_read_pages ?xc ?n (map ((*) 4) [0..<(?n + 3) div 4]) False) (\<lambda>_.
     ultralight_poller_read_rest ?xc ?n (ver \<noteq> None)))))"
    by (intro keeps_bind keeps_if keeps_case keeps_basic keeps_out ul_reading_auth_c ul_reading_read_pages ul_reading_rest)
      (auto simp: ul_reading_def ultralight_ok_def)
  from keepsD [OF this d1] assms(2) have "ul_reading ty ?n d'"
    unfolding ultralight_poller_read_split [OF True i(1,2)] Let_def by simp
  with i(2) b ultralight_serialize_blob [of d'] show ?thesis by (simp add: ul_reading_def)
qed

theorem ultralight_poller_read_any_tag_witness:
  "case ultralight_poller_read (\<lambda>t. (replicate 8 0, t)) no_tag (Some (nfc_reader_session_zero\<lparr>rs_active := True\<rparr>)) (ultralight_data_reset, ()) of
     (r, (d', t')) \<Rightarrow> ultralight_ok d'"
proof -
  obtain r d' t' where e: "ultralight_poller_read (\<lambda>t. (replicate 8 0, t)) no_tag (Some (nfc_reader_session_zero\<lparr>rs_active := True\<rparr>))
      (ultralight_data_reset, ()) = (r, (d', t'))" by (metis surj_pair)
  from ultralight_poller_read_any_tag [OF ultralight_reset_ok e] show ?thesis unfolding e by simp
qed

end
