(* ===== verification/Ultralight_Loopback.thy ===== *)
theory Ultralight_Loopback
  imports Ultralight_Poller
begin

text \<open>
  The Ultralight reader in front of the emulated tag.  The field holds the tag and the states \<open>k\<close> of two sources of
  nonces: \<open>nonce\<close> gives the tag's, \<open>rng\<close> the reader's.
\<close>

section \<open>The field\<close>

definition ul_loop :: "('k \<Rightarrow> bytes \<times> 'k) \<Rightarrow> bytes \<Rightarrow> nat \<Rightarrow> (ultralight_t2 \<times> 'k, bytes) io" where
  "ul_loop nonce tx n sk = (case nonce (snd sk) of (rnd_b, k') \<Rightarrow>
     case ultralight_listener_t2_on_tag_cmd rnd_b (Some tx) (fst sk) of
       (s', []) \<Rightarrow> (Inl ETIMEDOUT, (s', k'))
     | (s', r # _) \<Rightarrow> (Inr r, (s', k')))"

definition ul_rng :: "('k \<Rightarrow> bytes \<times> 'k) \<Rightarrow> ultralight_t2 \<times> 'k \<Rightarrow> bytes \<times> (ultralight_t2 \<times> 'k)" where
  "ul_rng rng sk = (case rng (snd sk) of (b, k') \<Rightarrow> (b, (fst sk, k')))"

definition nonces :: "('k \<Rightarrow> bytes \<times> 'k) \<Rightarrow> bool" where
  "nonces f \<longleftrightarrow> (\<forall>k. length (fst (f k)) = ULTRALIGHT_C_AUTH_RND_BLOCK_SIZE)"

abbreviation (input) ul_xc :: "('k \<Rightarrow> bytes \<times> 'k) \<Rightarrow> bytes \<Rightarrow> (ultralight_t2 \<times> 'k, bytes) io" where
  "ul_xc nonce tx \<equiv> ul_loop nonce tx NFC_TRANSPORT_MAX_RESPONSE_LEN"

text \<open>The tag that is ready with card \<open>m\<close>; no command changes that.\<close>

definition ul_up :: "ultralight_data \<Rightarrow> ultralight_t2 \<Rightarrow> bool" where
  "ul_up m s \<longleftrightarrow> t2_initialized s \<and> t2_model s = m \<and> t2_cfg s = ultralight_parse_config m"

lemma t2_cmd_frame:
  assumes "ultralight_listener_t2_on_tag_cmd rnd_b tx s = (s', r)"
  shows "t2_model s' = t2_model s \<and> t2_cfg s' = t2_cfg s \<and> t2_initialized s' = t2_initialized s"
  using assms unfolding t2_handler_defs Let_def by (auto split: option.splits list.splits if_splits)

lemma ul_loop_up:
  assumes "ul_up m s"
  shows "\<exists>r s' k'. ul_loop nonce tx n (s, k) = (r, (s', k')) \<and> ul_up m s'"
proof -
  obtain rnd_b k' where k: "nonce k = (rnd_b, k')" by (metis surj_pair)
  obtain s' r where c: "ultralight_listener_t2_on_tag_cmd rnd_b (Some tx) s = (s', r)" by (metis surj_pair)
  from t2_cmd_frame [OF c] assms have "ul_up m s'" by (simp add: ul_up_def)
  with k c show ?thesis by (cases r) (simp_all add: ul_loop_def)
qed

section \<open>Mutual authentication\<close>

lemma length_shift [simp]: "length b = 8 \<Longrightarrow> length (ultralight_3des_shift_data b) = 8"
  by (simp add: ultralight_3des_shift_data_def)

lemma cbc_length: "length iv = 8 \<Longrightarrow> length xs = 8 * n \<Longrightarrow> length (ultralight_3des_encrypt key iv xs) = 8 * n"
  and cbc_inverse: "length iv = 8 \<Longrightarrow> length xs = 8 * n \<Longrightarrow> ultralight_3des_decrypt key iv (ultralight_3des_encrypt key iv xs) = xs"
  using cbc_roundtrip by blast+

text \<open>C24. The Ultralight C handshake works between the two implementations: with the same key at both ends, whatever nonces they
  draw, the reader concludes that the tag is authentic and the tag that the reader is.\<close>

theorem ultralight_c_authenticates:
  assumes "nonces nonce" "nonces rng" "ul_up m s" "ul_type m = UL_TYPE_MFUL_C"
  shows "\<exists>s' k'. ultralight_poller_i_authenticate (ul_rng rng) (ul_xc nonce) (ultralight_3des_get_key m) (s, k) = (Inr True, (s', k')) \<and>
    ul_up m s' \<and> t2_auth_state s' = UL_T2_AUTH_SUCCESS"
proof -
  let ?key = "ultralight_3des_get_key m"
  obtain rnda k1 where a: "rng k = (rnda, k1)" by (metis surj_pair)
  obtain rnd_b k2 where b: "nonce k1 = (rnd_b, k2)" by (metis surj_pair)
  obtain x k3 where c: "nonce k2 = (x, k3)" by (metis surj_pair)
  have la: "length rnda = 8" using assms(2) a unfolding nonces_def by (metis fst_conv)
  have lb: "length rnd_b = 8" using assms(1) b unfolding nonces_def by (metis fst_conv)
  define enc_b where "enc_b = ultralight_3des_encrypt ?key (replicate 8 0) rnd_b"
  have le: "length enc_b = 8" using cbc_length [of "replicate 8 0" rnd_b 1 ?key] lb by (simp add: enc_b_def)
  have db: "ultralight_3des_decrypt ?key (replicate 8 0) enc_b = rnd_b"
    using cbc_inverse [of "replicate 8 0" rnd_b 1 ?key] lb by (simp add: enc_b_def)
  let ?plain = "rnda @ ultralight_3des_shift_data rnd_b"
  define outp where "outp = ultralight_3des_encrypt ?key enc_b ?plain"
  have lo: "length outp = 16" using cbc_length [of enc_b ?plain 2 ?key] la lb le by (simp add: outp_def)
  have dout: "ultralight_3des_decrypt ?key enc_b outp = ?plain"
    using cbc_inverse [of enc_b ?plain 2 ?key] la lb le by (simp add: outp_def)
  define resp where "resp = ultralight_3des_encrypt ?key (drop 8 outp) (ultralight_3des_shift_data rnda)"
  have lr: "length resp = 8" using cbc_length [of "drop 8 outp" "ultralight_3des_shift_data rnda" 1 ?key] la lo by (simp add: resp_def)
  have dr: "ultralight_3des_decrypt ?key (drop 8 outp) resp = ultralight_3des_shift_data rnda"
    using cbc_inverse [of "drop 8 outp" "ultralight_3des_shift_data rnda" 1 ?key] la lo by (simp add: resp_def)
  let ?s1 = "s\<lparr>t2_rnd_b := rnd_b, t2_enc_b := enc_b, t2_auth_state := UL_T2_AUTH_WAIT_CONT\<rparr>"
  let ?s2 = "?s1\<lparr>t2_auth_state := UL_T2_AUTH_SUCCESS\<rparr>"
  have up: "t2_initialized s" "t2_model s = m" using assms(3) by (simp_all add: ul_up_def)
  have 1: "ul_loop nonce [0x1A, 0] 255 (s, k1) = (Inr (0xAF # enc_b), (?s1, k2))"
    using up assms(4) b by (simp add: ul_loop_def ultralight_listener_t2_on_tag_cmd_def ultralight_t2_handle_auth_start_def
        ultralight_t2_type_supports_auth_def Let_def enc_b_def)
  have sb: "sub_bytes (Suc 0) 16 (0xAF # outp) = outp" "sub_bytes 9 8 (0xAF # outp) = drop 8 outp"
    "sub_bytes 8 8 ?plain = ultralight_3des_shift_data rnd_b"
    using lo la lb by (simp_all add: sub_bytes_def)
  have 2: "ul_loop nonce (0xAF # outp) 255 (?s1, k2) = (Inr (0 # resp), (?s2, k3))"
    using up assms(4) c lo la dout sb by (simp add: ul_loop_def ultralight_listener_t2_on_tag_cmd_def ultralight_t2_handle_auth_cont_def
        ultralight_t2_type_supports_auth_def Let_def resp_def)
  have 3: "ultralight_poller_i_send_auth_cmd (ul_xc nonce) [0x1A, 0] True (s, k1) = (Inr (0xAF # enc_b), (?s1, k2))"
    "ultralight_poller_i_send_auth_cmd (ul_xc nonce) (0xAF # outp) False (?s1, k2) = (Inr (0 # resp), (?s2, k3))"
    using 1 2 le lr by (simp_all add: ultralight_poller_i_send_auth_cmd_def io_bind_def io_return_def Let_def)
  have sb': "sub_bytes (Suc 0) 8 (0xAF # enc_b) = enc_b" "sub_bytes (Suc 0) 8 (0 # resp) = resp" using le lr by (simp_all add: sub_bytes_def)
  have "ultralight_poller_i_authenticate (ul_rng rng) (ul_xc nonce) ?key (s, k) = (Inr True, (?s2, k3))"
    using a 3 db dr sb' by (simp add: ultralight_poller_i_authenticate_def ul_rng_def Let_def io_bind_def io_return_def
        outp_def [symmetric])
  moreover have "ul_up m ?s2" using assms(3) by (simp add: ul_up_def)
  ultimately show ?thesis by (intro exI [of _ ?s2] exI [of _ k3]) simp
qed

section \<open>Single commands\<close>

text \<open>A card that the reader can identify and read: the type is told by the version, or there is no version and it is an
  Ultralight C or an NTAG203; no page needs a password; the optional parts come with a version only.\<close>

definition ul_plain :: "ultralight_data \<Rightarrow> bool" where
  "ul_plain m \<longleftrightarrow> ultralight_ok m \<and> ul_type m \<noteq> UL_TYPE_UNKNOWN \<and>
     ul_pages_total m = ultralight_pages_total_for_type (ul_type m) \<and> ul_pages_read m = ul_pages_total m \<and> ul_variant m = variant_from_type (ul_type m) \<and>
     (if ul_has_version m then ultralight_type_from_version (ul_version m) = ul_type m
      else ul_type m \<in> {UL_TYPE_MFUL_C, UL_TYPE_NTAG203} \<and> \<not> ul_has_signature m \<and> ul_counter_count m = 0 \<and> ul_tearing_flag_count m = 0) \<and>
     (\<forall>p < ul_pages_total m. \<not> ultralight_page_needs_auth (ultralight_parse_config m) p)"

lemma ul_loop_cmd:
  assumes "\<And>rnd_b. ultralight_listener_t2_on_tag_cmd rnd_b (Some tx) s = (s, r)"
  shows "\<exists>k'. ul_loop nonce tx n (s, k) = ((case r of [] \<Rightarrow> Inl ETIMEDOUT | b # _ \<Rightarrow> Inr b), (s, k'))"
  using assms by (cases "nonce k"; cases r) (simp_all add: ul_loop_def)

lemma ul_command_answer:
  assumes "\<And>rnd_b. ultralight_listener_t2_on_tag_cmd rnd_b (Some tx) s = (s, [b])" "length b = n"
  shows "\<exists>k'. ultralight_poller_i_command (ul_xc nonce) tx n (s, k) = (Inr b, (s, k'))"
  using ul_loop_cmd [OF assms(1), of nonce 255 k] assms(2)
  by (auto simp: ultralight_poller_i_command_def io_bind_def io_return_def)

lemma ul_command_silent:
  assumes "\<And>rnd_b. ultralight_listener_t2_on_tag_cmd rnd_b (Some tx) s = (s, [])"
  shows "\<exists>k'. ultralight_poller_i_command (ul_xc nonce) tx n (s, k) = (Inl ETIMEDOUT, (s, k'))"
  using ul_loop_cmd [OF assms, of nonce 255 k] by (auto simp: ultralight_poller_i_command_def io_bind_def)

lemma ul_read_page:
  assumes "ul_plain m" "ul_up m s"
  shows "\<exists>k'. ultralight_poller_i_read_page (ul_xc nonce) p (s, k) =
    (Inr (concat (map (\<lambda>i. ul_row m (unat p + i)) [0..<4])), (s, k'))"
proof -
  have ok: "ultralight_ok m" using assms(1) by (simp add: ul_plain_def)
  have "list_all (\<lambda>x. length x = 4) (map (\<lambda>i. ul_row m (unat p + i)) [0..<4])" using ok by (simp add: list_all_iff del: upt_rec_numeral)
  from length_concat_eq [OF this] have "length (concat (map (\<lambda>i. ul_row m (unat p + i)) [0..<4])) = 16" by (simp del: upt_rec_numeral)
  moreover have "ultralight_listener_t2_on_tag_cmd rnd_b (Some [0x30, p]) s = (s, [concat (map (\<lambda>i. ul_row m (unat p + i)) [0..<4])])" for rnd_b
    using t2_read_rows [of s p rnd_b] assms ok
    by (simp add: ul_up_def ul_plain_def ultralight_t2_page_readable_def del: upt_rec_numeral)
  ultimately show ?thesis unfolding ultralight_poller_i_read_page_def by (rule ul_command_answer [rotated])
qed

lemma ul_get_version:
  assumes "ul_plain m" "ul_up m s"
  shows "\<exists>k'. ultralight_poller_i_get_version (ul_xc nonce) (s, k) =
    (if ul_has_version m then Inr (ul_version m) else Inl ETIMEDOUT, (s, k'))"
proof -
  have l: "length (ul_version m) = 8" using assms(1) by (simp add: ul_plain_def ultralight_ok_def)
  have "ultralight_listener_t2_on_tag_cmd rnd_b (Some [0x60]) s = (s, if ul_has_version m then [ul_version m] else [])" for rnd_b
    using assms(2) l by (simp add: ul_up_def t2_handler_defs)
  with l ul_command_answer [of "[0x60]" s "ul_version m" 8 nonce k] ul_command_silent [of "[0x60]" s nonce 8 k] show ?thesis
    unfolding ultralight_poller_i_get_version_def by simp
qed

lemma ul_auth_test:
  assumes "ul_up m s" "nonces nonce"
  shows "\<exists>r s' k'. ultralight_poller_i_authentication_test (ul_xc nonce) (s, k) = (r, (s', k')) \<and> ul_up m s' \<and>
    ((\<exists>x. r = Inr x) \<longleftrightarrow> ul_type m = UL_TYPE_MFUL_C)"
proof -
  obtain rnd_b k' where n: "nonce k = (rnd_b, k')" by (metis surj_pair)
  have lb: "length rnd_b = 8" using assms(2) n unfolding nonces_def by (metis fst_conv)
  then have "length (ultralight_3des_encrypt (ultralight_3des_get_key m) (replicate 8 0) rnd_b) = 8"
    using cbc_length [of "replicate 8 0" rnd_b 1] by simp
  with assms(1) n show ?thesis
    by (cases "ul_type m = UL_TYPE_MFUL_C") (auto simp: ul_up_def ultralight_poller_i_authentication_test_def ultralight_poller_i_send_auth_cmd_def
        ul_loop_def ultralight_listener_t2_on_tag_cmd_def ultralight_t2_handle_auth_start_def ultralight_t2_type_supports_auth_def
        io_bind_def io_return_def Let_def)
qed

lemma ul_identifies:
  assumes "ul_plain m" "ul_up m s" "nonces nonce"
  shows "\<exists>s' k'. ultralight_poller_identify_type (ul_xc nonce) (s, k) =
    (Inr (ul_type m, if ul_has_version m then Some (ul_version m) else None), (s', k')) \<and> ul_up m s'"
proof -
  obtain k1 where v: "ultralight_poller_i_get_version (ul_xc nonce) (s, k) =
      (if ul_has_version m then Inr (ul_version m) else Inl ETIMEDOUT, (s, k1))" using ul_get_version [OF assms(1,2), of nonce k] by blast
  show ?thesis
  proof (cases "ul_has_version m")
    case True
    then have t: "ultralight_type_from_version (ul_version m) = ul_type m" "ul_type m \<noteq> UL_TYPE_UNKNOWN" using assms(1) by (auto simp: ul_plain_def)
    then have "\<not> ultralight_version_is_zero (ul_version m)" by (auto simp: ultralight_type_from_version_def)
    with True v t assms(2) show ?thesis by (simp add: ultralight_poller_identify_type_def io_case_def io_return_def Let_def)
  next
    case False
    obtain r s2 k2 where a: "ultralight_poller_i_authentication_test (ul_xc nonce) (s, k1) = (r, (s2, k2))" "ul_up m s2"
      "(\<exists>x. r = Inr x) \<longleftrightarrow> ul_type m = UL_TYPE_MFUL_C"
      using ul_auth_test [OF assms(2,3), of k1] by blast
    obtain b k3 where p: "ultralight_poller_i_read_page (ul_xc nonce) 41 (s2, k2) = (Inr b, (s2, k3))"
      using ul_read_page [OF assms(1) a(2), of nonce 41 k2] by blast
    have "ul_type m = UL_TYPE_MFUL_C \<or> ul_type m = UL_TYPE_NTAG203" using assms(1) False by (auto simp: ul_plain_def)
    with False v a p show ?thesis
      by (cases r) (auto simp: ultralight_poller_identify_type_def ultralight_poller_identify_plain_def io_case_def io_return_def)
  qed
qed

section \<open>The pages\<close>

text \<open>The reader's structure when it holds the first \<open>n\<close> pages of the card.\<close>

definition ul_part :: "ultralight_data \<Rightarrow> nat \<Rightarrow> ultralight_data \<Rightarrow> ultralight_data" where
  "ul_part m n d = d\<lparr>ul_pages := take n (ul_pages m) @ replicate (CONFIG_NFC_ULTRALIGHT_MAX_PAGES - n) (replicate ULTRALIGHT_PAGE_SIZE 0),
     ul_pages_read := n\<rparr>"

lemma ul_part_chunk:
  assumes "ul_plain m" "start < ul_pages_total m"
  shows "ultralight_poller_copy_read_chunk start (ul_pages_total m) (concat (map (\<lambda>i. ul_row m (start + i)) [0..<4])) (ul_part m start d) =
    ul_part m (min (start + 4) (ul_pages_total m)) d"
proof -
  let ?n = "ul_pages_total m"
  let ?c = "min 4 (?n - start)" and ?rows = "map (\<lambda>i. ul_row m (start + i)) [0..<4]"
  have ok: "ultralight_ok m" and n: "?n \<le> 256" "length (ul_pages m) = 256" using assms(1) by (simp_all add: ul_plain_def ultralight_ok_def)
  have rows: "list_all (\<lambda>x. length x = 4) ?rows" "length ?rows = 4" using ok by (simp_all add: list_all_iff del: upt_rec_numeral)
  have "map (\<lambda>i. sub_bytes (i * 4) 4 (concat ?rows)) [0..<?c] = take ?c (drop start (ul_pages m))"
  proof (rule nth_equalityI)
    show "length (map (\<lambda>i. sub_bytes (i * 4) 4 (concat ?rows)) [0..<?c]) = length (take ?c (drop start (ul_pages m)))" using n by simp
    fix i assume "i < length (map (\<lambda>i. sub_bytes (i * 4) 4 (concat ?rows)) [0..<?c])"
    then have i: "i < ?c" by simp
    have "sub_bytes (4 * i) 4 (concat ?rows) = ?rows ! i" using i by (intro sub_concat_eq [OF rows(1)]) (simp add: rows(2))
    moreover have si: "start + i < ?n" using i by auto
    then have "?rows ! i = ul_pages m ! (start + i)" using i by (simp add: ul_row_def del: upt_rec_numeral)
    ultimately show "map (\<lambda>i. sub_bytes (i * 4) 4 (concat ?rows)) [0..<?c] ! i = take ?c (drop start (ul_pages m)) ! i"
      using i n si by (simp add: mult.commute del: upt_rec_numeral)
  qed
  moreover have "memcpy_at (take start (ul_pages m) @ replicate (256 - start) z) start (take ?c (drop start (ul_pages m))) =
      take (start + ?c) (ul_pages m) @ replicate (256 - (start + ?c)) z" for z
    using assms(2) n by (simp add: memcpy_at_def take_add)
  moreover have "start + ?c = min (start + 4) ?n" using assms(2) by auto
  moreover have "(if start + 4 < ?n then start + 4 else ?n) = min (start + 4) ?n" by auto
  ultimately show ?thesis
    unfolding ultralight_poller_copy_read_chunk_def ul_part_def by (simp del: upt_rec_numeral)
qed

lemma ul_part_open:
  assumes "ul_plain m" "start < ul_pages_total m" "ul_type d = ul_type m" "ul_pages_total d = ul_pages_total m"
  shows "\<not> ultralight_page_needs_auth (ultralight_parse_config (ul_part m start d)) start"
proof
  let ?n = "ul_pages_total m" and ?p = "ul_part m start d"
  assume a: "ultralight_page_needs_auth (ultralight_parse_config ?p) start"
  have n: "?n \<le> 256" "length (ul_pages m) = 256" "ul_pages_read m = ?n" using assms(1) by (simp_all add: ul_plain_def ultralight_ok_def)
  have f: "ul_type ?p = ul_type m" "ul_pages_total ?p = ?n" "ul_pages_read ?p = start" using assms(3,4) by (simp_all add: ul_part_def)
  have pg: "ul_pages ?p ! k = (if k < start then ul_pages m ! k else replicate 4 0)" if "k < 256" for k
    using that n assms(2) by (simp add: ul_part_def nth_append)
  have t: "ultralight_type_has_password_config (ul_type m)" "5 \<le> ?n" "?n - 4 < start"
    "ul_pages ?p ! (?n - 4) ! 3 \<noteq> 0xFF" "ul_pages ?p ! (?n - 3) ! 0 AND 0x80 \<noteq> 0" "unat (ul_pages ?p ! (?n - 4) ! 3) \<le> start"
    using a f by (auto simp: ultralight_page_needs_auth_def ultralight_read_protection_enabled_def ultralight_parse_config_def
        ultralight_config_page_indices_def ultralight_config_zero_def Let_def split: if_splits)
  have "?n - 3 < start" using t(5) pg [of "?n - 3"] n t(2) assms(2) by (auto split: if_splits)
  with t pg [of "?n - 3"] pg [of "?n - 4"] n assms(2) have
    "ul_pages m ! (?n - 4) ! 3 \<noteq> 0xFF" "ul_pages m ! (?n - 3) ! 0 AND 0x80 \<noteq> 0" "unat (ul_pages m ! (?n - 4) ! 3) \<le> start" by auto
  then have "ultralight_page_needs_auth (ultralight_parse_config m) start"
    using t(1,2) n(3) \<open>?n - 4 < start\<close> assms(2) by (simp add: ultralight_page_needs_auth_def ultralight_read_protection_enabled_def ultralight_parse_config_def
        ultralight_config_page_indices_def Let_def)
  with assms(1,2) show False by (auto simp: ul_plain_def)
qed

lemma ul_try_up:
  assumes "ul_up m s"
  shows "\<exists>r s' k'. ultralight_poller_try_pwd_auth (ul_xc nonce) cfg a (s, k) = (r, (s', k')) \<and> ul_up m s'"
proof -
  have p: "\<exists>r s' k'. ultralight_poller_i_pwd_auth (ul_xc nonce) pwd (s, k) = (r, (s', k')) \<and> ul_up m s'" if u: "ul_up m s" for pwd s k
  proof -
    obtain r s' k' where "ul_loop nonce [0x1B, pwd ! 0, pwd ! 1, pwd ! 2, pwd ! 3] 255 (s, k) = (r, (s', k'))" "ul_up m s'"
      using ul_loop_up [OF u, of nonce "[0x1B, pwd ! 0, pwd ! 1, pwd ! 2, pwd ! 3]" 255 k] by blast
    then show ?thesis by (cases r) (auto simp: ultralight_poller_i_pwd_auth_def ultralight_poller_i_command_def io_bind_def io_return_def io_fail_def)
  qed
  obtain r s1 k1 where 1: "ultralight_poller_i_pwd_auth (ul_xc nonce) (uc_pwd cfg) (s, k) = (r, (s1, k1))" "ul_up m s1"
    using p [OF assms, of "uc_pwd cfg" k] by blast
  obtain r' s2 k2 where 2: "ultralight_poller_i_pwd_auth (ul_xc nonce) [0xFF, 0xFF, 0xFF, 0xFF] (s1, k1) = (r', (s2, k2))" "ul_up m s2"
    using p [OF 1(2), of "[0xFF, 0xFF, 0xFF, 0xFF]" k1] by blast
  from 1 2 assms show ?thesis
    by (cases r) (auto simp: ultralight_poller_try_pwd_auth_def io_case_def io_return_def io_fail_def)
qed

lemma ul_read_chunk:
  assumes "ul_plain m" "ul_up m s" "start < ul_pages_total m"
  shows "\<exists>k'. ultralight_poller_read_chunk (ul_xc nonce) (ul_pages_total m) start cfg a (ul_part m start d, (s, k)) =
    (Inr (Some a), (ul_part m (min (start + 4) (ul_pages_total m)) d, (s, k')))"
proof -
  have "ul_pages_total m \<le> 231" using assms(1) pages_total_for_type_bounds by (auto simp: ul_plain_def)
  then have u: "unat (of_nat start :: u8) = start" using assms(3) by (simp add: unat_of_nat)
  obtain k' where "ultralight_poller_i_read_page (ul_xc nonce) (of_nat start) (s, k) =
      (Inr (concat (map (\<lambda>i. ul_row m (start + i)) [0..<4])), (s, k'))"
    using ul_read_page [OF assms(1,2), of nonce "of_nat start" k] unfolding u by blast
  with ul_part_chunk [OF assms(1,3), of d] show ?thesis
    by (simp add: ultralight_poller_read_chunk_def Let_def io_case_def io_bind_def on_tag_def on_out_def io_return_def del: upt_rec_numeral)
qed

lemma ul_reads_pages:
  assumes m: "ul_plain m" and d: "ul_type d = ul_type m" "ul_pages_total d = ul_pages_total m"
  shows "ul_up m s \<Longrightarrow> i + j = (ul_pages_total m + 3) div 4 \<Longrightarrow>
    \<exists>s' k'. ultralight_poller_read_pages (ul_xc nonce) (ul_pages_total m) (map ((*) 4) [i..<i + j]) a
      (ul_part m (min (4 * i) (ul_pages_total m)) d, (s, k)) = (Inr (), (ul_part m (ul_pages_total m) d, (s', k'))) \<and> ul_up m s'"
proof (induction j arbitrary: i a s k)
  case 0
  then have "ul_pages_total m \<le> 4 * i" by auto
  then show ?case using 0(1) by (auto simp: io_return_def min_def)
next
  case (Suc j)
  let ?n = "ul_pages_total m" and ?xc = "ul_xc nonce" and ?d = "ul_part m (4 * i) d"
  let ?cfg = "ultralight_parse_config ?d"
  have st: "4 * i < ?n" using Suc.prems(2) by auto
  have up: "[i..<i + Suc j] = i # [Suc i..<Suc i + j]" by (simp add: upt_conv_Cons)
  obtain r s1 k1 where t: "ultralight_poller_try_pwd_auth ?xc ?cfg a (s, k) = (r, (s1, k1))" "ul_up m s1"
    using ul_try_up [OF Suc.prems(1), of nonce ?cfg a k] by blast
  let ?rest = "\<lambda>b. io_case (ultralight_poller_read_chunk ?xc ?n (4 * i) ?cfg b) io_fail
      (\<lambda>r. case r of None \<Rightarrow> io_return () | Some a \<Rightarrow> ultralight_poller_read_pages ?xc ?n (map ((*) 4) [Suc i..<Suc i + j]) a)"
  have step: "\<exists>s' k'. ?rest b (?d, (u, q)) = (Inr (), (ul_part m ?n d, (s', k'))) \<and> ul_up m s'" if u: "ul_up m u" for b u q
  proof -
    have nx: "min (4 * i + 4) ?n = min (4 * Suc i) ?n" by simp
    obtain q' where c: "ultralight_poller_read_chunk ?xc ?n (4 * i) ?cfg b (?d, (u, q)) =
        (Inr (Some b), (ul_part m (min (4 * Suc i) ?n) d, (u, q')))"
      using ul_read_chunk [OF m u st, of nonce ?cfg b d q] unfolding nx by blast
    have sj: "Suc i + j = (?n + 3) div 4" using Suc.prems(2) by simp
    show ?thesis unfolding io_case_def c prod.case sum.case option.case by (rule Suc.IH [OF u sj])
  qed
  have n: "\<not> ultralight_page_needs_auth ?cfg (4 * i)" by (rule ul_part_open [OF m st d])
  have mn: "min (4 * i) ?n = 4 * i" using st by simp
  define c1 where "c1 \<longleftrightarrow> ultralight_type_has_password_config (ul_type ?d) \<and> uc_valid ?cfg \<and> \<not> a \<and>
    ultralight_read_protection_enabled ?cfg \<and> fst (ultralight_config_page_indices ?n) \<le> 4 * i"
  have e: "ultralight_poller_read_pages ?xc ?n (map ((*) 4) [i..<i + Suc j]) a (ul_part m (min (4 * i) ?n) d, (s, k)) =
      io_case (if c1 then io_case (on_tag (ultralight_poller_try_pwd_auth ?xc ?cfg a)) (\<lambda>_. io_return a) (\<lambda>_. io_return True)
               else io_return a) io_fail ?rest (?d, (s, k))"
    unfolding up mn c1_def list.map ultralight_poller_read_pages.simps Let_def fst_conv by (simp only: n simp_thms if_False)
  have "\<exists>b u q. (if c1 then io_case (on_tag (ultralight_poller_try_pwd_auth ?xc ?cfg a)) (\<lambda>_. io_return a) (\<lambda>_. io_return True)
      else io_return a) (?d, (s, k)) = (Inr b, (?d, (u, q))) \<and> ul_up m u"
    using t Suc.prems(1) by (cases c1; cases r) (auto simp: io_case_def on_tag_def io_return_def)
  then obtain b u q where g: "(if c1 then io_case (on_tag (ultralight_poller_try_pwd_auth ?xc ?cfg a)) (\<lambda>_. io_return a) (\<lambda>_. io_return True)
      else io_return a) (?d, (s, k)) = (Inr b, (?d, (u, q)))" and u: "ul_up m u" by blast
  show ?case unfolding e io_case_def [of "if c1 then _ else _"] g prod.case sum.case by (rule step [OF u])
qed

section \<open>Signature, counters, tearing flags\<close>

lemma ul_optional_commands:
  assumes "ul_plain m" "ul_up m s"
  shows "\<exists>k'. ultralight_poller_i_read_signature (ul_xc nonce) (s, k) =
      (if ul_has_signature m then Inr (ul_signature m) else Inl ETIMEDOUT, (s, k'))"
    "i < 3 \<Longrightarrow> \<exists>k'. ultralight_poller_i_read_counter (ul_xc nonce) (of_nat i) (s, k) =
      (if i < ul_counter_count m then Inr (ul_counters m ! i) else Inl ETIMEDOUT, (s, k'))"
    "i < 3 \<Longrightarrow> \<exists>k'. ultralight_poller_i_read_tearing (ul_xc nonce) (of_nat i) (s, k) =
      (if i < ul_tearing_flag_count m then Inr [ul_tearing_flags m ! i] else Inl ETIMEDOUT, (s, k'))"
proof -
  have up: "t2_initialized s" "t2_model s = m" using assms(2) by (simp_all add: ul_up_def)
  have ok: "ultralight_ok m" using assms(1) by (simp add: ul_plain_def)
  have l: "length (ul_signature m) = 32" using ok by (simp add: ultralight_ok_def)
  have "ultralight_listener_t2_on_tag_cmd rnd_b (Some [0x3C, 0]) s = (s, if ul_has_signature m then [ul_signature m] else [])" for rnd_b
    using up l by (simp add: t2_handler_defs)
  with l ul_command_answer [of "[0x3C, 0]" s "ul_signature m" 32 nonce k] ul_command_silent [of "[0x3C, 0]" s nonce 32 k]
  show "\<exists>k'. ultralight_poller_i_read_signature (ul_xc nonce) (s, k) =
      (if ul_has_signature m then Inr (ul_signature m) else Inl ETIMEDOUT, (s, k'))"
    unfolding ultralight_poller_i_read_signature_def by simp
  assume i: "i < 3"
  then have u: "unat (of_nat i :: u8) = i" by (simp add: unat_of_nat)
  have c: "length (ul_counters m ! i) = 3" if "i < ul_counter_count m" using ok i by (simp add: ultralight_ok_def)
  have "ultralight_listener_t2_on_tag_cmd rnd_b (Some [0x39, of_nat i]) s = (s, if i < ul_counter_count m then [ul_counters m ! i] else [])" for rnd_b
    using up u c by (simp add: t2_handler_defs)
  with c ul_command_answer [of "[0x39, of_nat i]" s "ul_counters m ! i" 3 nonce k] ul_command_silent [of "[0x39, of_nat i]" s nonce 3 k]
  show "\<exists>k'. ultralight_poller_i_read_counter (ul_xc nonce) (of_nat i) (s, k) =
      (if i < ul_counter_count m then Inr (ul_counters m ! i) else Inl ETIMEDOUT, (s, k'))"
    unfolding ultralight_poller_i_read_counter_def by simp
  have "ultralight_listener_t2_on_tag_cmd rnd_b (Some [0x3E, of_nat i]) s = (s, if i < ul_tearing_flag_count m then [[ul_tearing_flags m ! i]] else [])" for rnd_b
    using up u by (simp add: t2_handler_defs)
  with ul_command_answer [of "[0x3E, of_nat i]" s "[ul_tearing_flags m ! i]" 1 nonce k] ul_command_silent [of "[0x3E, of_nat i]" s nonce 1 k]
  show "\<exists>k'. ultralight_poller_i_read_tearing (ul_xc nonce) (of_nat i) (s, k) =
      (if i < ul_tearing_flag_count m then Inr [ul_tearing_flags m ! i] else Inl ETIMEDOUT, (s, k'))"
    unfolding ultralight_poller_i_read_tearing_def by simp
qed

text \<open>After the first \<open>i\<close> entries of an array of which the card has \<open>c\<close>.\<close>

definition ul_copied :: "nat \<Rightarrow> nat \<Rightarrow> 'a list \<Rightarrow> 'a list \<Rightarrow> bool" where
  "ul_copied i c src dst \<longleftrightarrow> length dst = 3 \<and> length src = 3 \<and> take (min i c) dst = take (min i c) src"

lemma ul_copied_step:
  "ul_copied i c src dst \<Longrightarrow> i < 3 \<Longrightarrow> i < c \<Longrightarrow> ul_copied (Suc i) c src (dst[i := src ! i])"
  "ul_copied i c src dst \<Longrightarrow> \<not> i < c \<Longrightarrow> ul_copied (Suc i) c src dst"
proof -
  assume a: "ul_copied i c src dst" "i < 3" "i < c"
  then have "min i c = i" "min (Suc i) c = Suc i" by auto
  with a show "ul_copied (Suc i) c src (dst[i := src ! i])" by (simp add: ul_copied_def take_Suc_conv_app_nth)
next
  assume a: "ul_copied i c src dst" "\<not> i < c"
  then have "min i c = c" "min (Suc i) c = c" by auto
  with a show "ul_copied (Suc i) c src dst" by (simp add: ul_copied_def)
qed

lemma ul_counters_read:
  assumes "ul_plain m" "ul_up m s"
  shows "i + j = 3 \<Longrightarrow> ul_copied i (ul_counter_count m) (ul_counters m) cs \<Longrightarrow>
    \<exists>cs' k'. ultralight_poller_read_counters (ul_xc nonce) [i..<3] (d\<lparr>ul_counters := cs, ul_counter_count := min i (ul_counter_count m)\<rparr>, (s, k)) =
      (Inr (), (d\<lparr>ul_counters := cs', ul_counter_count := min 3 (ul_counter_count m)\<rparr>, (s, k'))) \<and>
      ul_copied 3 (ul_counter_count m) (ul_counters m) cs'"
proof (induction j arbitrary: i cs k)
  case (Suc j)
  let ?c = "ul_counter_count m"
  have up: "[i..<3] = i # [Suc i..<3]" using Suc.prems(1) by (simp add: upt_conv_Cons)
  have i: "i < 3" using Suc.prems(1) by simp
  obtain k1 where r: "ultralight_poller_i_read_counter (ul_xc nonce) (of_nat i) (s, k) =
      (if i < ?c then Inr (ul_counters m ! i) else Inl ETIMEDOUT, (s, k1))"
    using ul_optional_commands(2) [OF assms i, of nonce k] by blast
  define cs1 where "cs1 = (if i < ?c then cs[i := ul_counters m ! i] else cs)"
  have c1: "ul_copied (Suc i) ?c (ul_counters m) cs1" unfolding cs1_def using ul_copied_step Suc.prems(2) i by auto
  have "ultralight_poller_read_counters (ul_xc nonce) [i..<3] (d\<lparr>ul_counters := cs, ul_counter_count := min i ?c\<rparr>, (s, k)) =
    ultralight_poller_read_counters (ul_xc nonce) [Suc i..<3] (d\<lparr>ul_counters := cs1, ul_counter_count := min (Suc i) ?c\<rparr>, (s, k1))"
    unfolding up using r by (auto simp: cs1_def io_case_def io_bind_def on_tag_def on_out_def min_def not_less intro!: arg_cong2 [where f = "\<lambda>a b. ultralight_poller_read_counters _ _ (a, b)"])
  with Suc.IH [of "Suc i" cs1 k1] c1 Suc.prems(1) show ?case by simp
qed (auto simp: io_return_def)

lemma ul_tearings_read:
  assumes "ul_plain m" "ul_up m s"
  shows "i + j = 3 \<Longrightarrow> ul_copied i (ul_tearing_flag_count m) (ul_tearing_flags m) cs \<Longrightarrow>
    \<exists>cs' k'. ultralight_poller_read_tearings (ul_xc nonce) [i..<3] (d\<lparr>ul_tearing_flags := cs, ul_tearing_flag_count := min i (ul_tearing_flag_count m)\<rparr>, (s, k)) =
      (Inr (), (d\<lparr>ul_tearing_flags := cs', ul_tearing_flag_count := min 3 (ul_tearing_flag_count m)\<rparr>, (s, k'))) \<and>
      ul_copied 3 (ul_tearing_flag_count m) (ul_tearing_flags m) cs'"
proof (induction j arbitrary: i cs k)
  case (Suc j)
  let ?c = "ul_tearing_flag_count m"
  have up: "[i..<3] = i # [Suc i..<3]" using Suc.prems(1) by (simp add: upt_conv_Cons)
  have i: "i < 3" using Suc.prems(1) by simp
  obtain k1 where r: "ultralight_poller_i_read_tearing (ul_xc nonce) (of_nat i) (s, k) =
      (if i < ?c then Inr [ul_tearing_flags m ! i] else Inl ETIMEDOUT, (s, k1))"
    using ul_optional_commands(3) [OF assms i, of nonce k] by blast
  define cs1 where "cs1 = (if i < ?c then cs[i := ul_tearing_flags m ! i] else cs)"
  have c1: "ul_copied (Suc i) ?c (ul_tearing_flags m) cs1" unfolding cs1_def using ul_copied_step Suc.prems(2) i by auto
  have "ultralight_poller_read_tearings (ul_xc nonce) [i..<3] (d\<lparr>ul_tearing_flags := cs, ul_tearing_flag_count := min i ?c\<rparr>, (s, k)) =
    ultralight_poller_read_tearings (ul_xc nonce) [Suc i..<3] (d\<lparr>ul_tearing_flags := cs1, ul_tearing_flag_count := min (Suc i) ?c\<rparr>, (s, k1))"
    unfolding up using r by (auto simp: cs1_def io_case_def io_bind_def on_tag_def on_out_def min_def not_less intro!: arg_cong2 [where f = "\<lambda>a b. ultralight_poller_read_tearings _ _ (a, b)"])
  with Suc.IH [of "Suc i" cs1 k1] c1 Suc.prems(1) show ?case by simp
qed (auto simp: io_return_def)

lemma ul_rest_read:
  assumes m: "ul_plain m" and up: "ul_up m s" and v: "ul_has_version m"
    and d: "length (ul_counters d) = 3" "ul_counter_count d = 0" "length (ul_tearing_flags d) = 3" "ul_tearing_flag_count d = 0"
      "\<not> ul_has_signature d" "ul_pages_read d = ul_pages_total m"
  shows "\<exists>sig cs ts k'. ultralight_poller_read_rest (ul_xc nonce) (ul_pages_total m) True (d, (s, k)) =
      (Inr (), (d\<lparr>ul_signature := sig, ul_has_signature := ul_has_signature m, ul_counters := cs, ul_counter_count := ul_counter_count m,
        ul_tearing_flags := ts, ul_tearing_flag_count := ul_tearing_flag_count m\<rparr>, (s, k'))) \<and>
      (ul_has_signature m \<longrightarrow> sig = ul_signature m) \<and> ul_copied 3 (ul_counter_count m) (ul_counters m) cs \<and>
      ul_copied 3 (ul_tearing_flag_count m) (ul_tearing_flags m) ts"
proof -
  have ok: "ultralight_ok m" using m by (simp add: ul_plain_def)
  have c: "ul_counter_count m \<le> 3" "ul_tearing_flag_count m \<le> 3" "length (ul_counters m) = 3" "length (ul_tearing_flags m) = 3"
    using ok by (simp_all add: ultralight_ok_def)
  obtain k1 where "ultralight_poller_i_read_signature (ul_xc nonce) (s, k) =
      (if ul_has_signature m then Inr (ul_signature m) else Inl ETIMEDOUT, (s, k1))"
    using ul_optional_commands(1) [OF m up, of nonce k] by blast
  then have 1: "ultralight_poller_read_sig (ul_xc nonce) (d, (s, k)) =
      (Inr (), (d\<lparr>ul_signature := (if ul_has_signature m then ul_signature m else ul_signature d), ul_has_signature := ul_has_signature m\<rparr>, (s, k1)))"
    using d(5) by (simp add: ultralight_poller_read_sig_def io_case_def on_tag_def on_out_def io_return_def)
  define sig where "sig = (if ul_has_signature m then ul_signature m else ul_signature d)"
  let ?d1 = "d\<lparr>ul_signature := sig, ul_has_signature := ul_has_signature m\<rparr>"
  have l3: "[0..<3] = [0, 1, 2 :: nat]" by (simp add: upt_rec)
  have d1: "?d1 = ?d1\<lparr>ul_counters := ul_counters d, ul_counter_count := min 0 (ul_counter_count m)\<rparr>" using d(2) by simp
  obtain cs k2 where 2: "ultralight_poller_read_counters (ul_xc nonce) [0, 1, 2] (?d1, (s, k1)) =
      (Inr (), (?d1\<lparr>ul_counters := cs, ul_counter_count := min 3 (ul_counter_count m)\<rparr>, (s, k2)))"
    "ul_copied 3 (ul_counter_count m) (ul_counters m) cs"
    using ul_counters_read [OF m up, of 0 3 "ul_counters d" nonce ?d1 k1, folded d1, unfolded l3] d(1) c by (auto simp: ul_copied_def)
  let ?d2 = "?d1\<lparr>ul_counters := cs, ul_counter_count := ul_counter_count m\<rparr>"
  have d2: "?d2 = ?d2\<lparr>ul_tearing_flags := ul_tearing_flags d, ul_tearing_flag_count := min 0 (ul_tearing_flag_count m)\<rparr>" using d(4) by simp
  obtain ts k3 where 3: "ultralight_poller_read_tearings (ul_xc nonce) [0, 1, 2] (?d2, (s, k2)) =
      (Inr (), (?d2\<lparr>ul_tearing_flags := ts, ul_tearing_flag_count := min 3 (ul_tearing_flag_count m)\<rparr>, (s, k3)))"
    "ul_copied 3 (ul_tearing_flag_count m) (ul_tearing_flags m) ts"
    using ul_tearings_read [OF m up, of 0 3 "ul_tearing_flags d" nonce ?d2 k2, folded d2, unfolded l3] d(3) c by (auto simp: ul_copied_def)
  have mn: "min 3 (ul_counter_count m) = ul_counter_count m" "min 3 (ul_tearing_flag_count m) = ul_tearing_flag_count m" using c by simp_all
  have "ultralight_poller_read_rest (ul_xc nonce) (ul_pages_total m) True (d, (s, k)) =
      (Inr (), (?d2\<lparr>ul_tearing_flags := ts, ul_tearing_flag_count := ul_tearing_flag_count m\<rparr>, (s, k3)))"
    using d(6) 1 [folded sig_def] 2(1) 3(1) unfolding mn
    by (simp add: ultralight_poller_read_rest_def io_bind_def del: ultralight_poller_read_counters.simps ultralight_poller_read_tearings.simps)
  moreover have "ul_has_signature m \<longrightarrow> sig = ul_signature m" by (simp add: sig_def)
  ultimately show ?thesis using 2(2) 3(2) by (intro exI [of _ sig] exI [of _ cs] exI [of _ ts] exI [of _ k3]) simp
qed

section \<open>The whole card\<close>

lemma ul_send_auth_up:
  assumes "ul_up m s"
  shows "\<exists>r s' k'. ultralight_poller_i_send_auth_cmd (ul_xc nonce) cmd b (s, k) = (r, (s', k')) \<and> ul_up m s'"
proof -
  obtain r s' k' where "ul_loop nonce cmd 255 (s, k) = (r, (s', k'))" "ul_up m s'" using ul_loop_up [OF assms, of nonce cmd 255 k] by blast
  then show ?thesis by (cases r) (auto simp: ultralight_poller_i_send_auth_cmd_def io_bind_def io_return_def io_fail_def Let_def)
qed

lemma ul_authenticate_up:
  assumes "ul_up m s"
  shows "\<exists>r s' k'. ultralight_poller_i_authenticate (ul_rng rng) (ul_xc nonce) key (s, k) = (r, (s', k')) \<and> ul_up m s'"
proof -
  obtain rnda k1 where a: "rng k = (rnda, k1)" by (metis surj_pair)
  obtain r1 s1 k2 where 1: "ultralight_poller_i_send_auth_cmd (ul_xc nonce) [0x1A, 0] True (s, k1) = (r1, (s1, k2))" "ul_up m s1"
    using ul_send_auth_up [OF assms, of nonce "[0x1A, 0]" True k1] by blast
  show ?thesis
  proof (cases r1)
    case (Inl e)
    with a 1 show ?thesis by (simp add: ultralight_poller_i_authenticate_def ul_rng_def io_bind_def)
  next
    case (Inr rx)
    let ?eb = "sub_bytes 1 8 rx"
    let ?o = "ultralight_3des_encrypt key ?eb (rnda @ ultralight_3des_shift_data (ultralight_3des_decrypt key (replicate 8 0) ?eb))"
    obtain r2 s2 k3 where 2: "ultralight_poller_i_send_auth_cmd (ul_xc nonce) (0xAF # ?o) False (s1, k2) = (r2, (s2, k3))" "ul_up m s2"
      using ul_send_auth_up [OF 1(2), of nonce "0xAF # ?o" False k2] by blast
    with a 1 Inr show ?thesis
      by (cases r2) (simp_all add: ultralight_poller_i_authenticate_def ul_rng_def io_bind_def Let_def io_return_def)
  qed
qed

lemma ul_auth_c_blank:
  assumes "ul_up m s" "ul_pages d = replicate 256 (replicate 4 0)" "ul_pages_read d = 0"
  shows "\<exists>s' k'. (if c then io_case (ultralight_poller_auth_ultralight_c (ul_rng rng) (ul_xc nonce)) (\<lambda>_. io_return ()) (\<lambda>_. io_return ())
      else io_return ()) (d, (s, k)) = (Inr (), (d, (s', k'))) \<and> ul_up m s'"
proof -
  obtain r s1 k1 where a: "ultralight_poller_i_authenticate (ul_rng rng) (ul_xc nonce) (replicate 16 0) (s, k) = (r, (s1, k1))" "ul_up m s1"
    using ul_authenticate_up [OF assms(1), of rng nonce "replicate 16 0" k] by blast
  have "map (\<lambda>i. sub_bytes (i * 4) 4 (replicate 16 0)) [0..<4] = replicate 4 (replicate 4 (0 :: u8))"
    by (rule nth_equalityI) (simp_all add: sub_bytes_def del: upt_rec_numeral)
  moreover have "replicate 256 x = replicate 44 x @ replicate 4 x @ replicate 208 x" for x :: bytes
    unfolding replicate_add [symmetric] by simp
  ultimately have z: "memcpy_at (replicate 256 (replicate 4 0)) 44 (map (\<lambda>i. sub_bytes (i * 4) 4 (replicate 16 0)) [0..<4]) = replicate 256 (replicate 4 (0 :: u8))"
    by (simp add: memcpy_at_def del: upt_rec_numeral)
  have "d\<lparr>ul_pages := ul_pages d\<rparr> = d" by simp
  with a assms z show ?thesis
    by (cases c; cases r) (auto simp: ultralight_poller_auth_ultralight_c_def Let_def io_case_def io_bind_def on_tag_def on_out_def io_return_def
        simp del: upt_rec_numeral)
qed

lemma ul_same_blob:
  assumes "ul_variant d = ul_variant m" "ul_pages_total d = ul_pages_total m"
    "take (ul_pages_total m) (ul_pages d) = take (ul_pages_total m) (ul_pages m)"
    "ul_has_version d = ul_has_version m" "ul_has_version m \<longrightarrow> ul_version d = ul_version m"
    "ul_has_signature d = ul_has_signature m" "ul_has_signature m \<longrightarrow> ul_signature d = ul_signature m"
    "ul_counter_count d = ul_counter_count m" "take (ul_counter_count m) (ul_counters d) = take (ul_counter_count m) (ul_counters m)"
    "ul_tearing_flag_count d = ul_tearing_flag_count m"
    "take (ul_tearing_flag_count m) (ul_tearing_flags d) = take (ul_tearing_flag_count m) (ul_tearing_flags m)"
  shows "ultralight_blob d = ultralight_blob m"
  using assms by (simp add: ultralight_blob_def ultralight_blob_tail_def)

text \<open>C23. The Ultralight reader reads the emulated tag: for every card it can identify without a password (NTAG21x, EV1, NTAG203,
  Ultralight C), whatever nonces are drawn, it succeeds with all pages, and the blob of what it read is the blob of the
  card.\<close>

theorem ultralight_poller_reads_card:
  assumes m: "ul_plain m" and up: "ul_up m l" and n: "nonces nonce" and act: "rs_active s"
  shows "\<exists>d' l' k'. ultralight_poller_read (ul_rng rng) (ul_loop nonce) (Some s) (d, (l, k)) = (Inr (), (d', (l', k'))) \<and>
    ultralight_blob d' = ultralight_blob m \<and> ul_type d' = ul_type m \<and> ul_pages_read d' = ul_pages_total m \<and> ul_up m l'"
proof -
  let ?n = "ul_pages_total m" and ?ty = "ul_type m" and ?xc = "ul_xc nonce"
  let ?ver = "if ul_has_version m then Some (ul_version m) else None"
  let ?d0 = "ultralight_data_reset\<lparr>ul_type := ?ty, ul_variant := variant_from_type ?ty, ul_pages_total := ?n\<rparr>"
  define d1 where "d1 = (case ?ver of None \<Rightarrow> ?d0 | Some v \<Rightarrow> ?d0\<lparr>ul_has_version := True, ul_version := v\<rparr>)"
  have pl: "ultralight_ok m" "?ty \<noteq> UL_TYPE_UNKNOWN" "?n = ultralight_pages_total_for_type ?ty" "ul_variant m = variant_from_type ?ty"
    using m by (simp_all add: ul_plain_def)
  have xc: "ultralight_poller_i_transceive (ul_loop nonce) (Some s) = ?xc"
    using act by (simp add: ultralight_poller_i_transceive_def fun_eq_iff)
  have sv: "ultralight_poller_session_valid (Some s)" using act by (simp add: ultralight_poller_session_valid_def)
  obtain l1 k1 where i: "ultralight_poller_identify_type ?xc (l, k) = (Inr (?ty, ?ver), (l1, k1))" "ul_up m l1"
    using ul_identifies [OF m up n, of k] by blast
  have d1: "ul_type d1 = ?ty" "ul_pages_total d1 = ?n" "ul_pages d1 = replicate 256 (replicate 4 0)" "ul_pages_read d1 = 0"
    "ul_variant d1 = variant_from_type ?ty" "ul_has_version d1 = ul_has_version m" "ul_has_version m \<longrightarrow> ul_version d1 = ul_version m"
    "\<not> ul_has_signature d1" "ul_counter_count d1 = 0" "ul_tearing_flag_count d1 = 0" "length (ul_counters d1) = 3" "length (ul_tearing_flags d1) = 3"
    by (simp_all add: d1_def ultralight_data_reset_def)
  obtain l2 k2 where c: "(if ?ty = UL_TYPE_MFUL_C then io_case (ultralight_poller_auth_ultralight_c (ul_rng rng) ?xc) (\<lambda>_. io_return ()) (\<lambda>_. io_return ())
      else io_return ()) (d1, (l1, k1)) = (Inr (), (d1, (l2, k2)))" "ul_up m l2"
    using ul_auth_c_blank [OF i(2) d1(3,4), of "?ty = UL_TYPE_MFUL_C" rng nonce k1] by blast
  have p0: "d1\<lparr>ul_pages_read := 0\<rparr> = ul_part m (min (4 * 0) ?n) d1" using d1(3) by (simp add: ul_part_def)
  obtain l3 k3 where r: "ultralight_poller_read_pages ?xc ?n (map ((*) 4) [0..<(?n + 3) div 4]) False (d1\<lparr>ul_pages_read := 0\<rparr>, (l2, k2)) =
      (Inr (), (ul_part m ?n d1, (l3, k3)))" "ul_up m l3"
    using ul_reads_pages [OF m d1(1,2) c(2), of 0 "(?n + 3) div 4" nonce False k2] unfolding p0 by auto
  have e: "ultralight_poller_read (ul_rng rng) (ul_loop nonce) (Some s) (d, (l, k)) =
      ultralight_poller_read_rest ?xc ?n (ul_has_version m) (ul_part m ?n d1, (l3, k3))"
    using ultralight_poller_read_split [OF sv i(1) [folded xc] pl(2), of "ul_rng rng" d]
    unfolding xc Let_def pl(3) [symmetric] d1_def [symmetric]
    using c(1) r(1) by (simp add: io_bind_def on_out_def)
  have tk: "take ?n (ul_pages (ul_part m ?n d1)) = take ?n (ul_pages m)" using pl(1) by (simp add: ul_part_def ultralight_ok_def)
  show ?thesis
  proof (cases "ul_has_version m")
    case True
    have pd: "length (ul_counters (ul_part m ?n d1)) = 3" "ul_counter_count (ul_part m ?n d1) = 0" "length (ul_tearing_flags (ul_part m ?n d1)) = 3"
      "ul_tearing_flag_count (ul_part m ?n d1) = 0" "\<not> ul_has_signature (ul_part m ?n d1)" "ul_pages_read (ul_part m ?n d1) = ?n"
      using d1 by (simp_all add: ul_part_def)
    obtain sig cs ts k4 where q: "ultralight_poller_read_rest ?xc ?n True (ul_part m ?n d1, (l3, k3)) =
      (Inr (), ((ul_part m ?n d1)\<lparr>ul_signature := sig, ul_has_signature := ul_has_signature m, ul_counters := cs, ul_counter_count := ul_counter_count m,
        ul_tearing_flags := ts, ul_tearing_flag_count := ul_tearing_flag_count m\<rparr>, (l3, k4)))" (is "_ = (_, (?d', _))")
      "ul_has_signature m \<longrightarrow> sig = ul_signature m" "ul_copied 3 (ul_counter_count m) (ul_counters m) cs"
      "ul_copied 3 (ul_tearing_flag_count m) (ul_tearing_flags m) ts"
      using ul_rest_read [OF m r(2) True pd, of nonce k3] by blast
    have "min 3 (ul_counter_count m) = ul_counter_count m" "min 3 (ul_tearing_flag_count m) = ul_tearing_flag_count m"
      using pl(1) by (simp_all add: ultralight_ok_def)
    with q(2,3,4) tk d1 pl(4) have "ultralight_blob ?d' = ultralight_blob m"
      by (intro ul_same_blob) (simp_all add: ul_part_def ul_copied_def)
    with q(1) e True r(2) d1 show ?thesis
      by (intro exI [of _ ?d'] exI [of _ l3] exI [of _ k4]) (simp add: ul_part_def)
  next
    case False
    then have v: "\<not> ul_has_signature m" "ul_counter_count m = 0" "ul_tearing_flag_count m = 0" using m by (simp_all add: ul_plain_def)
    with tk d1 pl(4) False have "ultralight_blob (ul_part m ?n d1) = ultralight_blob m"
      by (intro ul_same_blob) (simp_all add: ul_part_def)
    with e False r(2) d1 show ?thesis
      by (intro exI [of _ "ul_part m ?n d1"] exI [of _ l3] exI [of _ k3]) (simp add: ultralight_poller_read_rest_def ul_part_def)
  qed
qed

lemma sample_ntag_plain: "ul_plain sample_ntag"
proof -
  have "ul_type sample_ntag = UL_TYPE_NTAG213" "ul_pages_total sample_ntag = 45" "ul_pages_read sample_ntag = 45"
    "ul_variant sample_ntag = 0xFF" "ul_has_version sample_ntag" "ultralight_type_from_version (ul_version sample_ntag) = UL_TYPE_NTAG213"
    "ul_pages sample_ntag ! 41 ! 3 = 0xFF"
    by (simp_all add: sample_ntag_def ultralight_data_reset_def ultralight_type_from_version_def ultralight_version_is_zero_def memcpy_at_def nth_append)
  then show ?thesis
    using sample_ntag_ok by (simp add: ul_plain_def variant_from_type_def ultralight_page_needs_auth_def ultralight_read_protection_enabled_def
        ultralight_parse_config_def ultralight_config_page_indices_def ultralight_type_has_password_config_def Let_def)
qed

lemma sample_t2_up: "0 < ul_pages_total d \<Longrightarrow> ultralight_ok d \<Longrightarrow> ultralight_stored d = d \<Longrightarrow> ul_up d (sample_t2 d)"
  unfolding sample_t2_def ul_up_def by (simp add: ultralight_listener_t2_deserialize_def ultralight_listener_t2_init_def
      ultralight_t2_boot_def ultralight_deserialize_blob Let_def)

theorem ultralight_poller_reads_card_witness:
  "\<exists>d' l' k'. ultralight_poller_read (ul_rng (\<lambda>k. (replicate 8 0, k))) (ul_loop (\<lambda>k. (replicate 8 1, k)))
      (Some (nfc_reader_session_zero\<lparr>rs_active := True\<rparr>)) (ultralight_data_reset, (sample_t2 sample_ntag, ())) = (Inr (), (d', (l', k'))) \<and>
    ultralight_blob d' = ultralight_blob sample_ntag"
proof -
  have "ultralight_stored sample_ntag = sample_ntag" by code_simp
  then have "ul_up sample_ntag (sample_t2 sample_ntag)"
    using sample_t2_up [of sample_ntag] sample_ntag_ok by (simp add: sample_ntag_def)
  from ultralight_poller_reads_card [OF sample_ntag_plain this, of "\<lambda>k. (replicate 8 1, k)" "nfc_reader_session_zero\<lparr>rs_active := True\<rparr>"
      "\<lambda>k. (replicate 8 0, k)" ultralight_data_reset "()"]
  show ?thesis by (auto simp: nonces_def)
qed

text \<open>An Ultralight C with a key.\<close>

definition sample_mful_c :: ultralight_data where
  "sample_mful_c = ultralight_data_reset\<lparr>ul_type := UL_TYPE_MFUL_C, ul_pages_total := 48, ul_pages_read := 48,
     ul_pages := memcpy_at (replicate 256 (replicate 4 0)) 44 [[1, 2, 3, 4], [5, 6, 7, 8], [9, 10, 11, 12], [13, 14, 15, 16]]\<rparr>"

theorem ultralight_c_authenticates_witness:
  "\<exists>s' k'. ultralight_poller_i_authenticate (ul_rng (\<lambda>k. (replicate 8 3, k))) (ul_xc (\<lambda>k. (replicate 8 1, k)))
      (ultralight_3des_get_key sample_mful_c) (sample_t2 sample_mful_c, ()) = (Inr True, (s', k')) \<and> t2_auth_state s' = UL_T2_AUTH_SUCCESS"
proof -
  have "ultralight_stored sample_mful_c = sample_mful_c" by code_simp
  moreover have "ultralight_ok sample_mful_c" by (simp add: sample_mful_c_def ultralight_ok_def ultralight_data_reset_def memcpy_at_def)
  ultimately have "ul_up sample_mful_c (sample_t2 sample_mful_c)"
    using sample_t2_up [of sample_mful_c] by (simp add: sample_mful_c_def)
  from ultralight_c_authenticates [of "\<lambda>k. (replicate 8 1, k)" "\<lambda>k. (replicate 8 3, k)", OF _ _ this, of "()"]
  show ?thesis by (auto simp: nonces_def sample_mful_c_def)
qed

end
