(* ===== verification/Ultralight_T4.thy ===== *)
theory Ultralight_T4
  imports Ultralight_Model Ndef_Listener
begin

text \<open>
  The adapter that serves the NDEF message of an Ultralight card as a Type 4 tag
  (\<open>protocols/ultralight/ultralight_listener.c\<close>).  Its state is the card, and the NDEF listener it forwards to.
\<close>

section \<open>Definitions\<close>

record ultralight_listener =
  ut_model :: ultralight_data
  ut_initialized :: bool
  ut_ndef :: ndef_listener

definition ultralight_listener_bind_ndef :: "ultralight_listener \<Rightarrow> unit result \<times> ultralight_listener" where
  "ultralight_listener_bind_ndef s = (case ultralight_extract_ndef (ut_model s) of
     Inl e \<Rightarrow> (Inl e, s)
   | Inr msg \<Rightarrow>
     let ndef_model = ndef_data_reset in
     case (case msg of None \<Rightarrow> Inr ndef_model
       | Some b \<Rightarrow>
         if CONFIG_NFC_NDEF_MAX_SIZE < length b then Inl EBADMSG
         else Inr (ndef_model\<lparr>nd_ndef_file := memcpy_at (nd_ndef_file ndef_model) 0 (hi8 (length b) # lo8 (length b) # b),
                              nd_ndef_file_len := NFC_NDEF_NLEN_FIELD_LEN + length b\<rparr>)) of
       Inl e \<Rightarrow> (Inl e, s)
     | Inr m \<Rightarrow> (case ndef_listener_init (Some m) (Some False) (ut_ndef s) of (r, n) \<Rightarrow> (r, s\<lparr>ut_ndef := n\<rparr>)))"

definition ultralight_listener_on_select :: "ultralight_listener \<Rightarrow> ultralight_listener \<times> listener_effect list" where
  "ultralight_listener_on_select s = (case ndef_listener_on_select (ut_ndef s) of (n, es) \<Rightarrow> (s\<lparr>ut_ndef := n\<rparr>, es))"

definition ultralight_listener_on_apdu :: "nfc_apdu option \<Rightarrow> ultralight_listener \<Rightarrow> ultralight_listener \<times> listener_effect list" where
  "ultralight_listener_on_apdu apdu s = (case ndef_listener_on_apdu apdu (ut_ndef s) of (n, es) \<Rightarrow> (s\<lparr>ut_ndef := n\<rparr>, es))"

definition ultralight_listener_on_deselect :: "ultralight_listener \<Rightarrow> ultralight_listener" where
  "ultralight_listener_on_deselect s = s\<lparr>ut_ndef := ndef_listener_on_deselect (ut_ndef s)\<rparr>"

definition ultralight_listener_on_field_off :: "ultralight_listener \<Rightarrow> ultralight_listener" where
  "ultralight_listener_on_field_off s = s\<lparr>ut_ndef := ndef_listener_on_field_off (ut_ndef s)\<rparr>"

definition ultralight_listener_serialize :: "nat option \<Rightarrow> ultralight_listener \<Rightarrow> bytes result" where
  "ultralight_listener_serialize out s =
     (if \<not> ut_initialized s then Inl ENODEV else ultralight_serialize (Some (ut_model s)) out)"

definition ultralight_listener_deserialize :: "bytes option \<Rightarrow> ultralight_listener \<Rightarrow> unit result \<times> ultralight_listener" where
  "ultralight_listener_deserialize inp s =
     (if \<not> ut_initialized s then (Inl ENODEV, s)
      else
        let s = s\<lparr>ut_ndef := snd (ndef_listener_shutdown (ut_ndef s))\<rparr> in
        case ultralight_deserialize inp (ut_model s) of
          (Inl e, m) \<Rightarrow> (Inl e, s\<lparr>ut_model := m\<rparr>)
        | (Inr _, m) \<Rightarrow> ultralight_listener_bind_ndef (s\<lparr>ut_model := m\<rparr>))"

definition ultralight_listener_init :: "ultralight_listener \<Rightarrow> unit result \<times> ultralight_listener" where
  "ultralight_listener_init s =
     (if ut_initialized s then (Inl EALREADY, s)
      else (Inr (), s\<lparr>ut_model := ultralight_data_reset, ut_initialized := True\<rparr>))"

definition ultralight_listener_load :: "ultralight_data option \<Rightarrow> ultralight_listener \<Rightarrow> unit result \<times> ultralight_listener" where
  "ultralight_listener_load model s =
     (if \<not> ut_initialized s then (Inl ENODEV, s)
      else case model of None \<Rightarrow> (Inl EINVAL, s)
      | Some m \<Rightarrow> ultralight_listener_bind_ndef (s\<lparr>ut_ndef := snd (ndef_listener_shutdown (ut_ndef s)), ut_model := m\<rparr>))"

definition ultralight_listener_shutdown :: "ultralight_listener \<Rightarrow> unit result \<times> ultralight_listener" where
  "ultralight_listener_shutdown s =
     (if \<not> ut_initialized s then (Inr (), s)
      else (Inr (), s\<lparr>ut_ndef := snd (ndef_listener_shutdown (ut_ndef s)), ut_model := ultralight_data_reset, ut_initialized := False\<rparr>))"

section \<open>The message is served\<close>

text \<open>A card with a message that fits is bound read-only, and the NDEF file holds the length and the message.\<close>

lemma ultralight_listener_load_serves:
  assumes "ut_initialized s" "ultralight_extract_ndef m = Inr (Some msg)" "length msg \<le> CONFIG_NFC_NDEF_MAX_SIZE"
  shows "\<exists>s'. ultralight_listener_load (Some m) s = (Inr (), s') \<and> ut_model s' = m \<and> nl_initialized (ut_ndef s') \<and>
    \<not> nl_writable (ut_ndef s') \<and>
    nd_ndef_file (nl_model (ut_ndef s')) = hi8 (length msg) # lo8 (length msg) # msg @ replicate (CONFIG_NFC_NDEF_MAX_SIZE - length msg) 0"
proof -
  let ?f = "memcpy_at (nd_ndef_file ndef_data_reset) 0 (hi8 (length msg) # lo8 (length msg) # msg)"
  have f: "?f = hi8 (length msg) # lo8 (length msg) # msg @ replicate (500 - length msg) 0"
    using assms(3) by (simp add: memcpy_at_0 ndef_data_reset_def ndef_sizes)
  have "memset_at ?f (2 + length msg) 0 (502 - (2 + length msg)) = ?f"
    unfolding f using assms(3) by (simp add: memset_at_def memcpy_at_def ndef_sizes)
  then have "nd_ndef_file (ndef_pad_file (ndef_data_reset\<lparr>nd_ndef_file := ?f, nd_ndef_file_len := 2 + length msg, nd_cc := c, nd_cc_len := 15\<rparr>)) = ?f" for c
    using assms(3) by (auto simp: ndef_pad_file_def ndef_sizes)
  moreover have "\<not> nl_initialized (snd (ndef_listener_shutdown (ut_ndef s)))" by (simp add: ndef_listener_shutdown_def)
  moreover have "nd_cc_len ndef_data_reset = 0" by (simp add: ndef_data_reset_def)
  ultimately show ?thesis
    using assms f by (simp add: ultralight_listener_load_def ultralight_listener_bind_ndef_def ndef_listener_init_def Let_def
        ndef_listener_pad_ndef_file_def ndef_sizes)
qed

text \<open>A message that does not fit is refused, and no NDEF application is left behind.\<close>

lemma ultralight_listener_load_too_long:
  assumes "ut_initialized s" "ultralight_extract_ndef m = Inr (Some msg)" "CONFIG_NFC_NDEF_MAX_SIZE < length msg"
  shows "fst (ultralight_listener_load (Some m) s) = Inl EBADMSG \<and> \<not> nl_initialized (ut_ndef (snd (ultralight_listener_load (Some m) s)))"
  using assms by (simp add: ultralight_listener_load_def ultralight_listener_bind_ndef_def ndef_listener_shutdown_def)

end
