(* ===== verification/Felica.thy ===== *)
theory Felica
  imports Reader_Session
begin

text \<open>
  FeliCa Lite: the frame checksum (\<open>helpers/felica_crc.c\<close>), the card with its persistent encoding
  (\<open>protocols/felica/felica.c\<close>), the emulated card (\<open>felica_listener.c\<close>) and the reader (\<open>felica_poller_i.c\<close>,
  \<open>felica_poller.c\<close>).  The static transmit and receive buffers of the reader hold nothing between calls and are values here.
\<close>

section \<open>Checksum\<close>

abbreviation (input) FELICA_CRC_SIZE :: nat where "FELICA_CRC_SIZE \<equiv> 2"
abbreviation (input) FELICA_CRC_POLY :: u16 where "FELICA_CRC_POLY \<equiv> 0x1021"

definition felica_crc_shift :: "u16 \<Rightarrow> u16" where
  "felica_crc_shift crc = (if crc AND 0x8000 \<noteq> 0 then push_bit 1 crc XOR FELICA_CRC_POLY else push_bit 1 crc)"

definition felica_crc_calculate :: "bytes \<Rightarrow> u16" where
  "felica_crc_calculate data =
     (let crc = fold (\<lambda>b crc. (felica_crc_shift ^^ 8) (crc XOR push_bit 8 (ucast b))) data 0 in
      push_bit 8 crc OR drop_bit 8 crc)"

definition felica_crc_append :: "bytes \<Rightarrow> bytes" where
  "felica_crc_append buf = (let crc = felica_crc_calculate buf in buf @ [ucast (crc AND 0xFF), ucast (drop_bit 8 crc AND 0xFF)])"

definition felica_crc_check :: "bytes \<Rightarrow> bool" where
  "felica_crc_check data =
     (if length data \<le> FELICA_CRC_SIZE then False
      else
        let crc_rx = le16 (data ! (length data - 2)) (data ! (length data - 1));
            crc_calc = felica_crc_calculate (take (length data - FELICA_CRC_SIZE) data) in
        crc_calc = crc_rx)"

definition felica_crc_trim :: "bytes \<Rightarrow> bytes" where
  "felica_crc_trim buf = (if length buf < FELICA_CRC_SIZE then buf else take (length buf - FELICA_CRC_SIZE) buf)"

section \<open>Card\<close>

abbreviation (input) FELICA_FORMAT_VERSION :: u8 where "FELICA_FORMAT_VERSION \<equiv> 0x02"
abbreviation (input) FELICA_IDM_SIZE :: nat where "FELICA_IDM_SIZE \<equiv> 8"
abbreviation (input) FELICA_PMM_SIZE :: nat where "FELICA_PMM_SIZE \<equiv> 8"
abbreviation (input) FELICA_BLOCK_DATA_SIZE :: nat where "FELICA_BLOCK_DATA_SIZE \<equiv> 16"
abbreviation (input) FELICA_BLOCKS_MAX :: nat where "FELICA_BLOCKS_MAX \<equiv> 64"

datatype felica_workflow_type = FELICA_WORKFLOW_UNKNOWN | FELICA_WORKFLOW_STANDARD | FELICA_WORKFLOW_LITE

record felica_block =
  fb_sf1 :: u8
  fb_sf2 :: u8
  fb_data :: bytes

record felica_data =
  fl_idm :: bytes
  fl_pmm :: bytes
  fl_blocks_total :: nat
  fl_blocks_read :: nat
  fl_blocks :: "felica_block list"

definition felica_data_reset :: felica_data where
  "felica_data_reset = \<lparr>fl_idm = replicate FELICA_IDM_SIZE 0, fl_pmm = replicate FELICA_PMM_SIZE 0,
     fl_blocks_total = 0, fl_blocks_read = 0,
     fl_blocks = replicate FELICA_BLOCKS_MAX \<lparr>fb_sf1 = 0, fb_sf2 = 0, fb_data = replicate FELICA_BLOCK_DATA_SIZE 0\<rparr>\<rparr>"

definition felica_get_workflow_type :: "bytes \<Rightarrow> felica_workflow_type" where
  "felica_get_workflow_type pmm =
     (if pmm ! 1 \<in> {0xF0, 0xF1, 0xF2} then FELICA_WORKFLOW_LITE
      else if pmm ! 1 = 0xA2 then FELICA_WORKFLOW_STANDARD
      else if pmm ! 1 \<le> 0x48 then FELICA_WORKFLOW_STANDARD
      else FELICA_WORKFLOW_UNKNOWN)"

definition felica_block_bytes :: "felica_block \<Rightarrow> bytes" where
  "felica_block_bytes b = fb_sf1 b # fb_sf2 b # take FELICA_BLOCK_DATA_SIZE (fb_data b)"

definition felica_serialize :: "felica_data option \<Rightarrow> nat option \<Rightarrow> bytes result" where
  "felica_serialize data out = (case (data, out) of
     (Some d, Some out_max) \<Rightarrow>
       if fl_blocks_total d = 0 \<or> FELICA_BLOCKS_MAX < fl_blocks_total d then Inl EINVAL
       else if out_max < 1 + FELICA_IDM_SIZE + FELICA_PMM_SIZE + 4 + fl_blocks_total d * (2 + FELICA_BLOCK_DATA_SIZE) then Inl ENOSPC
       else Inr (FELICA_FORMAT_VERSION # take FELICA_IDM_SIZE (fl_idm d) @ take FELICA_PMM_SIZE (fl_pmm d)
         @ [lo8 (fl_blocks_total d), hi8 (fl_blocks_total d), lo8 (fl_blocks_read d), hi8 (fl_blocks_read d)]
         @ concat (map felica_block_bytes (take (fl_blocks_total d) (fl_blocks d))))
   | _ \<Rightarrow> Inl EINVAL)"

definition felica_deserialize :: "bytes option \<Rightarrow> felica_data \<Rightarrow> unit result \<times> felica_data" where
  "felica_deserialize inp d = (case inp of
     None \<Rightarrow> (Inl EINVAL, d)
   | Some i \<Rightarrow>
     let d = felica_data_reset in
     if length i < 1 + FELICA_IDM_SIZE + FELICA_PMM_SIZE + 4 then (Inl EBADMSG, d)
     else if i ! 0 \<noteq> FELICA_FORMAT_VERSION then (Inl EBADMSG, d)
     else
       let d = d\<lparr>fl_idm := sub_bytes 1 FELICA_IDM_SIZE i, fl_pmm := sub_bytes 9 FELICA_PMM_SIZE i,
                 fl_blocks_read := unat (le16 (i ! 19) (i ! 20))\<rparr>;
           blocks_total = unat (le16 (i ! 17) (i ! 18)) in
       if blocks_total = 0 \<or> FELICA_BLOCKS_MAX < blocks_total then (Inl EBADMSG, d)
       else if length i < 21 + blocks_total * (2 + FELICA_BLOCK_DATA_SIZE) then (Inl EBADMSG, d)
       else (Inr (), d\<lparr>fl_blocks_total := blocks_total,
         fl_blocks := memcpy_at (fl_blocks d) 0 (map (\<lambda>k. let offset = 21 + k * 18 in
           \<lparr>fb_sf1 = i ! offset, fb_sf2 = i ! (offset + 1), fb_data = sub_bytes (offset + 2) FELICA_BLOCK_DATA_SIZE i\<rparr>) [0..<blocks_total])\<rparr>))"

definition felica_compare :: "felica_data option \<Rightarrow> felica_data option \<Rightarrow> unit result" where
  "felica_compare expected actual = (case (expected, actual) of
     (Some e, Some a) \<Rightarrow>
       if take FELICA_IDM_SIZE (fl_idm e) \<noteq> take FELICA_IDM_SIZE (fl_idm a) then Inl EBADMSG
       else if take FELICA_PMM_SIZE (fl_pmm e) \<noteq> take FELICA_PMM_SIZE (fl_pmm a) then Inl EBADMSG
       else if fl_blocks_total e \<noteq> fl_blocks_total a then Inl EBADMSG
       else if fl_blocks_read e \<noteq> fl_blocks_read a then Inl EBADMSG
       else if list_all (\<lambda>i. fb_sf1 (fl_blocks e ! i) = fb_sf1 (fl_blocks a ! i) \<and> fb_sf2 (fl_blocks e ! i) = fb_sf2 (fl_blocks a ! i) \<and>
           take FELICA_BLOCK_DATA_SIZE (fb_data (fl_blocks e ! i)) = take FELICA_BLOCK_DATA_SIZE (fb_data (fl_blocks a ! i)))
           [0..<fl_blocks_total e] then Inr () else Inl EBADMSG
   | _ \<Rightarrow> Inl EINVAL)"

section \<open>Block numbers\<close>

abbreviation (input) FELICA_POLLER_MAX_BUFFER_SIZE :: nat where "FELICA_POLLER_MAX_BUFFER_SIZE \<equiv> 256"
abbreviation (input) FELICA_CMD_READ_WITHOUT_ENCRYPTION :: u8 where "FELICA_CMD_READ_WITHOUT_ENCRYPTION \<equiv> 0x06"
abbreviation (input) FELICA_CMD_READ_RESP_CODE :: u8 where "FELICA_CMD_READ_RESP_CODE \<equiv> 0x07"
abbreviation (input) FELICA_SERVICE_RO_ACCESS :: u16 where "FELICA_SERVICE_RO_ACCESS \<equiv> 0x000B"
abbreviation (input) FELICA_BLOCKS_LITE_TOTAL :: nat where "FELICA_BLOCKS_LITE_TOTAL \<equiv> 28"
abbreviation (input) FELICA_BLOCK_INDEX_REG :: u8 where "FELICA_BLOCK_INDEX_REG \<equiv> 0x0E"
abbreviation (input) FELICA_BLOCK_INDEX_RC :: u8 where "FELICA_BLOCK_INDEX_RC \<equiv> 0x80"
abbreviation (input) FELICA_BLOCK_INDEX_MC :: u8 where "FELICA_BLOCK_INDEX_MC \<equiv> 0x88"
abbreviation (input) FELICA_BLOCK_INDEX_WCNT :: u8 where "FELICA_BLOCK_INDEX_WCNT \<equiv> 0x90"
abbreviation (input) FELICA_BLOCK_INDEX_STATE :: u8 where "FELICA_BLOCK_INDEX_STATE \<equiv> 0x92"
abbreviation (input) FELICA_BLOCK_INDEX_CRC_CHECK :: u8 where "FELICA_BLOCK_INDEX_CRC_CHECK \<equiv> 0xA0"

definition felica_poller_lite_next_block_index :: "u8 \<Rightarrow> u8" where
  "felica_poller_lite_next_block_index block_index =
     (let block_index = block_index + 1 in
      if block_index = FELICA_BLOCK_INDEX_REG + 1 then FELICA_BLOCK_INDEX_RC
      else if block_index = FELICA_BLOCK_INDEX_MC + 1 then FELICA_BLOCK_INDEX_WCNT
      else if block_index = FELICA_BLOCK_INDEX_STATE + 1 then FELICA_BLOCK_INDEX_CRC_CHECK
      else block_index)"

text \<open>The loop over the dump indices \<open>is\<close>, with the wire number of the first.\<close>

fun felica_wire_search :: "u8 \<Rightarrow> nat list \<Rightarrow> u8 \<Rightarrow> u8" where
  "felica_wire_search wire_block [] wire = wire_block"
| "felica_wire_search wire_block (dump_idx # is) wire =
     (if wire = wire_block then of_nat dump_idx
      else felica_wire_search wire_block is (felica_poller_lite_next_block_index wire))"

definition felica_poller_lite_wire_to_dump_index :: "u8 \<Rightarrow> u8" where
  "felica_poller_lite_wire_to_dump_index wire_block = felica_wire_search wire_block [0..<FELICA_BLOCKS_LITE_TOTAL] 0"

section \<open>The emulated card\<close>

record felica_listener =
  fs_model :: felica_data
  fs_initialized :: bool

definition felica_listener_block_exists :: "u8 \<Rightarrow> bool" where
  "felica_listener_block_exists wire_block =
     (if FELICA_BLOCK_INDEX_REG < wire_block \<and> wire_block < FELICA_BLOCK_INDEX_RC then False
      else if FELICA_BLOCK_INDEX_MC < wire_block \<and> wire_block < FELICA_BLOCK_INDEX_WCNT then False
      else if FELICA_BLOCK_INDEX_STATE < wire_block \<and> wire_block < FELICA_BLOCK_INDEX_CRC_CHECK then False
      else if FELICA_BLOCK_INDEX_CRC_CHECK < wire_block then False
      else True)"

definition felica_listener_handle_poll :: "felica_data \<Rightarrow> bytes list" where
  "felica_listener_handle_poll m =
     [felica_crc_append (lo8 (2 + FELICA_IDM_SIZE + FELICA_PMM_SIZE) # 0x01 # fl_idm m @ fl_pmm m)]"

definition felica_listener_handle_read :: "felica_data \<Rightarrow> bytes \<Rightarrow> bytes list" where
  "felica_listener_handle_read m frame =
     (if length frame < 16 then []
      else if sub_bytes 2 FELICA_IDM_SIZE frame \<noteq> fl_idm m then []
      else if frame ! 10 \<noteq> 1 \<or> frame ! 13 \<noteq> 1 \<or> le16 (frame ! 11) (frame ! 12) \<noteq> FELICA_SERVICE_RO_ACCESS then []
      else if frame ! 14 AND 0x0F \<noteq> 0 \<or> drop_bit 4 (frame ! 14) AND 0x07 \<noteq> 0 \<or> drop_bit 7 (frame ! 14) \<noteq> 1 \<or>
        \<not> felica_listener_block_exists (frame ! 15) then []
      else
        let hdr = lo8 (2 + FELICA_IDM_SIZE + 3 + FELICA_BLOCK_DATA_SIZE) # 0x07 # fl_idm m @ [0, 0, 1] in
        if frame ! 15 = FELICA_BLOCK_INDEX_RC then [felica_crc_append (hdr @ replicate FELICA_BLOCK_DATA_SIZE 0)]
        else
          let dump_idx = unat (felica_poller_lite_wire_to_dump_index (frame ! 15)) in
          if fl_blocks_total m \<le> dump_idx then []
          else [felica_crc_append (hdr @ fb_data (fl_blocks m ! dump_idx))])"

definition felica_listener_on_tag_cmd :: "bytes option \<Rightarrow> felica_listener \<Rightarrow> felica_listener \<times> bytes list" where
  "felica_listener_on_tag_cmd tx s = (case tx of
     None \<Rightarrow> (s, [])
   | Some tx \<Rightarrow>
     if \<not> fs_initialized s \<or> length tx < 1 + FELICA_CRC_SIZE then (s, [])
     else if \<not> felica_crc_check tx then (s, [])
     else if FELICA_POLLER_MAX_BUFFER_SIZE < length tx then (s, [])
     else
       let frame = felica_crc_trim tx in
       if length frame < 2 then (s, [])
       else if frame ! 1 = 0x00 then (s, felica_listener_handle_poll (fs_model s))
       else if frame ! 1 = FELICA_CMD_READ_WITHOUT_ENCRYPTION then (s, felica_listener_handle_read (fs_model s) frame)
       else (s, []))"

definition felica_listener_serialize :: "nat option \<Rightarrow> felica_listener \<Rightarrow> bytes result" where
  "felica_listener_serialize out s = (if \<not> fs_initialized s then Inl ENODEV else felica_serialize (Some (fs_model s)) out)"

definition felica_listener_deserialize :: "bytes option \<Rightarrow> felica_listener \<Rightarrow> unit result \<times> felica_listener" where
  "felica_listener_deserialize inp s =
     (if \<not> fs_initialized s then (Inl ENODEV, s)
      else case felica_deserialize inp (fs_model s) of (r, m) \<Rightarrow> (r, s\<lparr>fs_model := m\<rparr>))"

definition felica_listener_init :: "felica_data option \<Rightarrow> felica_listener \<Rightarrow> unit result \<times> felica_listener" where
  "felica_listener_init model s =
     (Inr (), s\<lparr>fs_model := (case model of Some m \<Rightarrow> m | None \<Rightarrow> felica_data_reset), fs_initialized := True\<rparr>)"

definition felica_listener_shutdown :: "felica_listener \<Rightarrow> unit result \<times> felica_listener" where
  "felica_listener_shutdown s = (Inr (), s\<lparr>fs_model := felica_data_reset, fs_initialized := False\<rparr>)"

section \<open>The reader\<close>

text \<open>\<open>xc\<close> is \<open>nfc_reader_session_transceive\<close> with the session and the size of the receive buffer applied.\<close>

record felica_poller_polling_command =
  fp_system_code :: u16
  fp_request_code :: u8
  fp_time_slot :: u8

record felica_poller_read_response =
  fr_length :: u8
  fr_response_code :: u8
  fr_idm :: bytes
  fr_sf1 :: u8
  fr_sf2 :: u8
  fr_block_count :: u8
  fr_data :: bytes

definition felica_poller_frame_exchange :: "(bytes \<Rightarrow> ('t, bytes) io) \<Rightarrow> bytes \<Rightarrow> ('t, bytes) io" where
  "felica_poller_frame_exchange xc tx =
     (if length tx = 0 \<or> FELICA_POLLER_MAX_BUFFER_SIZE < length tx + FELICA_CRC_SIZE then io_fail EINVAL
      else io_bind (xc (felica_crc_append tx)) (\<lambda>rx.
        if \<not> felica_crc_check rx then io_fail EIO else io_return (felica_crc_trim rx)))"

definition felica_poller_polling ::
  "(bytes \<Rightarrow> ('t, bytes) io) \<Rightarrow> felica_poller_polling_command \<Rightarrow> ('t, bytes \<times> bytes) io" where
  "felica_poller_polling xc cmd =
     (let tx = [lo8 (4 + FELICA_CRC_SIZE), 0x00, ucast (fp_system_code cmd), ucast (drop_bit 8 (fp_system_code cmd)),
                fp_request_code cmd, fp_time_slot cmd] in
      io_bind (felica_poller_frame_exchange xc tx) (\<lambda>rx.
        if length rx < 2 + FELICA_IDM_SIZE + FELICA_PMM_SIZE \<or> rx ! 1 \<noteq> 0x01 then io_fail EIO
        else io_return (sub_bytes 2 FELICA_IDM_SIZE rx, sub_bytes 10 FELICA_PMM_SIZE rx)))"

definition felica_poller_prepare_tx_buffer :: "bytes \<Rightarrow> u8 \<Rightarrow> u16 \<Rightarrow> bytes \<Rightarrow> bytes" where
  "felica_poller_prepare_tx_buffer idm command service_code block_numbers =
     (let cmd = command # take FELICA_IDM_SIZE idm @ [1, ucast service_code, ucast (drop_bit 8 service_code), lo8 (length block_numbers)];
          block_list = concat (map (\<lambda>n. [0x80, n]) block_numbers) in
      lo8 (length cmd + 1 + length block_list) # cmd @ block_list)"

definition felica_poller_read_blocks ::
  "(bytes \<Rightarrow> ('t, bytes) io) \<Rightarrow> bytes \<Rightarrow> bytes \<Rightarrow> u16 \<Rightarrow> ('t, felica_poller_read_response) io" where
  "felica_poller_read_blocks xc idm block_numbers service_code =
     (if length block_numbers = 0 \<or> 4 < length block_numbers then io_fail EINVAL
      else io_bind (felica_poller_frame_exchange xc
          (felica_poller_prepare_tx_buffer idm FELICA_CMD_READ_WITHOUT_ENCRYPTION service_code block_numbers)) (\<lambda>rx.
        if length rx < 2 + FELICA_IDM_SIZE + 3 + FELICA_BLOCK_DATA_SIZE \<or> rx ! 1 \<noteq> FELICA_CMD_READ_RESP_CODE then io_fail EIO
        else io_return \<lparr>fr_length = rx ! 0, fr_response_code = rx ! 1, fr_idm = sub_bytes 2 FELICA_IDM_SIZE rx,
          fr_sf1 = rx ! 10, fr_sf2 = rx ! 11, fr_block_count = rx ! 12, fr_data = sub_bytes 13 FELICA_BLOCK_DATA_SIZE rx\<rparr>))"

text \<open>The empty data pointer and length zero both copy nothing.\<close>

definition felica_poller_prepare_tx_buffer_raw :: "bytes \<Rightarrow> u8 \<Rightarrow> bytes option \<Rightarrow> nat \<Rightarrow> bytes" where
  "felica_poller_prepare_tx_buffer_raw idm command data data_length =
     lo8 (2 + FELICA_IDM_SIZE + data_length) # command # take FELICA_IDM_SIZE idm @
     (case data of Some b \<Rightarrow> take data_length b | None \<Rightarrow> [])"

definition felica_poller_session_valid :: "nfc_reader_session option \<Rightarrow> bool" where
  "felica_poller_session_valid session \<longleftrightarrow> (case session of None \<Rightarrow> False | Some s \<Rightarrow> rs_active s)"

abbreviation (input) felica_poll_any :: felica_poller_polling_command where
  "felica_poll_any \<equiv> \<lparr>fp_system_code = 0xFFFF, fp_request_code = 0, fp_time_slot = 0\<rparr>"

definition felica_poller_poll :: "(bytes \<Rightarrow> ('t, bytes) io) \<Rightarrow> (felica_data \<times> 't, unit) io" where
  "felica_poller_poll xc =
     io_bind (on_tag (felica_poller_polling xc felica_poll_any)) (\<lambda>(idm, pmm). on_out (\<lambda>d. d\<lparr>fl_idm := idm, fl_pmm := pmm\<rparr>))"

definition felica_poller_keep_block :: "felica_poller_read_response \<Rightarrow> felica_data \<Rightarrow> felica_data" where
  "felica_poller_keep_block response d =
     d\<lparr>fl_blocks := (fl_blocks d)[fl_blocks_total d := \<lparr>fb_sf1 = fr_sf1 response, fb_sf2 = fr_sf2 response,
          fb_data = (if fr_sf1 response = 0 then fr_data response else replicate FELICA_BLOCK_DATA_SIZE 0)\<rparr>],
       fl_blocks_read := (if fr_sf1 response = 0 then (fl_blocks_read d + 1) mod 2 ^ 16 else fl_blocks_read d),
       fl_blocks_total := fl_blocks_total d + 1\<rparr>"

function felica_poller_read_lite_blocks ::
  "(bytes \<Rightarrow> ('t, bytes) io) \<Rightarrow> u8 \<Rightarrow> (felica_data \<times> 't, unit) io" where
  "felica_poller_read_lite_blocks xc block_index (d, t) =
     (if \<not> fl_blocks_total d < FELICA_BLOCKS_LITE_TOTAL then (Inr (), (d, t))
      else case felica_poller_read_blocks xc (fl_idm d) [block_index] FELICA_SERVICE_RO_ACCESS t of
        (Inl e, t) \<Rightarrow> (Inl e, (d, t))
      | (Inr response, t) \<Rightarrow>
          felica_poller_read_lite_blocks xc (felica_poller_lite_next_block_index block_index) (felica_poller_keep_block response d, t))"
  by pat_completeness auto
termination
  by (relation "measure (\<lambda>(xc, i, d, t). FELICA_BLOCKS_LITE_TOTAL - fl_blocks_total d)") (auto simp: felica_poller_keep_block_def)

declare felica_poller_read_lite_blocks.simps [simp del]

definition felica_xc ::
  "(bytes \<Rightarrow> nat \<Rightarrow> ('t, bytes) io) \<Rightarrow> nfc_reader_session option \<Rightarrow> bytes \<Rightarrow> ('t, bytes) io" where
  "felica_xc hal session tx = nfc_reader_session_transceive hal session tx FELICA_POLLER_MAX_BUFFER_SIZE"

definition felica_poller_detect ::
  "(bytes \<Rightarrow> nat \<Rightarrow> ('t, bytes) io) \<Rightarrow> nfc_reader_session option \<Rightarrow> ('t, unit) io" where
  "felica_poller_detect hal session =
     (if \<not> felica_poller_session_valid session then io_fail EINVAL
      else io_case (felica_poller_polling (felica_xc hal session) felica_poll_any) (\<lambda>_. io_fail ENOTSUP) (\<lambda>_. io_return ()))"

definition felica_poller_read ::
  "(bytes \<Rightarrow> nat \<Rightarrow> ('t, bytes) io) \<Rightarrow> nfc_reader_session option \<Rightarrow> (felica_data \<times> 't, unit) io" where
  "felica_poller_read hal session =
     (if \<not> felica_poller_session_valid session then io_fail EINVAL
      else let xc = felica_xc hal session in
        io_bind (on_out (\<lambda>_. felica_data_reset)) (\<lambda>_.
        io_bind (felica_poller_poll xc) (\<lambda>_ dt.
        io_bind (io_check (felica_get_workflow_type (fl_pmm (fst dt)) = FELICA_WORKFLOW_LITE) ENOTSUP) (\<lambda>_.
        io_bind (felica_poller_read_lite_blocks xc 0) (\<lambda>_ dt.
        io_check (fl_blocks_total (fst dt) \<noteq> 0) EIO dt)) dt)))"

end
