(* ===== verification/Reader_Loop.thy ===== *)
theory Reader_Loop
  imports Reader_Session
begin

text \<open>
  A reader in front of an emulated tag, and the number of exchanges a reader makes.  \<open>tag_loop\<close> is a field that holds
  one emulated tag: a command goes to the tag's handler and its first answer comes back; a tag that stays silent is a timeout.
\<close>

section \<open>The field\<close>

definition tag_loop :: "(bytes option \<Rightarrow> 's \<Rightarrow> 's \<times> bytes list) \<Rightarrow> bytes \<Rightarrow> nat \<Rightarrow> ('s, bytes) io" where
  "tag_loop on_tag_cmd tx n s = (case on_tag_cmd (Some tx) s of (s', []) \<Rightarrow> (Inl ETIMEDOUT, s') | (s', r # _) \<Rightarrow> (Inr r, s'))"

lemma tag_loop_simps:
  "on_tag_cmd (Some tx) s = (s', []) \<Longrightarrow> tag_loop on_tag_cmd tx n s = (Inl ETIMEDOUT, s')"
  "on_tag_cmd (Some tx) s = (s', r # rs) \<Longrightarrow> tag_loop on_tag_cmd tx n s = (Inr r, s')"
  by (simp_all add: tag_loop_def)

section \<open>Counting\<close>

text \<open>A field that counts the commands sent into it, and steps that spend at most \<open>k\<close> of a resource \<open>f\<close>.\<close>

definition counted :: "(bytes \<Rightarrow> nat \<Rightarrow> ('t, bytes) io) \<Rightarrow> bytes \<Rightarrow> nat \<Rightarrow> ('t \<times> nat, bytes) io" where
  "counted hal tx n tc = (case hal tx n (fst tc) of (r, t') \<Rightarrow> (r, (t', Suc (snd tc))))"

definition spends :: "('s \<Rightarrow> nat) \<Rightarrow> nat \<Rightarrow> ('s, 'a) io \<Rightarrow> bool" where
  "spends f k m \<longleftrightarrow> (\<forall>s. f (snd (m s)) \<le> f s + k)"

lemma spends_counted: "spends snd 1 (counted hal tx n)"
  by (simp add: spends_def counted_def split: prod.split)

lemma spends_transceive: "spends snd 1 (nfc_reader_session_transceive (counted hal) session tx n)"
proof (cases session)
  case (Some s)
  then show ?thesis using spends_counted [of hal tx n]
    by (simp add: nfc_reader_session_transceive_def spends_def io_fail_def)
qed (simp add: nfc_reader_session_transceive_def spends_def io_fail_def)

lemma spendsD: "spends f k m \<Longrightarrow> m s = (r, s') \<Longrightarrow> f s' \<le> f s + k"
  unfolding spends_def by (metis snd_conv)

lemma spends_mono: "spends f k m \<Longrightarrow> k \<le> k' \<Longrightarrow> spends f k' m"
  unfolding spends_def by (meson add_le_mono order_refl order_trans)

lemma spends_basic: "spends f k (io_return x)" "spends f k (io_fail e)" "spends f k (io_check c e)"
  by (simp_all add: spends_def io_return_def io_fail_def io_check_def)

lemma spends_out: "spends (\<lambda>dt. f (snd dt)) k (on_out g)"
  by (simp add: spends_def on_out_def)

lemma spends_tag: "spends f k m \<Longrightarrow> spends (\<lambda>dt. f (snd dt)) k (on_tag m)"
  by (simp add: spends_def on_tag_def split: prod.split) (metis snd_conv)

lemma spends_case:
  assumes "spends f a m" "\<And>e. spends f b (h e)" "\<And>x. spends f b (g x)"
  shows "spends f (a + b) (io_case m h g)"
proof (unfold spends_def, intro allI)
  fix s
  obtain r s' where m: "m s = (r, s')" by (metis surj_pair)
  have 1: "f s' \<le> f s + a" using assms(1) m unfolding spends_def by (metis snd_conv)
  have 2: "f (snd (h e s')) \<le> f s' + b" "f (snd (g x s')) \<le> f s' + b" for e x
    using assms(2,3) unfolding spends_def by blast+
  have 3: "f (snd (h e s')) \<le> f s + (a + b)" "f (snd (g x s')) \<le> f s + (a + b)" for e x
    using 1 2(1) [of e] 2(2) [of x] by linarith+
  show "f (snd (io_case m h g s)) \<le> f s + (a + b)"
    using m 3 by (cases r) (simp_all add: io_case_def)
qed

lemma spends_bind: "spends f a m \<Longrightarrow> (\<And>x. spends f b (g x)) \<Longrightarrow> spends f (a + b) (io_bind m g)"
  unfolding io_bind_case by (intro spends_case spends_basic)

lemma spends_then: "spends f k m \<Longrightarrow> (\<And>x. spends f 0 (g x)) \<Longrightarrow> spends f k (io_bind m g)"
  using spends_bind [of f k m 0 g] by simp

lemma spends_if: "(c \<Longrightarrow> spends f k m) \<Longrightarrow> (\<not> c \<Longrightarrow> spends f k n) \<Longrightarrow> spends f k (if c then m else n)"
  by simp

end
