(* ===== verification/Felica_Loopback.thy ===== *)
theory Felica_Loopback
  imports Felica Reader_Loop
begin

text \<open>
  FeliCa: the encoding of a card gives the card back; the reader in front of any tag keeps its record well formed and ends after
  29 exchanges; the reader in front of the emulated card reads it, and what it has read can be stored, loaded and emulated in turn.
\<close>

section \<open>Frames\<close>

lemma felica_crc_length [simp]: "length (felica_crc_append f) = length f + 2"
  by (simp add: felica_crc_append_def Let_def)

lemma felica_crc_check_append [simp]: "felica_crc_check (felica_crc_append f) \<longleftrightarrow> f \<noteq> []"
  by (simp add: felica_crc_check_def felica_crc_append_def Let_def nth_append le16_halves)

lemma felica_crc_trim_append [simp]: "felica_crc_trim (felica_crc_append f) = f"
  by (simp add: felica_crc_trim_def felica_crc_append_def Let_def)

section \<open>Well-formed cards and their encoding\<close>

definition felica_ok :: "felica_data \<Rightarrow> bool" where
  "felica_ok d \<longleftrightarrow> length (fl_idm d) = 8 \<and> length (fl_pmm d) = 8 \<and> length (fl_blocks d) = 64 \<and>
     (\<forall>b \<in> set (fl_blocks d). length (fb_data b) = 16) \<and> fl_blocks_total d \<le> 64 \<and> fl_blocks_read d < 65536"

abbreviation (input) felica_blank :: felica_block where
  "felica_blank \<equiv> \<lparr>fb_sf1 = 0, fb_sf2 = 0, fb_data = replicate 16 0\<rparr>"

text \<open>A card with blocks, and zeros after them.\<close>

definition felica_card :: "felica_data \<Rightarrow> bool" where
  "felica_card d \<longleftrightarrow> felica_ok d \<and> 0 < fl_blocks_total d \<and> drop (fl_blocks_total d) (fl_blocks d) = replicate (64 - fl_blocks_total d) felica_blank"

lemma felica_reset_ok: "felica_ok felica_data_reset"
  by (simp add: felica_ok_def felica_data_reset_def)

lemma felica_deserialize_ok:
  assumes "felica_ok d" shows "felica_ok (snd (felica_deserialize inp d))"
proof -
  have *: "length (sub_bytes (21 + k * 18 + 2) 16 i) = 16" if "21 + n * 18 \<le> length i" "k < n" for k n and i :: bytes
  proof -
    have "Suc k * 18 \<le> n * 18" using that(2) by (intro mult_right_mono) auto
    then show ?thesis using that(1) by (intro length_sub_bytes) simp
  qed
  show ?thesis using assms felica_reset_ok *
    unfolding felica_deserialize_def Let_def
    by (auto simp: felica_ok_def felica_data_reset_def memcpy_at_def length_sub_bytes not_less split: option.split)
qed

lemma felica_block_row:
  assumes "sub_bytes off 18 i = felica_block_bytes b" "length (fb_data b) = 16" "off + 18 \<le> length i"
  shows "\<lparr>fb_sf1 = i ! off, fb_sf2 = i ! (off + 1), fb_data = sub_bytes (off + 2) 16 i\<rparr> = b"
proof -
  have "i ! off = fb_sf1 b" "i ! (off + 1) = fb_sf2 b"
    using nth_sub_bytes [OF assms(3), of 0] nth_sub_bytes [OF assms(3), of 1] assms(1) by (simp_all add: felica_block_bytes_def)
  moreover have "sub_bytes (off + 2) 16 i = drop 2 (sub_bytes off 18 i)" by (simp add: sub_bytes_def drop_take add.commute)
  then have "sub_bytes (off + 2) 16 i = fb_data b" using assms(1,2) by (simp add: felica_block_bytes_def)
  ultimately show ?thesis by simp
qed

lemma felica_serialize_deserialize:
  assumes "felica_card d" "21 + 18 * fl_blocks_total d \<le> n"
  shows "\<exists>blob. felica_serialize (Some d) (Some n) = Inr blob \<and> felica_deserialize (Some blob) d0 = (Inr (), d)"
proof -
  let ?n = "fl_blocks_total d"
  let ?bs = "take ?n (fl_blocks d)"
  let ?pre = "2 # fl_idm d @ fl_pmm d @ [lo8 ?n, hi8 ?n, lo8 (fl_blocks_read d), hi8 (fl_blocks_read d)]"
  let ?blob = "?pre @ concat (map felica_block_bytes ?bs)"
  from assms(1) have ok: "felica_ok d" and n: "0 < ?n" "?n \<le> 64" "fl_blocks_read d < 65536"
    and rest: "drop ?n (fl_blocks d) = replicate (64 - ?n) felica_blank"
    by (simp_all add: felica_card_def felica_ok_def)
  then have l: "length (fl_idm d) = 8" "length (fl_pmm d) = 8" "length ?bs = ?n" by (simp_all add: felica_ok_def)
  have b16: "length (fb_data (?bs ! k)) = 16" if "k < ?n" for k using ok that n(2) by (simp add: felica_ok_def)
  have rows: "list_all (\<lambda>x. length x = 18) (map felica_block_bytes ?bs)"
    using b16 l(3) by (simp add: list_all_length felica_block_bytes_def)
  have len: "length ?blob = 21 + ?n * 18" using length_concat_eq [OF rows] l by simp
  have row: "sub_bytes (21 + k * 18) 18 ?blob = felica_block_bytes (?bs ! k)" if k: "k < ?n" for k
    using sub_bytes_rows [OF rows, of 21 ?pre "[]"] l k by (simp add: list_eq_iff_nth_eq del: take_map)
  have blocks: "map (\<lambda>k. let offset = 21 + k * 18 in \<lparr>fb_sf1 = ?blob ! offset, fb_sf2 = ?blob ! (offset + 1),
      fb_data = sub_bytes (offset + 2) 16 ?blob\<rparr>) [0..<?n] = ?bs" (is "map ?f _ = _")
  proof (rule nth_equalityI)
    fix k assume "k < length (map ?f [0..<?n])"
    then have k: "k < ?n" by simp
    have "Suc k * 18 \<le> ?n * 18" using k by (intro mult_right_mono) auto
    then have "21 + k * 18 + 18 \<le> length ?blob" unfolding len by simp
    from felica_block_row [OF row [OF k] b16 [OF k] this] k show "map ?f [0..<?n] ! k = ?bs ! k" by (simp add: Let_def)
  qed (simp only: length_map length_upt l(3) diff_zero)
  have "felica_serialize (Some d) (Some n) = Inr ?blob" using assms(2) n l by (simp add: felica_serialize_def)
  moreover have "?blob ! 17 = lo8 ?n" "?blob ! 18 = hi8 ?n" "?blob ! 19 = lo8 (fl_blocks_read d)" "?blob ! 20 = hi8 (fl_blocks_read d)"
    using l by (simp_all add: nth_append nth_Cons')
  moreover have "sub_bytes 1 8 ?blob = fl_idm d" "sub_bytes 9 8 ?blob = fl_pmm d" using l by (simp_all add: sub_bytes_def)
  ultimately show ?thesis
    using n len blocks rest l(3) unat_le16_lo_hi [of ?n] unat_le16_lo_hi [of "fl_blocks_read d"]
    by (intro exI [of _ ?blob]) (simp add: felica_deserialize_def Let_def felica_data_reset_def memcpy_at_0 flip: rest)
qed

section \<open>Wire numbers\<close>

text \<open>The number of each block of a Lite card on the wire, and where the reader's loop stops.\<close>

definition felica_wires :: bytes where
  "felica_wires = [0, 1, 2, 3, 4, 5, 6, 7, 8, 9, 10, 11, 12, 13, 14, 0x80, 0x81, 0x82, 0x83, 0x84, 0x85, 0x86, 0x87, 0x88,
     0x90, 0x91, 0x92, 0xA0, 0xA1]"

abbreviation (input) felica_wire :: "nat \<Rightarrow> u8" where "felica_wire i \<equiv> felica_wires ! i"

lemma felica_wires_length: "length felica_wires = 29" "distinct felica_wires" "felica_wires \<noteq> []"
  by (simp_all add: felica_wires_def)

lemma felica_wire_Suc: "i < 28 \<Longrightarrow> felica_poller_lite_next_block_index (felica_wire i) = felica_wire (Suc i)"
proof -
  have "list_all2 (\<lambda>a b. felica_poller_lite_next_block_index a = b) (butlast felica_wires) (tl felica_wires)"
    by (simp add: felica_wires_def felica_poller_lite_next_block_index_def)
  from list_all2_nthD [OF this, of i] show "i < 28 \<Longrightarrow> ?thesis"
    by (simp add: felica_wires_length nth_butlast nth_tl)
qed

lemma felica_wire_search_finds:
  "j \<le> i \<Longrightarrow> i < 28 \<Longrightarrow> felica_wire_search (felica_wire i) [j..<28] (felica_wire j) = of_nat i"
proof (induction "i - j" arbitrary: j)
  case 0
  then have "j = i" "[j..<28] = j # [Suc j..<28]" by (simp_all add: upt_conv_Cons)
  then show ?case by simp
next
  case (Suc n)
  then have "j < i" "[j..<28] = j # [Suc j..<28]" by (simp_all add: upt_conv_Cons)
  moreover from this have "felica_wire j \<noteq> felica_wire i" using felica_wires_length Suc.prems by (simp add: nth_eq_iff_index_eq)
  ultimately show ?case using Suc felica_wire_Suc [of j] by simp
qed

lemma felica_wire_facts:
  assumes "i < 28"
  shows "felica_listener_block_exists (felica_wire i)" "unat (felica_poller_lite_wire_to_dump_index (felica_wire i)) = i"
    "felica_wire i = 0x80 \<longleftrightarrow> i = 15"
proof -
  have "list_all felica_listener_block_exists (butlast felica_wires)"
    by (simp add: felica_wires_def felica_listener_block_exists_def)
  then show "felica_listener_block_exists (felica_wire i)"
    using assms by (simp add: list_all_length felica_wires_length nth_butlast)
  have "felica_wire 0 = 0" by (simp add: felica_wires_def)
  then show "unat (felica_poller_lite_wire_to_dump_index (felica_wire i)) = i"
    using felica_wire_search_finds [of 0 i] assms
    by (simp add: felica_poller_lite_wire_to_dump_index_def unat_of_nat del: upt_rec_numeral)
  have "felica_wire 15 = 0x80" by (simp add: felica_wires_def)
  then show "felica_wire i = 0x80 \<longleftrightarrow> i = 15"
    using nth_eq_iff_index_eq [OF felica_wires_length(2), of i 15] assms felica_wires_length(1) by simp
qed

section \<open>Any tag\<close>

text \<open>What holds of the record while the blocks are read.\<close>

definition felica_reading :: "felica_data \<Rightarrow> bool" where
  "felica_reading d \<longleftrightarrow> felica_ok d \<and> fl_blocks_total d \<le> 28 \<and> fl_blocks_read d \<le> fl_blocks_total d"

lemma felica_read_blocks_length:
  "felica_poller_read_blocks xc idm ns c t = (Inr r, t') \<Longrightarrow> length (fr_data r) = 16"
  by (auto simp: felica_poller_read_blocks_def io_bind_def io_fail_def io_return_def length_sub_bytes
      split: if_splits prod.splits sum.splits)

lemma felica_reading_keep_block:
  assumes "felica_reading d" "fl_blocks_total d < 28" "length (fr_data r) = 16"
  shows "felica_reading (felica_poller_keep_block r d)"
  using assms by (auto simp: felica_reading_def felica_ok_def felica_poller_keep_block_def dest!: set_update_subset_insert [THEN subsetD])

lemma felica_exchange_spends:
  assumes "\<And>tx. spends f 1 (xc tx)" shows "spends f 1 (felica_poller_frame_exchange xc tx)"
  unfolding felica_poller_frame_exchange_def
  by (intro spends_if spends_then spends_basic assms)

lemma felica_read_blocks_spends:
  assumes "\<And>tx. spends f 1 (xc tx)" shows "spends f 1 (felica_poller_read_blocks xc idm ns c)"
  unfolding felica_poller_read_blocks_def
  by (intro spends_if spends_then spends_basic felica_exchange_spends assms)

lemma felica_polling_spends:
  assumes "\<And>tx. spends f 1 (xc tx)" shows "spends f 1 (felica_poller_polling xc cmd)"
  unfolding felica_poller_polling_def Let_def
  by (intro spends_if spends_then spends_basic felica_exchange_spends assms)

lemma felica_lite_blocks_any_tag:
  assumes "\<And>tx. spends f 1 (xc tx)" "felica_reading d"
    "felica_poller_read_lite_blocks xc i (d, t) = (r, (d', t'))"
  shows "felica_reading d' \<and> f t' \<le> f t + (28 - fl_blocks_total d) \<and> (r = Inr () \<longrightarrow> fl_blocks_total d' = 28)"
  using assms(2,3)
proof (induction "28 - fl_blocks_total d" arbitrary: i d t)
  case 0
  then have "fl_blocks_total d = 28" by (simp add: felica_reading_def)
  with 0 show ?case by (simp add: felica_poller_read_lite_blocks.simps [of xc i d t])
next
  case (Suc n)
  then have lt: "fl_blocks_total d < 28" by simp
  obtain x t1 where x: "felica_poller_read_blocks xc (fl_idm d) [i] 0x0B t = (x, t1)" by (metis surj_pair)
  have t1: "f t1 \<le> f t + 1" by (rule spendsD [OF felica_read_blocks_spends [of f xc, OF assms(1)] x])
  show ?case
  proof (cases x)
    case (Inl e)
    with Suc.prems lt x have "r = Inl e \<and> d' = d \<and> t' = t1" by (simp add: felica_poller_read_lite_blocks.simps [of xc i d t])
    with Suc.prems(1) t1 lt show ?thesis by simp
  next
    case (Inr resp)
    let ?d = "felica_poller_keep_block resp d"
    have "length (fr_data resp) = 16" using x Inr by (intro felica_read_blocks_length) simp
    from felica_reading_keep_block [OF Suc.prems(1) lt this] have "felica_reading ?d" .
    moreover have "fl_blocks_total ?d = fl_blocks_total d + 1" by (simp add: felica_poller_keep_block_def)
    moreover have "felica_poller_read_lite_blocks xc (felica_poller_lite_next_block_index i) (?d, t1) = (r, (d', t'))"
      using Suc.prems(2) lt x Inr by (simp add: felica_poller_read_lite_blocks.simps [of xc i d t])
    ultimately show ?thesis using Suc.hyps(1) [of ?d "felica_poller_lite_next_block_index i" t1] Suc.hyps(2) t1 by linarith
  qed
qed

lemma felica_xc_spends: "spends snd 1 (felica_xc (counted hal) session tx)"
  unfolding felica_xc_def by (rule spends_transceive)

lemma felica_poller_read_eval:
  assumes "felica_poller_session_valid session"
  shows "felica_poller_read hal session (d0, t) =
    (case felica_poller_polling (felica_xc hal session) felica_poll_any t of
       (Inl e, t1) \<Rightarrow> (Inl e, (felica_data_reset, t1))
     | (Inr (idm, pmm), t1) \<Rightarrow>
         let d = felica_data_reset\<lparr>fl_idm := idm, fl_pmm := pmm\<rparr> in
         if felica_get_workflow_type pmm \<noteq> FELICA_WORKFLOW_LITE then (Inl ENOTSUP, (d, t1))
         else case felica_poller_read_lite_blocks (felica_xc hal session) 0 (d, t1) of
           (Inl e, dt) \<Rightarrow> (Inl e, dt)
         | (Inr _, dt) \<Rightarrow> if fl_blocks_total (fst dt) = 0 then (Inl EIO, dt) else (Inr (), dt))"
  using assms
  by (auto simp: felica_poller_read_def felica_poller_poll_def Let_def io_bind_def on_out_def on_tag_def io_check_def
      io_fail_def io_return_def split: prod.splits sum.splits)

text \<open>C34. Reading a FeliCa card ends after at most 29 exchanges, whatever the tag answers, one polling and one for each of the 28
  blocks of a Lite card.  The record stays within its arrays, and success means that all 28 blocks have an entry.\<close>

theorem felica_poller_read_bounded:
  assumes "felica_poller_read (counted hal) session (d0, (t, 0)) = (r, (d, (t', n)))" "felica_ok d0"
  shows "n \<le> 29 \<and> felica_ok d \<and> (r = Inr () \<longrightarrow> fl_blocks_total d = 28 \<and> fl_blocks_read d \<le> 28)"
proof (cases "felica_poller_session_valid session")
  case False
  with assms show ?thesis by (auto simp: felica_poller_read_def io_fail_def)
next
  case True
  let ?xc = "felica_xc (counted hal) session"
  obtain p tc where p: "felica_poller_polling ?xc felica_poll_any (t, 0) = (p, tc)" by (metis surj_pair)
  have tc: "snd tc \<le> 1" using spendsD [OF felica_polling_spends [of snd ?xc, OF felica_xc_spends] p] by simp
  show ?thesis
  proof (cases p)
    case (Inl e)
    with assms(1) p tc felica_reset_ok show ?thesis by (auto simp: felica_poller_read_eval [OF True])
  next
    case (Inr im)
    obtain idm pmm where im: "im = (idm, pmm)" by (cases im)
    let ?d = "felica_data_reset\<lparr>fl_idm := idm, fl_pmm := pmm\<rparr>"
    have "length idm = 8 \<and> length pmm = 8" using p Inr im
      by (auto simp: felica_poller_polling_def Let_def io_bind_def io_fail_def io_return_def length_sub_bytes
          split: if_splits prod.splits sum.splits)
    then have rd: "felica_reading ?d" by (simp add: felica_reading_def felica_ok_def felica_data_reset_def)
    obtain q d1 tc1 where q: "felica_poller_read_lite_blocks ?xc 0 (?d, tc) = (q, (d1, tc1))" by (metis surj_pair)
    from felica_lite_blocks_any_tag [OF felica_xc_spends rd q] tc
    have "felica_reading d1" "snd tc1 \<le> 29" "q = Inr () \<longrightarrow> fl_blocks_total d1 = 28" by (simp_all add: felica_data_reset_def)
    with assms(1) p q Inr im tc rd show ?thesis
      by (cases q) (auto simp: felica_poller_read_eval [OF True] Let_def felica_reading_def split: if_splits)
  qed
qed

section \<open>The emulated card\<close>

text \<open>What a reader sees of block \<open>i\<close>: the status flags are clear and the block RC reads as zeros.\<close>

definition felica_seen :: "felica_data \<Rightarrow> nat \<Rightarrow> felica_block" where
  "felica_seen m i = \<lparr>fb_sf1 = 0, fb_sf2 = 0, fb_data = (if i = 15 then replicate 16 0 else fb_data (fl_blocks m ! i))\<rparr>"

definition felica_part :: "felica_data \<Rightarrow> nat \<Rightarrow> felica_data" where
  "felica_part m k = \<lparr>fl_idm = fl_idm m, fl_pmm = fl_pmm m, fl_blocks_total = k, fl_blocks_read = k,
     fl_blocks = map (felica_seen m) [0..<k] @ replicate (64 - k) felica_blank\<rparr>"

abbreviation (input) felica_field :: "bytes \<Rightarrow> nat \<Rightarrow> (felica_listener, bytes) io" where
  "felica_field \<equiv> tag_loop felica_listener_on_tag_cmd"

lemma felica_exchange:
  assumes "felica_listener_on_tag_cmd (Some (felica_crc_append tx)) s = (s, [felica_crc_append rx])"
    "rs_active ses" "tx \<noteq> []" "length tx \<le> 254" "rx \<noteq> []"
  shows "felica_poller_frame_exchange (felica_xc felica_field (Some ses)) tx s = (Inr rx, s)"
  using assms by (simp add: felica_poller_frame_exchange_def felica_xc_def io_bind_def tag_loop_def io_return_def)

lemma felica_polls:
  assumes "rs_active ses" "fs_initialized s" "felica_ok (fs_model s)"
  shows "felica_poller_polling (felica_xc felica_field (Some ses)) cmd s = (Inr (fl_idm (fs_model s), fl_pmm (fs_model s)), s)"
proof -
  let ?m = "fs_model s"
  let ?tx = "[6, 0, ucast (fp_system_code cmd), ucast (drop_bit 8 (fp_system_code cmd)), fp_request_code cmd, fp_time_slot cmd] :: bytes"
  let ?rx = "18 # 1 # fl_idm ?m @ fl_pmm ?m"
  have l: "length (fl_idm ?m) = 8" "length (fl_pmm ?m) = 8" using assms(3) by (simp_all add: felica_ok_def)
  have "felica_listener_on_tag_cmd (Some (felica_crc_append ?tx)) s = (s, [felica_crc_append ?rx])"
    using assms(2) by (simp add: felica_listener_on_tag_cmd_def felica_listener_handle_poll_def lo8_def)
  from felica_exchange [OF this assms(1)] l show ?thesis
    by (simp add: felica_poller_polling_def Let_def io_bind_def lo8_def io_return_def sub_bytes_def)
qed

lemma felica_reads_block:
  assumes "rs_active ses" "fs_initialized s" "felica_ok (fs_model s)" "28 \<le> fl_blocks_total (fs_model s)" "i < 28"
  shows "felica_poller_read_blocks (felica_xc felica_field (Some ses)) (fl_idm (fs_model s)) [felica_wire i] 0x0B s =
    (Inr \<lparr>fr_length = 29, fr_response_code = 7, fr_idm = fl_idm (fs_model s), fr_sf1 = 0, fr_sf2 = 0, fr_block_count = 1,
      fr_data = fb_data (felica_seen (fs_model s) i)\<rparr>, s)"
proof -
  let ?m = "fs_model s" and ?w = "felica_wire i"
  let ?idm = "fl_idm ?m" and ?data = "fb_data (felica_seen ?m i)"
  let ?tx = "16 # 6 # ?idm @ [1, 0x0B, 0, 1, 0x80, ?w]"
  let ?rx = "29 # 7 # ?idm @ [0, 0, 1] @ ?data"
  have l: "length ?idm = 8" "length ?data = 16" using assms(3,5) by (auto simp: felica_ok_def felica_seen_def)
  have tx: "felica_poller_prepare_tx_buffer ?idm 6 0x0B [?w] = ?tx"
    using l by (simp add: felica_poller_prepare_tx_buffer_def Let_def lo8_def drop_bit_eq_div)
  have "felica_listener_handle_read ?m ?tx = [felica_crc_append ?rx]"
    using l assms(4,5) felica_wire_facts [OF assms(5)]
    by (simp add: felica_listener_handle_read_def Let_def sub_bytes_def nth_append nth_Cons' le16_def lo8_def felica_seen_def drop_bit_eq_div)
  then have "felica_listener_on_tag_cmd (Some (felica_crc_append ?tx)) s = (s, [felica_crc_append ?rx])"
    using assms(2) l by (simp add: felica_listener_on_tag_cmd_def)
  from felica_exchange [OF this assms(1)] l
  have "felica_poller_frame_exchange (felica_xc felica_field (Some ses)) ?tx s = (Inr ?rx, s)" by simp
  with tx l show ?thesis
    by (simp add: felica_poller_read_blocks_def io_bind_def io_return_def sub_bytes_def nth_append nth_Cons')
qed

lemma felica_keep_seen:
  assumes "k < 28" "fr_sf1 r = 0" "fr_sf2 r = 0" "fr_data r = fb_data (felica_seen m k)"
  shows "felica_poller_keep_block r (felica_part m k) = felica_part m (Suc k)"
proof -
  have "64 - k = Suc (63 - k)" using assms(1) by simp
  then show ?thesis using assms
    by (simp add: felica_poller_keep_block_def felica_part_def felica_seen_def list_update_append)
qed

lemma felica_reads_lite_blocks:
  assumes "rs_active ses" "fs_initialized s" "felica_ok (fs_model s)" "28 \<le> fl_blocks_total (fs_model s)" "k \<le> 28"
  shows "felica_poller_read_lite_blocks (felica_xc felica_field (Some ses)) (felica_wire k) (felica_part (fs_model s) k, s) =
    (Inr (), (felica_part (fs_model s) 28, s))"
  using assms(5)
proof (induction "28 - k" arbitrary: k)
  case 0
  then show ?case by (simp add: felica_poller_read_lite_blocks.simps felica_part_def)
next
  case (Suc n)
  then have k: "k < 28" by simp
  have "fl_idm (felica_part (fs_model s) k) = fl_idm (fs_model s)" "fl_blocks_total (felica_part (fs_model s) k) = k"
    by (simp_all add: felica_part_def)
  with felica_reads_block [OF assms(1-4) k] Suc.hyps(1) [of "Suc k"] Suc.hyps(2) k show ?case
    by (simp add: felica_poller_read_lite_blocks.simps [of _ _ "felica_part (fs_model s) k"] felica_keep_seen felica_wire_Suc)
qed

lemma felica_reads_emulated:
  assumes "rs_active ses" "fs_initialized s" "felica_ok (fs_model s)" "28 \<le> fl_blocks_total (fs_model s)"
    "felica_get_workflow_type (fl_pmm (fs_model s)) = FELICA_WORKFLOW_LITE"
  shows "felica_poller_read felica_field (Some ses) (d0, s) = (Inr (), (felica_part (fs_model s) 28, s))"
proof -
  have 0: "felica_data_reset\<lparr>fl_idm := fl_idm (fs_model s), fl_pmm := fl_pmm (fs_model s)\<rparr> = felica_part (fs_model s) 0"
    by (simp add: felica_data_reset_def felica_part_def)
  have "felica_poller_read_lite_blocks (felica_xc felica_field (Some ses)) 0 (felica_part (fs_model s) 0, s) =
      (Inr (), (felica_part (fs_model s) 28, s))"
    using felica_reads_lite_blocks [OF assms(1-4), of 0] by (simp add: felica_wires_def)
  moreover have "felica_poller_session_valid (Some ses)" using assms(1) by (simp add: felica_poller_session_valid_def)
  moreover have "fl_blocks_total (felica_part (fs_model s) 28) = 28" by (simp add: felica_part_def)
  ultimately show ?thesis
    using felica_polls [OF assms(1-3)] assms(5) 0 by (simp add: felica_poller_read_eval)
qed

lemma felica_part_card:
  assumes "felica_ok m" shows "felica_card (felica_part m 28)"
  using assms by (auto simp: felica_card_def felica_ok_def felica_part_def felica_seen_def)

lemma felica_part_part: "k \<le> 64 \<Longrightarrow> felica_part (felica_part m k) k = felica_part m k"
  by (auto simp: felica_part_def felica_seen_def nth_append)

text \<open>C29. A FeliCa Lite card can be cloned.  The reader in front of an emulated card with the 28 blocks reads its identity and all
  blocks, RC as zeros; the record can be stored; an emulated card loaded with the stored bytes holds exactly the record; and reading
  that card gives a record that compares equal.\<close>

theorem felica_clone:
  assumes "rs_active ses" "fs_initialized s" "felica_ok (fs_model s)" "28 \<le> fl_blocks_total (fs_model s)"
    "felica_get_workflow_type (fl_pmm (fs_model s)) = FELICA_WORKFLOW_LITE" "fs_initialized s0"
  shows "\<exists>d blob d'. felica_poller_read felica_field (Some ses) (d0, s) = (Inr (), (d, s)) \<and>
    fl_idm d = fl_idm (fs_model s) \<and> fl_pmm d = fl_pmm (fs_model s) \<and> take 28 (fl_blocks d) = map (felica_seen (fs_model s)) [0..<28] \<and>
    felica_serialize (Some d) (Some 525) = Inr blob \<and>
    felica_listener_deserialize (Some blob) s0 = (Inr (), s0\<lparr>fs_model := d\<rparr>) \<and>
    felica_poller_read felica_field (Some ses) (d1, s0\<lparr>fs_model := d\<rparr>) = (Inr (), (d', s0\<lparr>fs_model := d\<rparr>)) \<and>
    felica_compare (Some d) (Some d') = Inr ()"
proof -
  let ?d = "felica_part (fs_model s) 28"
  have card: "felica_card ?d" by (rule felica_part_card [OF assms(3)])
  then obtain blob where blob: "felica_serialize (Some ?d) (Some 525) = Inr blob" "felica_deserialize (Some blob) (fs_model s0) = (Inr (), ?d)"
    using felica_serialize_deserialize [of ?d 525 "fs_model s0"] by (auto simp: felica_part_def)
  have "felica_poller_read felica_field (Some ses) (d1, s0\<lparr>fs_model := ?d\<rparr>) = (Inr (), (?d, s0\<lparr>fs_model := ?d\<rparr>))"
    using felica_reads_emulated [of ses "s0\<lparr>fs_model := ?d\<rparr>" d1] assms(1,5,6) card felica_part_part [of 28 "fs_model s"]
    by (simp add: felica_card_def) (simp add: felica_part_def)
  moreover have "felica_compare (Some ?d) (Some ?d) = Inr ()" by (simp add: felica_compare_def list_all_iff)
  ultimately show ?thesis
    using felica_reads_emulated [OF assms(1-5)] blob assms(6)
    by (intro exI [of _ ?d] exI [of _ blob] exI [of _ ?d]) (simp add: felica_listener_deserialize_def, simp add: felica_part_def)
qed

definition sample_felica :: felica_listener where
  "sample_felica = \<lparr>fs_model = felica_data_reset\<lparr>fl_idm := [1, 2, 3, 4, 5, 6, 7, 8], fl_pmm := [0, 0xF1, 0, 0, 0, 0, 0, 1],
     fl_blocks_total := 28, fl_blocks_read := 28, fl_blocks := replicate 64 \<lparr>fb_sf1 = 0, fb_sf2 = 0, fb_data = replicate 16 7\<rparr>\<rparr>,
     fs_initialized = True\<rparr>"

lemma sample_felica_facts:
  "fs_initialized sample_felica" "felica_ok (fs_model sample_felica)" "28 \<le> fl_blocks_total (fs_model sample_felica)"
  "felica_get_workflow_type (fl_pmm (fs_model sample_felica)) = FELICA_WORKFLOW_LITE"
  by (simp_all add: sample_felica_def felica_ok_def felica_data_reset_def felica_get_workflow_type_def)

theorem felica_clone_witness:
  "\<exists>d blob d'. felica_poller_read felica_field (Some (nfc_reader_session_zero\<lparr>rs_active := True\<rparr>)) (felica_data_reset, sample_felica) =
     (Inr (), (d, sample_felica)) \<and> fl_idm d = [1, 2, 3, 4, 5, 6, 7, 8] \<and>
     felica_serialize (Some d) (Some 525) = Inr blob \<and>
     felica_listener_deserialize (Some blob) sample_felica = (Inr (), sample_felica\<lparr>fs_model := d\<rparr>) \<and>
     felica_compare (Some d) (Some d') = Inr ()"
proof -
  have "rs_active (nfc_reader_session_zero\<lparr>rs_active := True\<rparr>)" by simp
  moreover have "fl_idm (fs_model sample_felica) = [1, 2, 3, 4, 5, 6, 7, 8]" by (simp add: sample_felica_def)
  ultimately show ?thesis
    using felica_clone [OF _ sample_felica_facts sample_felica_facts(1), of "nfc_reader_session_zero\<lparr>rs_active := True\<rparr>" felica_data_reset]
    by metis
qed

theorem felica_poller_read_bounded_witness:
  "felica_poller_read (counted no_tag) (Some (nfc_reader_session_zero\<lparr>rs_active := True\<rparr>)) (felica_data_reset, ((), 0)) =
     (Inl ETIMEDOUT, (felica_data_reset, ((), 1))) \<and> (1 :: nat) \<le> 29"
proof -
  have "felica_poller_read (counted no_tag) (Some (nfc_reader_session_zero\<lparr>rs_active := True\<rparr>)) (felica_data_reset, ((), 0)) =
     (Inl ETIMEDOUT, (felica_data_reset, ((), 1)))"
    by (simp add: felica_poller_read_def felica_poller_session_valid_def felica_poller_poll_def felica_poller_polling_def
        felica_poller_frame_exchange_def felica_xc_def counted_def no_tag_def io_bind_def io_fail_def on_out_def on_tag_def Let_def)
  with felica_poller_read_bounded [OF this felica_reset_ok] show ?thesis by simp
qed

end
