(* ===== verification/Iso15693.thy ===== *)
theory Iso15693
  imports Apdu_Framing Reader_Session
begin

text \<open>
  ISO 15693-3 vicinity cards: the card with its persistent encoding (\<open>protocols/iso15693_3/iso15693_3.c\<close>), the emulated card
  (\<open>iso15693_3_listener.c\<close>), frames and response parsers (\<open>iso15693_3_poller_i.c\<close>) and the reader (\<open>iso15693_3_poller.c\<close>).
\<close>

section \<open>Card\<close>

abbreviation (input) ISO15693_FORMAT_VERSION :: u8 where "ISO15693_FORMAT_VERSION \<equiv> 0x01"
abbreviation (input) ISO15693_UID_SIZE :: nat where "ISO15693_UID_SIZE \<equiv> 8"
abbreviation (input) ISO15693_BLOCKS_MAX :: nat where "ISO15693_BLOCKS_MAX \<equiv> 128"
abbreviation (input) ISO15693_BLOCK_SIZE_MAX :: nat where "ISO15693_BLOCK_SIZE_MAX \<equiv> 4"

record iso15693_3_data =
  iv_uid :: bytes
  iv_dsfid :: u8
  iv_afi :: u8
  iv_ic_ref :: u8
  iv_lock_dsfid :: u8
  iv_lock_afi :: u8
  iv_block_count :: nat
  iv_block_size :: nat
  iv_block_data :: bytes
  iv_block_security :: bytes

definition iso15693_3_data_reset :: iso15693_3_data where
  "iso15693_3_data_reset = \<lparr>iv_uid = replicate ISO15693_UID_SIZE 0, iv_dsfid = 0, iv_afi = 0, iv_ic_ref = 0, iv_lock_dsfid = 0,
     iv_lock_afi = 0, iv_block_count = 0, iv_block_size = 0, iv_block_data = replicate (ISO15693_BLOCKS_MAX * ISO15693_BLOCK_SIZE_MAX) 0,
     iv_block_security = replicate ISO15693_BLOCKS_MAX 0\<rparr>"

definition iso15693_3_geometry_bad :: "nat \<Rightarrow> nat \<Rightarrow> bool" where
  "iso15693_3_geometry_bad block_count block_size \<longleftrightarrow>
     block_count = 0 \<or> ISO15693_BLOCKS_MAX < block_count \<or> block_size = 0 \<or> ISO15693_BLOCK_SIZE_MAX < block_size"

definition iso15693_3_serialize :: "iso15693_3_data option \<Rightarrow> nat option \<Rightarrow> bytes result" where
  "iso15693_3_serialize data out = (case (data, out) of
     (Some d, Some out_max) \<Rightarrow>
       if iso15693_3_geometry_bad (iv_block_count d) (iv_block_size d) then Inl EINVAL
       else
         let data_len = iv_block_count d * iv_block_size d in
         if out_max < 1 + ISO15693_UID_SIZE + 5 + 3 + data_len + iv_block_count d then Inl ENOSPC
         else Inr (ISO15693_FORMAT_VERSION # take ISO15693_UID_SIZE (iv_uid d)
           @ [iv_dsfid d, iv_afi d, iv_ic_ref d, iv_lock_dsfid d, iv_lock_afi d,
              lo8 (iv_block_count d), hi8 (iv_block_count d), lo8 (iv_block_size d)]
           @ take data_len (iv_block_data d) @ take (iv_block_count d) (iv_block_security d))
   | _ \<Rightarrow> Inl EINVAL)"

definition iso15693_3_deserialize :: "bytes option \<Rightarrow> iso15693_3_data \<Rightarrow> unit result \<times> iso15693_3_data" where
  "iso15693_3_deserialize inp d = (case inp of
     None \<Rightarrow> (Inl EINVAL, d)
   | Some i \<Rightarrow>
     let d = iso15693_3_data_reset in
     if length i < 1 + ISO15693_UID_SIZE + 5 + 3 then (Inl EBADMSG, d)
     else if i ! 0 \<noteq> ISO15693_FORMAT_VERSION then (Inl EBADMSG, d)
     else
       let d = d\<lparr>iv_uid := sub_bytes 1 ISO15693_UID_SIZE i, iv_dsfid := i ! 9, iv_afi := i ! 10, iv_ic_ref := i ! 11,
                 iv_lock_dsfid := i ! 12, iv_lock_afi := i ! 13, iv_block_size := unat (i ! 16)\<rparr>;
           block_count = unat (le16 (i ! 14) (i ! 15)) in
       if iso15693_3_geometry_bad block_count (iv_block_size d) then (Inl EBADMSG, d)
       else
         let data_len = block_count * iv_block_size d in
         if length i < 17 + data_len + block_count then (Inl EBADMSG, d)
         else (Inr (), d\<lparr>iv_block_count := block_count, iv_block_data := memcpy_at (iv_block_data d) 0 (sub_bytes 17 data_len i),
           iv_block_security := memcpy_at (iv_block_security d) 0 (sub_bytes (17 + data_len) block_count i)\<rparr>))"

definition iso15693_3_compare :: "iso15693_3_data option \<Rightarrow> iso15693_3_data option \<Rightarrow> unit result" where
  "iso15693_3_compare expected actual = (case (expected, actual) of
     (Some e, Some a) \<Rightarrow>
       if take ISO15693_UID_SIZE (iv_uid e) \<noteq> take ISO15693_UID_SIZE (iv_uid a) then Inl EBADMSG
       else if iv_dsfid e \<noteq> iv_dsfid a then Inl EBADMSG
       else if iv_afi e \<noteq> iv_afi a then Inl EBADMSG
       else if iv_ic_ref e \<noteq> iv_ic_ref a then Inl EBADMSG
       else if iv_block_count e \<noteq> iv_block_count a then Inl EBADMSG
       else if iv_block_size e \<noteq> iv_block_size a then Inl EBADMSG
       else if take (iv_block_count e * iv_block_size e) (iv_block_data e) \<noteq>
               take (iv_block_count e * iv_block_size e) (iv_block_data a) then Inl EBADMSG
       else if take (iv_block_count e) (iv_block_security e) \<noteq> take (iv_block_count e) (iv_block_security a) then Inl EBADMSG
       else Inr ()
   | _ \<Rightarrow> Inl EINVAL)"

section \<open>Frames and responses\<close>

abbreviation (input) ISO15693_CRC_SIZE :: nat where "ISO15693_CRC_SIZE \<equiv> 2"
abbreviation (input) ISO15693_BLOCKS_PER_QUERY :: nat where "ISO15693_BLOCKS_PER_QUERY \<equiv> 32"
abbreviation (input) ISO15693_SYSINFO_FLAG_DSFID :: u8 where "ISO15693_SYSINFO_FLAG_DSFID \<equiv> 0x01"
abbreviation (input) ISO15693_SYSINFO_FLAG_AFI :: u8 where "ISO15693_SYSINFO_FLAG_AFI \<equiv> 0x10"
abbreviation (input) ISO15693_SYSINFO_FLAG_MEMORY :: u8 where "ISO15693_SYSINFO_FLAG_MEMORY \<equiv> 0x40"
abbreviation (input) ISO15693_SYSINFO_FLAG_IC_REF :: u8 where "ISO15693_SYSINFO_FLAG_IC_REF \<equiv> 0x80"
abbreviation (input) ISO15693_ADDR_FLAG_ADDRESSED :: u8 where "ISO15693_ADDR_FLAG_ADDRESSED \<equiv> 0x20"
abbreviation (input) ISO15693_INV_FLAG_INVENTORY :: u8 where "ISO15693_INV_FLAG_INVENTORY \<equiv> 0x04"
abbreviation (input) ISO15693_RESP_FLAG_ERROR :: u8 where "ISO15693_RESP_FLAG_ERROR \<equiv> 0x01"
abbreviation (input) ISO15693_CMD_INVENTORY :: u8 where "ISO15693_CMD_INVENTORY \<equiv> 0x01"
abbreviation (input) ISO15693_CMD_READ :: u8 where "ISO15693_CMD_READ \<equiv> 0x20"
abbreviation (input) ISO15693_CMD_GET_SYS_INFO :: u8 where "ISO15693_CMD_GET_SYS_INFO \<equiv> 0x2B"
abbreviation (input) ISO15693_CMD_GET_BLOCKS_SEC :: u8 where "ISO15693_CMD_GET_BLOCKS_SEC \<equiv> 0x2C"
abbreviation (input) ISO15693_INV_FLAGS :: u8 where "ISO15693_INV_FLAGS \<equiv> 0x26"
abbreviation (input) ISO15693_CMD_FLAGS :: u8 where "ISO15693_CMD_FLAGS \<equiv> 0x02"
abbreviation (input) ISO15693_ADDR_FLAGS :: u8 where "ISO15693_ADDR_FLAGS \<equiv> 0x22"

definition iso15693_3_crc_shift :: "u16 \<Rightarrow> u16" where
  "iso15693_3_crc_shift crc = (if crc AND 1 \<noteq> 0 then drop_bit 1 crc XOR 0x8408 else drop_bit 1 crc)"

definition iso15693_3_crc16 :: "bytes \<Rightarrow> u16" where
  "iso15693_3_crc16 data = NOT (fold (\<lambda>b crc. (iso15693_3_crc_shift ^^ 8) (crc XOR ucast b)) data 0xFFFF)"

text \<open>The payload in a buffer of \<open>buf_len\<close> bytes with the checksum after it; \<open>None\<close> is the returned length 0.\<close>

definition iso15693_3_crc_append :: "nat \<Rightarrow> bytes \<Rightarrow> bytes option" where
  "iso15693_3_crc_append buf_len payload =
     (if buf_len < length payload \<or> buf_len < length payload + ISO15693_CRC_SIZE then None
      else let crc = iso15693_3_crc16 payload in Some (payload @ [ucast (crc AND 0xFF), ucast (drop_bit 8 crc AND 0xFF)]))"

definition iso15693_3_crc_check :: "bytes \<Rightarrow> bool" where
  "iso15693_3_crc_check buf =
     (if length buf \<le> ISO15693_CRC_SIZE then False
      else iso15693_3_crc16 (take (length buf - ISO15693_CRC_SIZE) buf) = le16 (buf ! (length buf - 2)) (buf ! (length buf - 1)))"

definition iso15693_3_crc_trim :: "bytes \<Rightarrow> bytes" where
  "iso15693_3_crc_trim buf = (if length buf \<le> ISO15693_CRC_SIZE then [] else take (length buf - ISO15693_CRC_SIZE) buf)"

definition iso15693_3_append_uid_reversed :: "bytes \<Rightarrow> bytes" where
  "iso15693_3_append_uid_reversed uid = map (\<lambda>i. uid ! (ISO15693_UID_SIZE - 1 - i)) [0..<ISO15693_UID_SIZE]"

text \<open>\<open>Some e\<close> is a response that reports an error, with the error to return.\<close>

definition iso15693_3_error_response_parse :: "bytes \<Rightarrow> errno option" where
  "iso15693_3_error_response_parse rx =
     (if length rx = 0 then None
      else if rx ! 0 AND ISO15693_RESP_FLAG_ERROR = 0 then None
      else if length rx < 2 then Some EIO
      else if rx ! 1 = 0x01 \<or> rx ! 1 = 0x02 then Some ENOTSUP
      else Some EIO)"

definition iso15693_3_inventory_response_parse :: "bytes \<Rightarrow> (bytes \<times> u8) result" where
  "iso15693_3_inventory_response_parse rx = (case iso15693_3_error_response_parse rx of
     Some e \<Rightarrow> Inl e
   | None \<Rightarrow>
     if length rx \<noteq> 2 + ISO15693_UID_SIZE then Inl EIO
     else Inr (map (\<lambda>i. rx ! (ISO15693_UID_SIZE + 1 - i)) [0..<ISO15693_UID_SIZE], rx ! 1))"

text \<open>A field of \<open>n\<close> bytes that the flags announce, at the offset reached; \<open>f\<close> stores it.\<close>

definition iso15693_3_info_field ::
  "bool \<Rightarrow> nat \<Rightarrow> (bytes \<Rightarrow> iso15693_3_data \<Rightarrow> iso15693_3_data) \<Rightarrow> bytes \<Rightarrow> (nat \<times> iso15693_3_data, unit) io" where
  "iso15693_3_info_field present n f rx od =
     (if \<not> present then (Inr (), od)
      else if length rx < fst od + n then (Inl EIO, od)
      else (Inr (), (fst od + n, f (sub_bytes (fst od) n rx) (snd od))))"

definition iso15693_3_system_info_response_parse :: "bytes \<Rightarrow> iso15693_3_data \<Rightarrow> unit result \<times> iso15693_3_data" where
  "iso15693_3_system_info_response_parse rx d = (case iso15693_3_error_response_parse rx of
     Some e \<Rightarrow> (Inl e, d)
   | None \<Rightarrow>
     if length rx < 2 then (Inl EIO, d)
     else
       let info_flags = rx ! 1 in
       case io_bind (iso15693_3_info_field (info_flags AND ISO15693_SYSINFO_FLAG_DSFID \<noteq> 0) 1 (\<lambda>b d. d\<lparr>iv_dsfid := b ! 0\<rparr>) rx) (\<lambda>_.
         io_bind (iso15693_3_info_field (info_flags AND ISO15693_SYSINFO_FLAG_AFI \<noteq> 0) 1 (\<lambda>b d. d\<lparr>iv_afi := b ! 0\<rparr>) rx) (\<lambda>_.
         io_bind (iso15693_3_info_field (info_flags AND ISO15693_SYSINFO_FLAG_MEMORY \<noteq> 0) 2
           (\<lambda>b d. d\<lparr>iv_block_count := unat (b ! 0) + 1, iv_block_size := unat ((b ! 1 AND 0x1F) + 1)\<rparr>) rx) (\<lambda>_.
         io_bind (iso15693_3_info_field (info_flags AND ISO15693_SYSINFO_FLAG_IC_REF \<noteq> 0) 1 (\<lambda>b d. d\<lparr>iv_ic_ref := b ! 0\<rparr>) rx) (\<lambda>_ od.
           if fst od \<noteq> length rx then (Inl EIO, od)
           else if iso15693_3_geometry_bad (iv_block_count (snd od)) (iv_block_size (snd od)) then (Inl EIO, od)
           else (Inr (), od))))) (2, d) of (r, od) \<Rightarrow> (r, snd od))"

definition iso15693_3_read_block_response_parse :: "bytes \<Rightarrow> nat \<Rightarrow> bytes result" where
  "iso15693_3_read_block_response_parse rx block_size = (case iso15693_3_error_response_parse rx of
     Some e \<Rightarrow> Inl e
   | None \<Rightarrow>
     if length rx \<le> 1 then Inl EIO
     else if length rx - 1 \<noteq> block_size then Inl EIO
     else Inr (sub_bytes 1 block_size rx))"

definition iso15693_3_get_block_security_response_parse :: "bytes \<Rightarrow> nat \<Rightarrow> bytes result" where
  "iso15693_3_get_block_security_response_parse rx block_count = (case iso15693_3_error_response_parse rx of
     Some e \<Rightarrow> Inl e
   | None \<Rightarrow>
     if length rx \<le> 1 then Inl EIO
     else if length rx - 1 \<noteq> block_count then Inl EIO
     else Inr (sub_bytes 1 block_count rx))"

definition iso15693_3_optional_step_ok :: "'a result \<Rightarrow> bool" where
  "iso15693_3_optional_step_ok ret \<longleftrightarrow> (case ret of Inr _ \<Rightarrow> True | Inl e \<Rightarrow> e = ENOTSUP \<or> e = ETIMEDOUT)"

section \<open>The emulated card\<close>

abbreviation (input) ISO15693_LISTENER_BUF_SIZE :: nat where "ISO15693_LISTENER_BUF_SIZE \<equiv> 256"

record iso15693_3_listener =
  il_model :: iso15693_3_data
  il_initialized :: bool

definition iso15693_3_listener_send :: "bytes \<Rightarrow> bytes list" where
  "iso15693_3_listener_send payload =
     (if ISO15693_LISTENER_BUF_SIZE - ISO15693_CRC_SIZE < length payload then []
      else case iso15693_3_crc_append ISO15693_LISTENER_BUF_SIZE payload of None \<Rightarrow> [] | Some frame \<Rightarrow> [frame])"

definition iso15693_3_listener_sysinfo_flags :: u8 where
  "iso15693_3_listener_sysinfo_flags =
     0 OR ISO15693_SYSINFO_FLAG_DSFID OR ISO15693_SYSINFO_FLAG_AFI OR ISO15693_SYSINFO_FLAG_MEMORY OR ISO15693_SYSINFO_FLAG_IC_REF"

definition iso15693_3_listener_handle_inventory :: "iso15693_3_data \<Rightarrow> bytes list" where
  "iso15693_3_listener_handle_inventory m =
     iso15693_3_listener_send (0 # iv_dsfid m # iso15693_3_append_uid_reversed (iv_uid m))"

definition iso15693_3_listener_handle_get_sys_info :: "iso15693_3_data \<Rightarrow> bytes list" where
  "iso15693_3_listener_handle_get_sys_info m =
     iso15693_3_listener_send [0, iso15693_3_listener_sysinfo_flags, iv_dsfid m, iv_afi m, of_nat (iv_block_count m) - 1,
       (of_nat (iv_block_size m) - 1) AND 0x1F, iv_ic_ref m]"

definition iso15693_3_listener_handle_read_block :: "iso15693_3_data \<Rightarrow> u8 \<Rightarrow> bytes list" where
  "iso15693_3_listener_handle_read_block m block_num =
     (if iv_block_count m \<le> unat block_num then iso15693_3_listener_send [ISO15693_RESP_FLAG_ERROR, 0x10]
      else iso15693_3_listener_send (0 # sub_bytes (unat block_num * iv_block_size m) (iv_block_size m) (iv_block_data m)))"

definition iso15693_3_listener_handle_get_blocks_security :: "iso15693_3_data \<Rightarrow> u8 \<Rightarrow> u8 \<Rightarrow> bytes list" where
  "iso15693_3_listener_handle_get_blocks_security m first_b last_b =
     (if iv_block_count m \<le> unat first_b \<or> iv_block_count m \<le> unat last_b \<or> last_b < first_b
      then iso15693_3_listener_send [ISO15693_RESP_FLAG_ERROR, 0x10]
      else iso15693_3_listener_send (0 # map (\<lambda>block. iv_block_security m ! block) [unat first_b..<unat last_b + 1]))"

definition iso15693_3_listener_uid_matches :: "iso15693_3_data \<Rightarrow> bytes \<Rightarrow> bool" where
  "iso15693_3_listener_uid_matches m rx_uid \<longleftrightarrow> take ISO15693_UID_SIZE rx_uid = iso15693_3_append_uid_reversed (iv_uid m)"

text \<open>The commands after the frame is checked: \<open>data\<close> is what follows the command and, when addressed, the identity.\<close>

definition iso15693_3_listener_command :: "iso15693_3_data \<Rightarrow> u8 \<Rightarrow> bytes \<Rightarrow> bytes list" where
  "iso15693_3_listener_command m command data =
     (if command = ISO15693_CMD_INVENTORY then iso15693_3_listener_handle_inventory m
      else if command = ISO15693_CMD_GET_SYS_INFO then (if length data = 0 then iso15693_3_listener_handle_get_sys_info m else [])
      else if command = ISO15693_CMD_READ then (if 1 \<le> length data then iso15693_3_listener_handle_read_block m (data ! 0) else [])
      else if command = ISO15693_CMD_GET_BLOCKS_SEC then
        (if 2 \<le> length data then iso15693_3_listener_handle_get_blocks_security m (data ! 0) (data ! 1) else [])
      else [])"

definition iso15693_3_listener_on_tag_cmd :: "bytes option \<Rightarrow> iso15693_3_listener \<Rightarrow> iso15693_3_listener \<times> bytes list" where
  "iso15693_3_listener_on_tag_cmd tx s = (case tx of
     None \<Rightarrow> (s, [])
   | Some tx \<Rightarrow>
     if \<not> il_initialized s \<or> length tx < 1 + ISO15693_CRC_SIZE then (s, [])
     else if \<not> iso15693_3_crc_check tx then (s, [])
     else if ISO15693_LISTENER_BUF_SIZE < length tx then (s, [])
     else
       let frame = iso15693_3_crc_trim tx in
       if length frame < 2 then (s, [])
       else
         let flags = frame ! 0; command = frame ! 1; data = drop 2 frame in
         if flags AND ISO15693_INV_FLAG_INVENTORY = 0 \<and> flags AND ISO15693_ADDR_FLAG_ADDRESSED \<noteq> 0 then
           if length data < ISO15693_UID_SIZE then (s, [])
           else if \<not> iso15693_3_listener_uid_matches (il_model s) data then (s, [])
           else (s, iso15693_3_listener_command (il_model s) command (drop ISO15693_UID_SIZE data))
         else (s, iso15693_3_listener_command (il_model s) command data))"

definition iso15693_3_listener_serialize :: "nat option \<Rightarrow> iso15693_3_listener \<Rightarrow> bytes result" where
  "iso15693_3_listener_serialize out s = (if \<not> il_initialized s then Inl ENODEV else iso15693_3_serialize (Some (il_model s)) out)"

definition iso15693_3_listener_deserialize :: "bytes option \<Rightarrow> iso15693_3_listener \<Rightarrow> unit result \<times> iso15693_3_listener" where
  "iso15693_3_listener_deserialize inp s =
     (if \<not> il_initialized s then (Inl ENODEV, s)
      else case iso15693_3_deserialize inp (il_model s) of (r, m) \<Rightarrow> (r, s\<lparr>il_model := m\<rparr>))"

definition iso15693_3_listener_init :: "iso15693_3_data option \<Rightarrow> iso15693_3_listener \<Rightarrow> unit result \<times> iso15693_3_listener" where
  "iso15693_3_listener_init model s =
     (Inr (), s\<lparr>il_model := (case model of Some m \<Rightarrow> m | None \<Rightarrow> iso15693_3_data_reset), il_initialized := True\<rparr>)"

definition iso15693_3_listener_shutdown :: "iso15693_3_listener \<Rightarrow> unit result \<times> iso15693_3_listener" where
  "iso15693_3_listener_shutdown s = (Inr (), s\<lparr>il_model := iso15693_3_data_reset, il_initialized := False\<rparr>)"

definition iso15693_3_listener_model :: "iso15693_3_listener \<Rightarrow> iso15693_3_data option" where
  "iso15693_3_listener_model s = (if il_initialized s then Some (il_model s) else None)"

section \<open>The reader\<close>

text \<open>\<open>xc\<close> is \<open>nfc_reader_session_transceive\<close> with the session and the size of the receive buffer applied.\<close>

abbreviation (input) ISO15693_TX_MAX :: nat where "ISO15693_TX_MAX \<equiv> 32"

definition iso15693_3_poller_session_valid :: "nfc_reader_session option \<Rightarrow> bool" where
  "iso15693_3_poller_session_valid session \<longleftrightarrow> (case session of None \<Rightarrow> False | Some s \<Rightarrow> rs_active s)"

definition iso15693_3_poller_send_frame :: "(bytes \<Rightarrow> ('t, bytes) io) \<Rightarrow> bytes \<Rightarrow> ('t, bytes) io" where
  "iso15693_3_poller_send_frame xc tx = (case iso15693_3_crc_append ISO15693_TX_MAX tx of
     None \<Rightarrow> io_fail EINVAL
   | Some frame \<Rightarrow> io_bind (xc frame) (\<lambda>rx. if \<not> iso15693_3_crc_check rx then io_fail EIO else io_return (iso15693_3_crc_trim rx)))"

definition iso15693_3_poller_inventory :: "(bytes \<Rightarrow> ('t, bytes) io) \<Rightarrow> (iso15693_3_data \<times> 't, unit) io" where
  "iso15693_3_poller_inventory xc =
     io_bind (on_tag (iso15693_3_poller_send_frame xc [ISO15693_INV_FLAGS, ISO15693_CMD_INVENTORY])) (\<lambda>rx.
       case iso15693_3_inventory_response_parse rx of
         Inl e \<Rightarrow> io_fail e
       | Inr (uid, dsfid) \<Rightarrow> on_out (\<lambda>d. d\<lparr>iv_dsfid := dsfid, iv_uid := uid\<rparr>))"

definition iso15693_3_poller_get_system_info :: "(bytes \<Rightarrow> ('t, bytes) io) \<Rightarrow> (iso15693_3_data \<times> 't, unit) io" where
  "iso15693_3_poller_get_system_info xc =
     io_bind (on_tag (iso15693_3_poller_send_frame xc [ISO15693_CMD_FLAGS, ISO15693_CMD_GET_SYS_INFO])) (\<lambda>rx (d, t).
       case iso15693_3_system_info_response_parse rx d of (r, d') \<Rightarrow> (r, (d', t)))"

definition iso15693_3_poller_read_block :: "(bytes \<Rightarrow> ('t, bytes) io) \<Rightarrow> u8 \<Rightarrow> nat \<Rightarrow> ('t, bytes) io" where
  "iso15693_3_poller_read_block xc block_num block_size =
     io_bind (iso15693_3_poller_send_frame xc [ISO15693_CMD_FLAGS, ISO15693_CMD_READ, block_num]) (\<lambda>rx.
       case iso15693_3_read_block_response_parse rx block_size of Inl e \<Rightarrow> io_fail e | Inr b \<Rightarrow> io_return b)"

function iso15693_3_security_from :: "(bytes \<Rightarrow> ('t, bytes) io) \<Rightarrow> nat \<Rightarrow> nat \<Rightarrow> (iso15693_3_data \<times> 't, unit) io" where
  "iso15693_3_security_from xc block_count start =
     (if \<not> start < block_count then io_return ()
      else
        let remaining = block_count - start;
            batch = (if ISO15693_BLOCKS_PER_QUERY < remaining then ISO15693_BLOCKS_PER_QUERY else remaining) in
        io_bind (on_tag (iso15693_3_poller_send_frame xc
          [ISO15693_CMD_FLAGS, ISO15693_CMD_GET_BLOCKS_SEC, of_nat start, of_nat batch - 1])) (\<lambda>rx.
        case iso15693_3_get_block_security_response_parse rx batch of
          Inl e \<Rightarrow> io_fail e
        | Inr b \<Rightarrow>
            io_bind (on_out (\<lambda>d. d\<lparr>iv_block_security := memcpy_at (iv_block_security d) start b\<rparr>)) (\<lambda>_.
            iso15693_3_security_from xc block_count (start + ISO15693_BLOCKS_PER_QUERY))))"
  by pat_completeness auto
termination
  by (relation "measure (\<lambda>(xc, n, k). n - k)") auto

declare iso15693_3_security_from.simps [simp del]

definition iso15693_3_poller_get_blocks_security :: "(bytes \<Rightarrow> ('t, bytes) io) \<Rightarrow> (iso15693_3_data \<times> 't, unit) io" where
  "iso15693_3_poller_get_blocks_security xc dt =
     (if iv_block_count (fst dt) = 0 \<or> ISO15693_BLOCKS_MAX < iv_block_count (fst dt) then (Inl EINVAL, dt)
      else iso15693_3_security_from xc (iv_block_count (fst dt)) 0 dt)"

text \<open>The blocks \<open>bs\<close> still to read; an optional failure ends the loop.\<close>

fun iso15693_3_read_blocks :: "(bytes \<Rightarrow> ('t, bytes) io) \<Rightarrow> nat \<Rightarrow> nat list \<Rightarrow> (iso15693_3_data \<times> 't, unit) io" where
  "iso15693_3_read_blocks xc block_size [] = io_return ()"
| "iso15693_3_read_blocks xc block_size (block # bs) =
     io_case (on_tag (iso15693_3_poller_read_block xc (of_nat block) block_size))
       (\<lambda>e. if \<not> iso15693_3_optional_step_ok (Inl e :: unit result) then io_fail e else io_return ())
       (\<lambda>b. io_bind (on_out (\<lambda>d. d\<lparr>iv_block_data := memcpy_at (iv_block_data d) (block * block_size) b\<rparr>)) (\<lambda>_.
          iso15693_3_read_blocks xc block_size bs))"

definition iso15693_3_xc ::
  "(bytes \<Rightarrow> nat \<Rightarrow> ('t, bytes) io) \<Rightarrow> nfc_reader_session option \<Rightarrow> bytes \<Rightarrow> ('t, bytes) io" where
  "iso15693_3_xc hal session tx = nfc_reader_session_transceive hal session tx NFC_TRANSPORT_MAX_RESPONSE_LEN"

definition iso15693_3_poller_detect ::
  "(bytes \<Rightarrow> nat \<Rightarrow> ('t, bytes) io) \<Rightarrow> nfc_reader_session option \<Rightarrow> ('t, unit) io" where
  "iso15693_3_poller_detect hal session t =
     (if \<not> iso15693_3_poller_session_valid session then (Inl EINVAL, t)
      else case iso15693_3_poller_inventory (iso15693_3_xc hal session) (iso15693_3_data_reset, t) of
        (Inl _, (_, t)) \<Rightarrow> (Inl ENOTSUP, t) | (Inr _, (_, t)) \<Rightarrow> (Inr (), t))"

text \<open>\<open>if (!iso15693_3_optional_step_ok (ret)) return ret;\<close>.\<close>

definition iso15693_3_optional :: "('s, unit) io \<Rightarrow> ('s, unit) io" where
  "iso15693_3_optional m =
     io_case m (\<lambda>e. if \<not> iso15693_3_optional_step_ok (Inl e :: unit result) then io_fail e else io_return ()) io_return"

definition iso15693_3_read_memory :: "(bytes \<Rightarrow> ('t, bytes) io) \<Rightarrow> (iso15693_3_data \<times> 't, unit) io" where
  "iso15693_3_read_memory xc dt =
     (if iv_block_count (fst dt) = 0 \<or> iv_block_size (fst dt) = 0 then (Inr (), dt)
      else io_bind (iso15693_3_read_blocks xc (iv_block_size (fst dt)) [0..<iv_block_count (fst dt)]) (\<lambda>_.
        iso15693_3_optional (iso15693_3_poller_get_blocks_security xc)) dt)"

definition iso15693_3_poller_read ::
  "(bytes \<Rightarrow> nat \<Rightarrow> ('t, bytes) io) \<Rightarrow> nfc_reader_session option \<Rightarrow> (iso15693_3_data \<times> 't, unit) io" where
  "iso15693_3_poller_read hal session =
     (if \<not> iso15693_3_poller_session_valid session then io_fail EINVAL
      else let xc = iso15693_3_xc hal session in
        io_bind (on_out (\<lambda>_. iso15693_3_data_reset)) (\<lambda>_.
        io_bind (iso15693_3_poller_inventory xc) (\<lambda>_.
        io_bind (iso15693_3_optional (iso15693_3_poller_get_system_info xc)) (\<lambda>_. iso15693_3_read_memory xc))))"

end
