(* ===== verification/Slix.thy ===== *)
theory Slix
  imports Iso15693
begin

text \<open>
  NXP SLIX, ISO 15693-3 with passwords and a signature: the card with its persistent encoding (\<open>protocols/slix/slix.c\<close>), the
  emulated card (\<open>slix_listener.c\<close>) and the reader (\<open>slix_poller.c\<close>, \<open>slix_poller_i.c\<close>).  The emulated card hands the parent's
  commands to the ISO 15693-3 listener, whose state is a part of its own here.
\<close>

section \<open>Card\<close>

abbreviation (input) SLIX_EXT_MAGIC_0 :: u8 where "SLIX_EXT_MAGIC_0 \<equiv> 0x53"
abbreviation (input) SLIX_EXT_MAGIC_1 :: u8 where "SLIX_EXT_MAGIC_1 \<equiv> 0x4C"
abbreviation (input) SLIX_EXT_VERSION :: u8 where "SLIX_EXT_VERSION \<equiv> 0x01"
abbreviation (input) SLIX_PASSWORD_COUNT :: nat where "SLIX_PASSWORD_COUNT \<equiv> 5"
abbreviation (input) SLIX_PASSWORD_SIZE :: nat where "SLIX_PASSWORD_SIZE \<equiv> 4"
abbreviation (input) SLIX_SIGNATURE_SIZE :: nat where "SLIX_SIGNATURE_SIZE \<equiv> 32"
abbreviation (input) SLIX_NXP_MFG_CODE :: u8 where "SLIX_NXP_MFG_CODE \<equiv> 0x04"
abbreviation (input) SLIX_EXT_TAIL_SIZE :: nat where
  "SLIX_EXT_TAIL_SIZE \<equiv> 2 + 1 + 1 + SLIX_PASSWORD_COUNT * SLIX_PASSWORD_SIZE + SLIX_SIGNATURE_SIZE + 5"

text \<open>\<open>slix_capabilities_t\<close> holds whatever byte was loaded; three values have names.\<close>

abbreviation (input) SLIX_CAP_DEFAULT :: u8 where "SLIX_CAP_DEFAULT \<equiv> 0"
abbreviation (input) SLIX_CAP_ACCEPT_ALL :: u8 where "SLIX_CAP_ACCEPT_ALL \<equiv> 1"
abbreviation (input) SLIX_CAP_MISSED :: u8 where "SLIX_CAP_MISSED \<equiv> 2"

datatype slix_type = SLIX_TYPE_UNKNOWN | SLIX_TYPE_SLIX | SLIX_TYPE_SLIX_S | SLIX_TYPE_SLIX_L | SLIX_TYPE_SLIX2

record slix_data =
  sx_parent :: iso15693_3_data
  sx_capabilities :: u8
  sx_type :: slix_type
  sx_passwords :: "bytes list"
  sx_signature :: bytes
  sx_privacy_mode :: u8
  sx_protection_pointer :: u8
  sx_protection_condition :: u8
  sx_lock_eas :: u8
  sx_lock_ppl :: u8

definition slix_data_reset :: slix_data where
  "slix_data_reset = \<lparr>sx_parent = iso15693_3_data_reset, sx_capabilities = 0, sx_type = SLIX_TYPE_UNKNOWN,
     sx_passwords = replicate SLIX_PASSWORD_COUNT (replicate SLIX_PASSWORD_SIZE 0), sx_signature = replicate SLIX_SIGNATURE_SIZE 0,
     sx_privacy_mode = 0, sx_protection_pointer = 0, sx_protection_condition = 0, sx_lock_eas = 0, sx_lock_ppl = 0\<rparr>"

definition slix_type_from_uid :: "bytes \<Rightarrow> slix_type" where
  "slix_type_from_uid uid =
     (if uid ! 0 \<noteq> 0xE0 \<or> uid ! 1 \<noteq> SLIX_NXP_MFG_CODE then SLIX_TYPE_UNKNOWN
      else if uid ! 2 = 0x01 then SLIX_TYPE_SLIX
      else if uid ! 2 = 0x02 then SLIX_TYPE_SLIX_S
      else if uid ! 2 = 0x03 then SLIX_TYPE_SLIX_L
      else if uid ! 2 = 0x04 then SLIX_TYPE_SLIX2
      else SLIX_TYPE_SLIX)"

definition slix_serialize :: "slix_data option \<Rightarrow> nat option \<Rightarrow> bytes result" where
  "slix_serialize data out = (case (data, out) of
     (Some d, Some out_max) \<Rightarrow>
       (case iso15693_3_serialize (Some (sx_parent d)) (Some out_max) of
          Inl e \<Rightarrow> Inl e
        | Inr parent \<Rightarrow>
            if out_max - length parent < SLIX_EXT_TAIL_SIZE then Inl ENOSPC
            else Inr (parent @ [SLIX_EXT_MAGIC_0, SLIX_EXT_MAGIC_1, SLIX_EXT_VERSION, sx_capabilities d]
              @ concat (map (take SLIX_PASSWORD_SIZE) (take SLIX_PASSWORD_COUNT (sx_passwords d)))
              @ take SLIX_SIGNATURE_SIZE (sx_signature d)
              @ [sx_privacy_mode d, sx_protection_pointer d, sx_protection_condition d, sx_lock_eas d, sx_lock_ppl d]))
   | _ \<Rightarrow> Inl EINVAL)"

definition slix_deserialize :: "bytes option \<Rightarrow> slix_data \<Rightarrow> unit result \<times> slix_data" where
  "slix_deserialize inp d = (case inp of
     None \<Rightarrow> (Inl EINVAL, d)
   | Some i \<Rightarrow>
     let d = slix_data_reset in
     case iso15693_3_deserialize (Some i) (sx_parent d) of
       (Inl e, p) \<Rightarrow> (Inl e, d\<lparr>sx_parent := p\<rparr>)
     | (Inr _, p) \<Rightarrow>
       let d = d\<lparr>sx_parent := p\<rparr> in
       if length i < 1 + ISO15693_UID_SIZE + 5 + 3 then (Inl EBADMSG, d)
       else
         let offset = 1 + ISO15693_UID_SIZE + 5 + 3 + iv_block_count p * iv_block_size p + iv_block_count p in
         if length i < offset + SLIX_EXT_TAIL_SIZE then (Inl EBADMSG, d)
         else if i ! offset \<noteq> SLIX_EXT_MAGIC_0 \<or> i ! (offset + 1) \<noteq> SLIX_EXT_MAGIC_1 then (Inl EBADMSG, d)
         else if i ! (offset + 2) \<noteq> SLIX_EXT_VERSION then (Inl EBADMSG, d)
         else (Inr (), d\<lparr>sx_capabilities := i ! (offset + 3), sx_type := slix_type_from_uid (iv_uid p),
           sx_passwords := map (\<lambda>k. sub_bytes (offset + 4 + k * SLIX_PASSWORD_SIZE) SLIX_PASSWORD_SIZE i) [0..<SLIX_PASSWORD_COUNT],
           sx_signature := sub_bytes (offset + 24) SLIX_SIGNATURE_SIZE i, sx_privacy_mode := i ! (offset + 56),
           sx_protection_pointer := i ! (offset + 57), sx_protection_condition := i ! (offset + 58),
           sx_lock_eas := i ! (offset + 59), sx_lock_ppl := i ! (offset + 60)\<rparr>))"

definition slix_compare :: "slix_data option \<Rightarrow> slix_data option \<Rightarrow> unit result" where
  "slix_compare expected actual = (case (expected, actual) of
     (Some e, Some a) \<Rightarrow>
       (case iso15693_3_compare (Some (sx_parent e)) (Some (sx_parent a)) of
          Inl r \<Rightarrow> Inl r
        | Inr _ \<Rightarrow>
            if sx_capabilities e \<noteq> sx_capabilities a then Inl EBADMSG
            else if sx_type e \<noteq> sx_type a then Inl EBADMSG
            else if sx_passwords e \<noteq> sx_passwords a then Inl EBADMSG
            else if take SLIX_SIGNATURE_SIZE (sx_signature e) \<noteq> take SLIX_SIGNATURE_SIZE (sx_signature a) then Inl EBADMSG
            else if sx_privacy_mode e \<noteq> sx_privacy_mode a then Inl EBADMSG
            else if sx_protection_pointer e \<noteq> sx_protection_pointer a then Inl EBADMSG
            else if sx_protection_condition e \<noteq> sx_protection_condition a then Inl EBADMSG
            else if sx_lock_eas e \<noteq> sx_lock_eas a then Inl EBADMSG
            else if sx_lock_ppl e \<noteq> sx_lock_ppl a then Inl EBADMSG
            else Inr ())
   | _ \<Rightarrow> Inl EINVAL)"

section \<open>The emulated card\<close>

abbreviation (input) SLIX_LISTENER_BUF_SIZE :: nat where "SLIX_LISTENER_BUF_SIZE \<equiv> 256"
abbreviation (input) SLIX_CMD_GET_NXP_SYSINFO :: u8 where "SLIX_CMD_GET_NXP_SYSINFO \<equiv> 0xAB"
abbreviation (input) SLIX_CMD_READ_SIGNATURE :: u8 where "SLIX_CMD_READ_SIGNATURE \<equiv> 0xBD"
abbreviation (input) SLIX_CMD_GET_RANDOM :: u8 where "SLIX_CMD_GET_RANDOM \<equiv> 0xB2"
abbreviation (input) SLIX_CMD_SET_PASSWORD :: u8 where "SLIX_CMD_SET_PASSWORD \<equiv> 0xB3"
abbreviation (input) SLIX_CMD_CUSTOM_START :: u8 where "SLIX_CMD_CUSTOM_START \<equiv> 0xA0"
abbreviation (input) SLIX_PASSWORD_PRIVACY :: nat where "SLIX_PASSWORD_PRIVACY \<equiv> 2"

record slix_listener =
  sl_model :: slix_data
  sl_initialized :: bool
  sl_password_match :: "bool list"
  sl_random :: u16
  sl_parent :: iso15693_3_listener

definition slix_listener_send :: "bytes \<Rightarrow> bytes list" where
  "slix_listener_send payload =
     (if SLIX_LISTENER_BUF_SIZE - ISO15693_CRC_SIZE < length payload then []
      else case iso15693_3_crc_append SLIX_LISTENER_BUF_SIZE payload of None \<Rightarrow> [] | Some frame \<Rightarrow> [frame])"

definition slix_listener_read_be32 :: "bytes \<Rightarrow> u32" where
  "slix_listener_read_be32 b =
     push_bit 24 (ucast (b ! 0)) OR push_bit 16 (ucast (b ! 1)) OR push_bit 8 (ucast (b ! 2)) OR ucast (b ! 3)"

text \<open>The first \<open>i\<close> with bit \<open>i\<close> alone set in the identifier, \<open>SLIX_PASSWORD_COUNT\<close> when there is none.\<close>

definition slix_listener_password_type_from_id :: "u8 \<Rightarrow> nat" where
  "slix_listener_password_type_from_id pid =
     (case filter (\<lambda>i. pid = push_bit i 1) [0..<SLIX_PASSWORD_COUNT] of [] \<Rightarrow> SLIX_PASSWORD_COUNT | i # _ \<Rightarrow> i)"

definition slix_listener_unxor_password :: "u32 \<Rightarrow> u16 \<Rightarrow> u32" where
  "slix_listener_unxor_password password_xored random =
     (let rn_l = ucast (drop_bit 8 random) :: u8; rn_h = ucast (random AND 0xFF) :: u8 in
      password_xored XOR (push_bit 24 (ucast rn_h) OR push_bit 16 (ucast rn_l) OR push_bit 8 (ucast rn_h) OR ucast rn_l))"

definition slix_listener_check_password :: "nat \<Rightarrow> u32 \<Rightarrow> slix_listener \<Rightarrow> bool \<times> slix_listener" where
  "slix_listener_check_password ty password s =
     (if SLIX_PASSWORD_COUNT \<le> ty then (False, s)
      else if sx_capabilities (sl_model s) = SLIX_CAP_ACCEPT_ALL then (True, s\<lparr>sl_password_match := (sl_password_match s)[ty := True]\<rparr>)
      else
        let pw = [ucast (drop_bit 24 password AND 0xFF), ucast (drop_bit 16 password AND 0xFF),
                  ucast (drop_bit 8 password AND 0xFF), ucast (password AND 0xFF)] in
        if pw = sx_passwords (sl_model s) ! ty then (True, s\<lparr>sl_password_match := (sl_password_match s)[ty := True]\<rparr>)
        else (False, s))"

definition slix_listener_is_slix_custom :: "u8 \<Rightarrow> bool" where
  "slix_listener_is_slix_custom command \<longleftrightarrow> SLIX_CMD_CUSTOM_START \<le> command \<and> command < 0xC0"

definition slix_listener_handle_get_nxp_sysinfo :: "slix_data \<Rightarrow> bytes list" where
  "slix_listener_handle_get_nxp_sysinfo m =
     (let lock_bits = (if iv_lock_dsfid (sx_parent m) \<noteq> 0 then 0x01 else 0) OR (if iv_lock_afi (sx_parent m) \<noteq> 0 then 0x02 else 0)
            OR (if sx_lock_eas m \<noteq> 0 then 0x04 else 0) OR (if sx_lock_ppl m \<noteq> 0 then 0x08 else 0) in
      slix_listener_send [0, sx_protection_pointer m, sx_protection_condition m, lock_bits, 2, 0, 0, 0])"

definition slix_listener_handle_read_signature :: "slix_data \<Rightarrow> bytes list" where
  "slix_listener_handle_read_signature m = slix_listener_send (0 # take SLIX_SIGNATURE_SIZE (sx_signature m))"

definition slix_listener_handle_get_random :: "slix_listener \<Rightarrow> slix_listener \<times> bytes list" where
  "slix_listener_handle_get_random s =
     (let random = 0x1234 + ucast (iv_uid (sx_parent (sl_model s)) ! 7) in
      (s\<lparr>sl_random := random\<rparr>, slix_listener_send [0, ucast (random AND 0xFF), ucast (drop_bit 8 random AND 0xFF)]))"

definition slix_listener_handle_set_password :: "bytes \<Rightarrow> slix_listener \<Rightarrow> slix_listener \<times> bytes list" where
  "slix_listener_handle_set_password data s =
     (if length data < 1 + SLIX_PASSWORD_SIZE then (s, [])
      else
        let ty = slix_listener_password_type_from_id (data ! 0);
            password = slix_listener_unxor_password (slix_listener_read_be32 (drop 1 data)) (sl_random s) in
        case slix_listener_check_password ty password s of
          (False, s) \<Rightarrow> (s, [])
        | (True, s) \<Rightarrow>
            ((if ty = SLIX_PASSWORD_PRIVACY then s\<lparr>sl_model := (sl_model s)\<lparr>sx_privacy_mode := 0\<rparr>\<rparr> else s), slix_listener_send [0]))"

definition slix_listener_handle_custom :: "bytes \<Rightarrow> bool \<Rightarrow> slix_listener \<Rightarrow> slix_listener \<times> bytes list" where
  "slix_listener_handle_custom frame addressed s =
     (if length frame < 3 then (s, [])
      else if frame ! 2 \<noteq> SLIX_NXP_MFG_CODE then (s, [])
      else
        let command = frame ! 1; data = drop 3 frame in
        if addressed \<and> length data < ISO15693_UID_SIZE then (s, [])
        else
          let data = (if addressed then drop ISO15693_UID_SIZE data else data) in
          if command = SLIX_CMD_GET_NXP_SYSINFO then (s, slix_listener_handle_get_nxp_sysinfo (sl_model s))
          else if command = SLIX_CMD_READ_SIGNATURE then (s, slix_listener_handle_read_signature (sl_model s))
          else if command = SLIX_CMD_GET_RANDOM then slix_listener_handle_get_random s
          else if command = SLIX_CMD_SET_PASSWORD then slix_listener_handle_set_password data s
          else (s, []))"

definition slix_listener_on_tag_cmd :: "bytes option \<Rightarrow> slix_listener \<Rightarrow> slix_listener \<times> bytes list" where
  "slix_listener_on_tag_cmd tx s = (case tx of
     None \<Rightarrow> (s, [])
   | Some tx \<Rightarrow>
     if \<not> sl_initialized s \<or> length tx < 1 + ISO15693_CRC_SIZE then (s, [])
     else if \<not> iso15693_3_crc_check tx then (s, [])
     else if SLIX_LISTENER_BUF_SIZE < length tx then (s, [])
     else
       let frame = iso15693_3_crc_trim tx in
       if length frame < 2 then (s, [])
       else
         let addressed = (frame ! 0 AND ISO15693_ADDR_FLAG_ADDRESSED \<noteq> 0 \<and> frame ! 0 AND ISO15693_INV_FLAG_INVENTORY = 0);
             command = frame ! 1 in
         if slix_listener_is_slix_custom command then slix_listener_handle_custom frame addressed s
         else if sx_privacy_mode (sl_model s) \<noteq> 0 \<and> command = ISO15693_CMD_INVENTORY then (s, [])
         else
           let p = snd (iso15693_3_listener_init (Some (sx_parent (sl_model s))) (sl_parent s)) in
           case iso15693_3_listener_on_tag_cmd (Some tx) p of (p, r) \<Rightarrow> (s\<lparr>sl_parent := p\<rparr>, r))"

definition slix_listener_serialize :: "nat option \<Rightarrow> slix_listener \<Rightarrow> bytes result" where
  "slix_listener_serialize out s = (if \<not> sl_initialized s then Inl ENODEV else slix_serialize (Some (sl_model s)) out)"

definition slix_listener_deserialize :: "bytes option \<Rightarrow> slix_listener \<Rightarrow> unit result \<times> slix_listener" where
  "slix_listener_deserialize inp s =
     (if \<not> sl_initialized s then (Inl ENODEV, s)
      else case slix_deserialize inp (sl_model s) of (r, m) \<Rightarrow> (r, s\<lparr>sl_model := m\<rparr>))"

definition slix_listener_init :: "slix_data option \<Rightarrow> slix_listener \<Rightarrow> unit result \<times> slix_listener" where
  "slix_listener_init model s =
     (Inr (), s\<lparr>sl_model := (case model of Some m \<Rightarrow> m | None \<Rightarrow> slix_data_reset),
        sl_password_match := replicate SLIX_PASSWORD_COUNT False, sl_random := 0, sl_initialized := True\<rparr>)"

definition slix_listener_shutdown :: "slix_listener \<Rightarrow> unit result \<times> slix_listener" where
  "slix_listener_shutdown s =
     (Inr (), s\<lparr>sl_model := slix_data_reset, sl_password_match := replicate SLIX_PASSWORD_COUNT False, sl_random := 0,
        sl_initialized := False\<rparr>)"

section \<open>The reader\<close>

definition slix_poller_read_be32 :: "bytes \<Rightarrow> u32" where
  "slix_poller_read_be32 b =
     push_bit 24 (ucast (b ! 0)) OR push_bit 16 (ucast (b ! 1)) OR push_bit 8 (ucast (b ! 2)) OR ucast (b ! 3)"

text \<open>\<open>None\<close> is the returned length 0.\<close>

definition slix_poller_prepare_request :: "bytes option \<Rightarrow> u8 \<Rightarrow> bool \<Rightarrow> nat \<Rightarrow> bytes option" where
  "slix_poller_prepare_request uid command skip_uid tx_max =
     (if \<not> skip_uid \<and> uid = None then None
      else if tx_max < 3 then None
      else if skip_uid then Some [ISO15693_CMD_FLAGS, command, SLIX_NXP_MFG_CODE]
      else if tx_max < 3 + ISO15693_UID_SIZE then None
      else Some ([ISO15693_ADDR_FLAGS, command, SLIX_NXP_MFG_CODE] @ iso15693_3_append_uid_reversed (the uid)))"

definition slix_poller_transceive :: "(bytes \<Rightarrow> ('t, bytes) io) \<Rightarrow> bytes \<Rightarrow> ('t, bytes) io" where
  "slix_poller_transceive xc tx = (case iso15693_3_crc_append 32 tx of
     None \<Rightarrow> io_fail EINVAL
   | Some frame \<Rightarrow> io_bind (xc frame) (\<lambda>rx. if \<not> iso15693_3_crc_check rx then io_fail EIO else io_return (iso15693_3_crc_trim rx)))"

definition slix_poller_get_random_number :: "(bytes \<Rightarrow> ('t, bytes) io) \<Rightarrow> ('t, u16) io" where
  "slix_poller_get_random_number xc = (case slix_poller_prepare_request None SLIX_CMD_GET_RANDOM True 32 of
     None \<Rightarrow> io_fail EINVAL
   | Some tx \<Rightarrow> io_bind (slix_poller_transceive xc tx) (\<lambda>rx. if length rx < 3 then io_fail EIO else io_return (le16 (rx ! 1) (rx ! 2))))"

definition slix_poller_set_password ::
  "(bytes \<Rightarrow> ('t, bytes) io) \<Rightarrow> bytes option \<Rightarrow> nat \<Rightarrow> bytes \<Rightarrow> u16 \<Rightarrow> ('t, unit) io" where
  "slix_poller_set_password xc uid ty password random =
     (case slix_poller_prepare_request uid SLIX_CMD_SET_PASSWORD (ty = SLIX_PASSWORD_PRIVACY) 32 of
        None \<Rightarrow> io_fail EINVAL
      | Some tx \<Rightarrow>
          if 32 < length tx + 1 + SLIX_PASSWORD_SIZE then io_fail EINVAL
          else
            let rn_l = ucast (drop_bit 8 random) :: u8; rn_h = ucast (random AND 0xFF) :: u8;
                xored = slix_poller_read_be32 password XOR
                  (push_bit 24 (ucast rn_h) OR push_bit 16 (ucast rn_l) OR push_bit 8 (ucast rn_h) OR ucast rn_l) in
            io_bind (slix_poller_transceive xc (tx @ [push_bit ty 1, ucast (drop_bit 24 xored AND 0xFF), ucast (drop_bit 16 xored AND 0xFF),
              ucast (drop_bit 8 xored AND 0xFF), ucast (xored AND 0xFF)])) (\<lambda>_. io_return ()))"

definition slix_poller_transceive_crc :: "(bytes \<Rightarrow> ('t, bytes) io) \<Rightarrow> bytes \<Rightarrow> ('t, bytes) io" where
  "slix_poller_transceive_crc xc tx = (case iso15693_3_crc_append 32 tx of
     None \<Rightarrow> io_fail EINVAL
   | Some frame \<Rightarrow> io_bind (xc frame) (\<lambda>rx. if \<not> iso15693_3_crc_check rx then io_fail EIO else io_return (iso15693_3_crc_trim rx)))"

definition slix_type_has_nxp_sysinfo :: "slix_type \<Rightarrow> bool" where
  "slix_type_has_nxp_sysinfo ty \<longleftrightarrow> ty = SLIX_TYPE_SLIX2"

definition slix_type_has_signature :: "slix_type \<Rightarrow> bool" where
  "slix_type_has_signature ty \<longleftrightarrow> ty = SLIX_TYPE_SLIX2"

text \<open>The inventory writes the identity before it is read, so the uninitialised record of the source is immaterial.\<close>

definition slix_poller_detect ::
  "(bytes \<Rightarrow> nat \<Rightarrow> ('t, bytes) io) \<Rightarrow> nfc_reader_session option \<Rightarrow> ('t, unit) io" where
  "slix_poller_detect hal session t =
     (if \<not> iso15693_3_poller_session_valid session then (Inl EINVAL, t)
      else case iso15693_3_poller_inventory (iso15693_3_xc hal session) (iso15693_3_data_reset, t) of
        (Inl _, (_, t)) \<Rightarrow> (Inl ENOTSUP, t)
      | (Inr _, (parent, t)) \<Rightarrow>
          if iv_uid parent ! 0 \<noteq> 0xE0 then (Inl ENOTSUP, t)
          else if slix_type_from_uid (iv_uid parent) = SLIX_TYPE_UNKNOWN then (Inl ENOTSUP, t)
          else (Inr (), t))"

definition slix_poller_read_sysinfo :: "(bytes \<Rightarrow> ('t, bytes) io) \<Rightarrow> (slix_data \<times> 't, unit) io" where
  "slix_poller_read_sysinfo xc dt =
     (if \<not> slix_type_has_nxp_sysinfo (sx_type (fst dt)) then (Inr (), dt)
      else case slix_poller_prepare_request (Some (iv_uid (sx_parent (fst dt)))) SLIX_CMD_GET_NXP_SYSINFO False 32 of
        None \<Rightarrow> (Inl EINVAL, dt)
      | Some tx \<Rightarrow>
          io_case (on_tag (slix_poller_transceive_crc xc tx)) (\<lambda>_. io_return ()) (\<lambda>rx.
            if 2 \<le> length rx then on_out (\<lambda>d. d\<lparr>sx_protection_pointer := rx ! 1,
              sx_protection_condition := (if 3 \<le> length rx then rx ! 2 else sx_protection_condition d)\<rparr>)
            else io_return ()) dt)"

definition slix_poller_read_signature :: "(bytes \<Rightarrow> ('t, bytes) io) \<Rightarrow> (slix_data \<times> 't, unit) io" where
  "slix_poller_read_signature xc dt =
     (if \<not> slix_type_has_signature (sx_type (fst dt)) then (Inr (), dt)
      else case slix_poller_prepare_request (Some (iv_uid (sx_parent (fst dt)))) SLIX_CMD_READ_SIGNATURE False 32 of
        None \<Rightarrow> (Inl EINVAL, dt)
      | Some tx \<Rightarrow>
          io_case (on_tag (slix_poller_transceive_crc xc tx)) (\<lambda>_. io_return ()) (\<lambda>rx.
            on_out (\<lambda>d. d\<lparr>sx_signature := memcpy_at (sx_signature d) 0 (take SLIX_SIGNATURE_SIZE rx)\<rparr>)) dt)"

definition slix_poller_read ::
  "(bytes \<Rightarrow> nat \<Rightarrow> ('t, bytes) io) \<Rightarrow> nfc_reader_session option \<Rightarrow> (slix_data \<times> 't, unit) io" where
  "slix_poller_read hal session dt =
     (if session = None then (Inl EINVAL, dt)
      else
        let xc = iso15693_3_xc hal session; d = slix_data_reset in
        case iso15693_3_poller_read hal session (sx_parent d, snd dt) of
          (Inl e, (p, t)) \<Rightarrow> (Inl e, (d\<lparr>sx_parent := p\<rparr>, t))
        | (Inr _, (p, t)) \<Rightarrow>
            let d = d\<lparr>sx_parent := p, sx_type := slix_type_from_uid (iv_uid p)\<rparr> in
            if sx_type d = SLIX_TYPE_UNKNOWN then (Inl ENOTSUP, (d, t))
            else io_bind (slix_poller_read_sysinfo xc) (\<lambda>_. slix_poller_read_signature xc) (d, t))"

end
