(* ===== verification/Iso15693_Loopback.thy ===== *)
theory Iso15693_Loopback
  imports Iso15693 Reader_Loop
begin

text \<open>
  ISO 15693-3: the encoding gives the card back; the reader keeps its record within its arrays in front of any tag; and what it reads
  of an emulated card, for cards of up to 32 blocks and for larger ones.  The lemmas about reading hold of any field that answers the
  four commands the way \<open>iso15693_3_listener_command\<close> does, which the SLIX card does too.
\<close>

section \<open>Frames\<close>

definition iso_framed :: "bytes \<Rightarrow> bytes" where
  "iso_framed p = p @ [ucast (iso15693_3_crc16 p), ucast (drop_bit 8 (iso15693_3_crc16 p))]"

lemma iso_framed_simps [simp]:
  "length (iso_framed p) = length p + 2" "iso15693_3_crc_check (iso_framed p) \<longleftrightarrow> p \<noteq> []"
  "iso15693_3_crc_trim (iso_framed p) = p"
  by (auto simp: iso_framed_def iso15693_3_crc_check_def iso15693_3_crc_trim_def nth_append le16_halves)

lemma iso15693_3_crc_append_eq: "iso15693_3_crc_append n p = (if n < length p + 2 then None else Some (iso_framed p))"
  by (simp add: iso15693_3_crc_append_def iso_framed_def Let_def)

lemma iso15693_3_listener_send_eq: "length p \<le> 254 \<Longrightarrow> iso15693_3_listener_send p = [iso_framed p]"
  by (simp add: iso15693_3_listener_send_def iso15693_3_crc_append_eq)

section \<open>Well-formed cards and their encoding\<close>

definition iso15693_room :: "iso15693_3_data \<Rightarrow> bool" where
  "iso15693_room d \<longleftrightarrow> length (iv_uid d) = 8 \<and> length (iv_block_data d) = 512 \<and> length (iv_block_security d) = 128"

definition iso15693_good :: "iso15693_3_data \<Rightarrow> bool" where
  "iso15693_good d \<longleftrightarrow> iso15693_room d \<and> \<not> iso15693_3_geometry_bad (iv_block_count d) (iv_block_size d)"

text \<open>A card with zeros after its blocks.\<close>

definition iso15693_card :: "iso15693_3_data \<Rightarrow> bool" where
  "iso15693_card d \<longleftrightarrow> iso15693_good d \<and>
     drop (iv_block_count d * iv_block_size d) (iv_block_data d) = replicate (512 - iv_block_count d * iv_block_size d) 0 \<and>
     drop (iv_block_count d) (iv_block_security d) = replicate (128 - iv_block_count d) 0"

lemma geometry_product: "\<not> iso15693_3_geometry_bad n k \<Longrightarrow> n * k \<le> 512"
proof -
  assume "\<not> iso15693_3_geometry_bad n k"
  then have "n * k \<le> 128 * 4" by (intro mult_le_mono) (simp_all add: iso15693_3_geometry_bad_def)
  then show ?thesis by simp
qed

lemma iso15693_reset_room: "iso15693_room iso15693_3_data_reset"
  by (simp add: iso15693_room_def iso15693_3_data_reset_def)

lemma iso15693_deserialize_room:
  assumes "iso15693_room d" shows "iso15693_room (snd (iso15693_3_deserialize inp d))"
  using assms iso15693_reset_room geometry_product
  unfolding iso15693_3_deserialize_def Let_def
  by (auto simp: iso15693_room_def iso15693_3_data_reset_def length_memcpy_at length_sub_bytes iso15693_3_geometry_bad_def not_less
      split: option.split)

definition iso15693_blob :: "iso15693_3_data \<Rightarrow> bytes" where
  "iso15693_blob d = 1 # iv_uid d @ [iv_dsfid d, iv_afi d, iv_ic_ref d, iv_lock_dsfid d, iv_lock_afi d,
     lo8 (iv_block_count d), hi8 (iv_block_count d), lo8 (iv_block_size d)]
     @ take (iv_block_count d * iv_block_size d) (iv_block_data d) @ take (iv_block_count d) (iv_block_security d)"

lemma iso15693_blob_length:
  "iso15693_good d \<Longrightarrow> length (iso15693_blob d) = 17 + iv_block_count d * iv_block_size d + iv_block_count d"
  using geometry_product [of "iv_block_count d" "iv_block_size d"]
  by (simp add: iso15693_good_def iso15693_room_def iso15693_blob_def iso15693_3_geometry_bad_def)

lemma iso15693_serialize_blob:
  "iso15693_good d \<Longrightarrow> 17 + iv_block_count d * iv_block_size d + iv_block_count d \<le> n \<Longrightarrow>
    iso15693_3_serialize (Some d) (Some n) = Inr (iso15693_blob d)"
  by (simp add: iso15693_good_def iso15693_room_def iso15693_3_serialize_def iso15693_blob_def Let_def)

lemma iso15693_deserialize_blob:
  assumes "iso15693_card d" shows "iso15693_3_deserialize (Some (iso15693_blob d @ tail)) d0 = (Inr (), d)"
proof -
  let ?n = "iv_block_count d" and ?k = "iv_block_size d"
  let ?b = "iso15693_blob d @ tail"
  from assms have g: "\<not> iso15693_3_geometry_bad ?n ?k" and good: "iso15693_good d"
    and l: "length (iv_uid d) = 8" "length (iv_block_data d) = 512" "length (iv_block_security d) = 128"
    and z: "drop (?n * ?k) (iv_block_data d) = replicate (512 - ?n * ?k) 0" "drop ?n (iv_block_security d) = replicate (128 - ?n) 0"
    by (simp_all add: iso15693_card_def iso15693_good_def iso15693_room_def)
  have n: "?n \<le> 128" "?k \<le> 4" "?n * ?k \<le> 512" using g geometry_product by (simp_all add: iso15693_3_geometry_bad_def)
  have h: "?b ! 0 = 1" "?b ! 9 = iv_dsfid d" "?b ! 10 = iv_afi d" "?b ! 11 = iv_ic_ref d" "?b ! 12 = iv_lock_dsfid d"
    "?b ! 13 = iv_lock_afi d" "?b ! 14 = lo8 ?n" "?b ! 15 = hi8 ?n" "?b ! 16 = lo8 ?k" "sub_bytes (Suc 0) 8 ?b = iv_uid d"
    using l(1) by (simp_all add: iso15693_blob_def nth_append nth_Cons' sub_bytes_def)
  have d: "sub_bytes 17 (?n * ?k) ?b = take (?n * ?k) (iv_block_data d)"
    "sub_bytes (17 + ?n * ?k) ?n ?b = take ?n (iv_block_security d)"
  proof -
    obtain pre where "?b = pre @ take (?n * ?k) (iv_block_data d) @ take ?n (iv_block_security d) @ tail" "length pre = 17"
      using l(1) by (simp add: iso15693_blob_def)
    then show "sub_bytes 17 (?n * ?k) ?b = take (?n * ?k) (iv_block_data d)"
      "sub_bytes (17 + ?n * ?k) ?n ?b = take ?n (iv_block_security d)" using l n by (simp_all add: sub_bytes_def)
  qed
  have "unat (le16 (lo8 ?n) (hi8 ?n)) = ?n" "unat (lo8 ?k) = ?k" using n by (simp_all add: unat_le16_lo_hi unat_lo8)
  moreover have "memcpy_at (replicate 512 0) 0 (take (?n * ?k) (iv_block_data d)) = iv_block_data d"
    "memcpy_at (replicate 128 0) 0 (take ?n (iv_block_security d)) = iv_block_security d"
    using l n by (simp_all add: memcpy_at_0 flip: z)
  ultimately show ?thesis
    using g h d iso15693_blob_length [OF good]
    by (simp add: iso15693_3_deserialize_def Let_def iso15693_3_data_reset_def)
qed

section \<open>Any tag\<close>

lemma gives_frame: "gives (iso15693_3_poller_send_frame xc tx) (\<lambda>_. True)"
  by (simp add: gives_def split: sum.split)

lemma iso15693_inventory_keeps:
  assumes "\<And>d uid x. I d \<Longrightarrow> length uid = 8 \<Longrightarrow> I (d\<lparr>iv_dsfid := x, iv_uid := uid\<rparr>)"
  shows "keeps I (iso15693_3_poller_inventory xc)"
  unfolding iso15693_3_poller_inventory_def
proof (rule keeps_bind [OF keeps_basic(3)])
  fix rx
  show "keeps I (case iso15693_3_inventory_response_parse rx of Inl e \<Rightarrow> io_fail e
      | Inr (uid, dsfid) \<Rightarrow> on_out (\<lambda>d. d\<lparr>iv_dsfid := dsfid, iv_uid := uid\<rparr>))"
    using assms
    by (auto simp: iso15693_3_inventory_response_parse_def keeps_basic split: option.split intro!: keeps_out)
qed

text \<open>The fields of the system information: what fails without an error flag fails with \<open>EIO\<close>.\<close>

lemma iso15693_info_field:
  assumes "iso15693_3_info_field c n f rx od = (r, od')" "I (snd od)" "\<And>b d. I d \<Longrightarrow> I (f b d)"
  shows "I (snd od') \<and> (r = Inr () \<or> r = Inl EIO)"
  using assms by (auto simp: iso15693_3_info_field_def split: if_splits)

lemma iso15693_sysinfo_parse:
  assumes "iso15693_3_system_info_response_parse rx d = (r, d')" "iso15693_room d"
  shows "iso15693_room d' \<and> (case r of Inr _ \<Rightarrow> iso15693_good d' | Inl e \<Rightarrow> e = EIO \<or> d' = d)"
  using assms unfolding iso15693_3_system_info_response_parse_def Let_def io_bind_def iso15693_3_info_field_def
  by (auto simp: iso15693_room_def iso15693_good_def split: option.splits if_splits)

lemma iso15693_sysinfo:
  assumes "iso15693_3_poller_get_system_info xc (d, t) = (r, (d', t'))" "iso15693_room d"
  shows "iso15693_room d' \<and> (case r of Inr _ \<Rightarrow> iso15693_good d' | Inl e \<Rightarrow> e = EIO \<or> d' = d)"
proof -
  obtain x t1 where x: "iso15693_3_poller_send_frame xc [0x02, 0x2B] t = (x, t1)" by (metis surj_pair)
  show ?thesis
  proof (cases x)
    case (Inr rx)
    obtain q d1 where q: "iso15693_3_system_info_response_parse rx d = (q, d1)" by (metis surj_pair)
    then show ?thesis using assms iso15693_sysinfo_parse [OF q] x Inr
      by (auto simp: iso15693_3_poller_get_system_info_def io_bind_def on_tag_def)
  qed (use assms x in \<open>auto simp: iso15693_3_poller_get_system_info_def io_bind_def on_tag_def\<close>)
qed

text \<open>The loops do not change the geometry.\<close>

abbreviation (input) iso15693_has :: "nat \<Rightarrow> nat \<Rightarrow> iso15693_3_data \<Rightarrow> bool" where
  "iso15693_has n k d \<equiv> iso15693_room d \<and> iv_block_count d = n \<and> iv_block_size d = k"

lemma iso15693_read_blocks_keeps:
  assumes "list_all (\<lambda>b. b * k + k \<le> 512) bs"
  shows "keeps (iso15693_has n k) (iso15693_3_read_blocks xc k bs)"
  using assms
proof (induction bs)
  case (Cons b bs)
  have v: "gives (iso15693_3_poller_read_block xc (of_nat b) k) (\<lambda>x. length x = k)"
    by (auto simp: gives_def iso15693_3_poller_read_block_def io_bind_def io_fail_def io_return_def length_sub_bytes
        iso15693_3_read_block_response_parse_def split: sum.splits prod.splits option.splits)
  show ?case unfolding iso15693_3_read_blocks.simps
    by (rule keeps_case_tag [OF v], use Cons in \<open>auto intro!: keeps_bind simp: iso15693_room_def length_memcpy_at\<close>)
qed (simp add: keeps_basic)

lemma iso15693_security_keeps:
  assumes "n \<le> 128"
  shows "keeps (iso15693_has n' k') (iso15693_3_security_from xc n k)"
proof (induction "n - k" arbitrary: k rule: less_induct)
  case less
  show ?case
  proof (cases "k < n")
    case True
    let ?b = "if 32 < n - k then 32 else n - k"
    have b: "k + ?b \<le> 128" using True assms by auto
    have len: "length x = ?b" if "iso15693_3_get_block_security_response_parse rx ?b = Inr x" for rx x
      using that by (auto simp: iso15693_3_get_block_security_response_parse_def length_sub_bytes split: option.splits if_splits)
    have ih: "keeps (iso15693_has n' k') (iso15693_3_security_from xc n (k + 32))" using less [of "k + 32"] True by simp
    have out: "keeps (iso15693_has n' k') (on_out (\<lambda>d. d\<lparr>iv_block_security := memcpy_at (iv_block_security d) k x\<rparr>))"
      if "length x = ?b" for x using b that by (intro keeps_out) (simp add: iso15693_room_def length_memcpy_at)
    have parsed: "keeps (iso15693_has n' k') (case iso15693_3_get_block_security_response_parse rx ?b of Inl e \<Rightarrow> io_fail e
        | Inr x \<Rightarrow> io_bind (on_out (\<lambda>d. d\<lparr>iv_block_security := memcpy_at (iv_block_security d) k x\<rparr>)) (\<lambda>_. iso15693_3_security_from xc n (k + 32)))" for rx
      using len [of rx] out ih by (cases "iso15693_3_get_block_security_response_parse rx ?b") (auto intro: keeps_bind)
    show ?thesis
      unfolding iso15693_3_security_from.simps [of xc n k] Let_def using True
      by (simp only: not_True_eq_False if_False) (rule keeps_bind [OF keeps_basic(3) parsed])
  qed (simp add: iso15693_3_security_from.simps [of xc n k] keeps_basic)
qed

lemma iso15693_frame_spends:
  assumes "\<And>tx. spends f 1 (xc tx)" shows "spends f 1 (iso15693_3_poller_send_frame xc tx)"
  unfolding iso15693_3_poller_send_frame_def
  by (cases "iso15693_3_crc_append 32 tx") (auto intro!: spends_if spends_then spends_basic assms simp del: One_nat_def)

lemma spends_pure: "spends (\<lambda>dt. f (snd dt)) 0 (\<lambda>(d, t). case g d of (r, d') \<Rightarrow> (r, (d', t)))"
  by (simp add: spends_def split: prod.split)

lemma iso15693_steps_spend:
  assumes "\<And>tx. spends f 1 (xc tx)"
  shows "spends (\<lambda>dt. f (snd dt)) 1 (iso15693_3_poller_inventory xc)"
    "spends (\<lambda>dt. f (snd dt)) 1 (iso15693_3_poller_get_system_info xc)"
    "spends f 1 (iso15693_3_poller_read_block xc b k)"
  unfolding iso15693_3_poller_inventory_def iso15693_3_poller_get_system_info_def iso15693_3_poller_read_block_def
  by (auto intro!: spends_then spends_tag spends_basic spends_out iso15693_frame_spends assms spends_pure split: sum.split
      simp del: One_nat_def)

lemma iso15693_read_blocks_spends:
  assumes "\<And>tx. spends f 1 (xc tx)"
  shows "spends (\<lambda>dt. f (snd dt)) (length bs) (iso15693_3_read_blocks xc k bs)"
proof (induction bs)
  case (Cons b bs)
  have "spends (\<lambda>dt. f (snd dt)) (1 + length bs) (iso15693_3_read_blocks xc k (b # bs))"
    unfolding iso15693_3_read_blocks.simps
    by (intro spends_case spends_tag iso15693_steps_spend assms spends_if spends_basic)
      (use spends_bind [OF spends_out [of f 0] Cons] in simp)
  then show ?case by simp
qed (simp add: spends_basic)

lemma batches_left: "k < n \<Longrightarrow> 1 + (n - (k + 32) + 31) div 32 \<le> (n - k + 31) div (32 :: nat)"
proof (cases "32 \<le> n - k")
  case True
  then obtain j where j: "n - k = 32 + j" using le_Suc_ex by blast
  then have "n - (k + 32) = j" by simp
  moreover have "(32 + j + 31) div 32 = 1 + (j + 31) div (32 :: nat)" using div_add_self1 [of "32 :: nat" "j + 31"] by (simp add: add.assoc)
  ultimately show ?thesis unfolding j by simp
next
  case False
  assume "k < n"
  then have "32 div 32 \<le> (n - k + 31) div (32 :: nat)" by (intro div_le_mono) simp
  moreover have "n - (k + 32) = 0" using False by simp
  ultimately show ?thesis by simp
qed

lemma iso15693_security_spends:
  assumes "\<And>tx. spends f 1 (xc tx)"
  shows "spends (\<lambda>dt. f (snd dt)) ((n - k + 31) div 32) (iso15693_3_security_from xc n k)"
proof (induction "n - k" arbitrary: k rule: less_induct)
  case less
  show ?case
  proof (cases "k < n")
    case True
    then have e: "1 + (n - (k + 32) + 31) div 32 \<le> (n - k + 31) div 32" by (rule batches_left)
    have ih: "spends (\<lambda>dt. f (snd dt)) ((n - (k + 32) + 31) div 32) (iso15693_3_security_from xc n (k + 32))"
      using less [of "k + 32"] True by simp
    let ?b = "if 32 < n - k then 32 else n - k"
    have parsed: "spends (\<lambda>dt. f (snd dt)) ((n - (k + 32) + 31) div 32) (case iso15693_3_get_block_security_response_parse rx ?b of Inl e \<Rightarrow> io_fail e
        | Inr x \<Rightarrow> io_bind (on_out (\<lambda>d. d\<lparr>iv_block_security := memcpy_at (iv_block_security d) k x\<rparr>)) (\<lambda>_. iso15693_3_security_from xc n (k + 32)))" for rx
      using spends_bind [OF spends_out [of f 0] ih]
      by (cases "iso15693_3_get_block_security_response_parse rx ?b") (simp_all add: spends_basic)
    show ?thesis
      unfolding iso15693_3_security_from.simps [of xc n k] Let_def using True
      by (simp only: not_True_eq_False if_False)
        (rule spends_mono [OF spends_bind [OF spends_tag [OF iso15693_frame_spends [of f xc, OF assms]] parsed] e])
  qed (simp add: iso15693_3_security_from.simps [of xc n k] spends_basic)
qed

text \<open>The reading of blocks and security bytes, when the geometry is known.\<close>

lemma iso15693_memory_any_tag:
  assumes "\<And>tx. spends f 1 (xc tx)" "iso15693_good d"
    "io_bind (iso15693_3_read_blocks xc (iv_block_size d) [0..<iv_block_count d]) (\<lambda>_.
       iso15693_3_optional (iso15693_3_poller_get_blocks_security xc)) (d, t) = (r, (d', t'))"
  shows "iso15693_good d' \<and> f t' \<le> f t + 132"
proof -
  let ?n = "iv_block_count d" and ?k = "iv_block_size d"
  have g: "\<not> iso15693_3_geometry_bad ?n ?k" using assms(2) by (simp add: iso15693_good_def)
  then have n: "0 < ?n" "?n \<le> 128" "?k \<le> 4" by (simp_all add: iso15693_3_geometry_bad_def)
  have bs: "list_all (\<lambda>b. b * ?k + ?k \<le> 512) [0..<?n]"
  proof (clarsimp simp: list_all_iff)
    fix b assume "b < ?n"
    then have "Suc b * ?k \<le> ?n * ?k" by (intro mult_right_mono) auto
    then show "b * ?k + ?k \<le> 512" using geometry_product [OF g] by simp
  qed
  obtain r1 d1 t1 where 1: "iso15693_3_read_blocks xc ?k [0..<?n] (d, t) = (r1, (d1, t1))" by (metis surj_pair)
  have has: "iso15693_has ?n ?k d1" using keepsD [OF iso15693_read_blocks_keeps [OF bs, of ?n xc], of "(d, t)"] assms(2) 1
    by (simp add: iso15693_good_def)
  have t1: "f t1 \<le> f t + ?n" using spendsD [OF iso15693_read_blocks_spends [of f xc, OF assms(1)] 1] by simp
  obtain r2 d2 t2 where 2: "iso15693_3_security_from xc ?n 0 (d1, t1) = (r2, (d2, t2))" by (metis surj_pair)
  have has2: "iso15693_has ?n ?k d2" using keepsD [OF iso15693_security_keeps [OF n(2), of ?n ?k xc 0], of "(d1, t1)"] has 2 by simp
  have "f t2 \<le> f t1 + (?n + 31) div 32" using spendsD [OF iso15693_security_spends [of f xc, OF assms(1)] 2] by simp
  moreover have "(?n + 31) div 32 \<le> 159 div 32" using n(2) by (intro div_le_mono) simp
  ultimately have t2: "f t2 \<le> f t + 132" using t1 n(2) by simp
  have "iso15693_3_poller_get_blocks_security xc (d1, t1) = (r2, (d2, t2))"
    using has 2 n by (simp add: iso15693_3_poller_get_blocks_security_def)
  then have "d' = d1 \<and> t' = t1 \<or> d' = d2 \<and> t' = t2"
    using assms(3) 1 by (cases r1; cases r2) (auto simp: io_bind_def io_case_def iso15693_3_optional_def io_fail_def io_return_def split: if_splits)
  with has has2 g t1 t2 n(2) show ?thesis by (auto simp: iso15693_good_def)
qed

lemma iso15693_optional_eval:
  "iso15693_3_optional m s = (case m s of
     (Inl e, s') \<Rightarrow> if e = ENOTSUP \<or> e = ETIMEDOUT then (Inr (), s') else (Inl e, s') | (Inr x, s') \<Rightarrow> (Inr (), s'))"
  by (simp add: iso15693_3_optional_def io_case_def io_fail_def io_return_def iso15693_3_optional_step_ok_def split: prod.split sum.split)

lemma iso15693_poller_read_eval:
  assumes "iso15693_3_poller_session_valid session"
  shows "iso15693_3_poller_read hal session (d0, t) =
    (case iso15693_3_poller_inventory (iso15693_3_xc hal session) (iso15693_3_data_reset, t) of
       (Inl e, dt) \<Rightarrow> (Inl e, dt)
     | (Inr _, dt) \<Rightarrow> (case iso15693_3_optional (iso15693_3_poller_get_system_info (iso15693_3_xc hal session)) dt of
         (Inl e, dt) \<Rightarrow> (Inl e, dt) | (Inr _, dt) \<Rightarrow> iso15693_3_read_memory (iso15693_3_xc hal session) dt))"
  using assms by (auto simp: iso15693_3_poller_read_def io_bind_def on_out_def Let_def split: prod.split sum.split)

lemma iso15693_poller_read_any_tag:
  assumes "iso15693_3_poller_read (counted hal) session (d0, (t, c)) = (r, (d, (t', c')))" "iso15693_room d0"
  shows "iso15693_room d \<and> c' \<le> c + 134 \<and> (r = Inr () \<longrightarrow> iv_block_count d = 0 \<or> iso15693_good d)"
proof (cases "iso15693_3_poller_session_valid session")
  case True
  let ?xc = "iso15693_3_xc (counted hal) session"
  have sp: "spends snd 1 (?xc tx)" for tx unfolding iso15693_3_xc_def by (rule spends_transceive)
  note eval = assms(1) [unfolded iso15693_poller_read_eval [OF True]]
  obtain r1 d1 t1 where 1: "iso15693_3_poller_inventory ?xc (iso15693_3_data_reset, (t, c)) = (r1, (d1, t1))" by (metis surj_pair)
  have k1: "iso15693_room d1 \<and> iv_block_count d1 = 0"
    using keepsD [OF iso15693_inventory_keeps [of "\<lambda>d. iso15693_room d \<and> iv_block_count d = 0"], of "(iso15693_3_data_reset, (t, c))" ?xc] 1
    by (simp add: iso15693_room_def iso15693_3_data_reset_def)
  have s1: "snd t1 \<le> c + 1" using spendsD [OF iso15693_steps_spend(1) [of snd ?xc, OF sp] 1] by simp
  obtain r2 d2 t2 where 2: "iso15693_3_poller_get_system_info ?xc (d1, t1) = (r2, (d2, t2))" by (metis surj_pair)
  have s2: "snd t2 \<le> c + 2" using spendsD [OF iso15693_steps_spend(2) [of snd ?xc, OF sp] 2] s1 by simp
  note k2 = iso15693_sysinfo [OF 2 conjunct1 [OF k1]]
  obtain r3 d3 t3 where 3: "iso15693_3_read_memory ?xc (d2, t2) = (r3, (d3, t3))" by (metis surj_pair)
  have 4: "iso15693_room d3 \<and> snd t3 \<le> c + 134 \<and> (r3 = Inr () \<longrightarrow> iv_block_count d3 = 0 \<or> iso15693_good d3)"
    if "iv_block_count d2 = 0 \<or> iso15693_good d2"
  proof (cases "iv_block_count d2 = 0 \<or> iv_block_size d2 = 0")
    case True
    with 3 have "d3 = d2 \<and> t3 = t2" by (auto simp: iso15693_3_read_memory_def)
    with True that k2 s2 show ?thesis by (auto simp: iso15693_good_def)
  next
    case False
    with that have "iso15693_good d2" by simp
    from iso15693_memory_any_tag [of snd ?xc d2 t2 r3 d3 t3, OF sp this] False 3 s2 show ?thesis
      by (simp add: iso15693_3_read_memory_def iso15693_good_def)
  qed
  show ?thesis
  proof (cases r1)
    case (Inl e)
    with eval 1 k1 s1 show ?thesis by auto
  next
    case (Inr u)
    show ?thesis
    proof (cases r2)
      case (Inl e)
      with eval 1 2 3 Inr k1 k2 4 s2 show ?thesis by (cases "e = ENOTSUP \<or> e = ETIMEDOUT") (auto simp: iso15693_optional_eval)
    next
      case (Inr u')
      with eval 1 2 3 \<open>r1 = Inr u\<close> k2 4 show ?thesis by (auto simp: iso15693_optional_eval)
    qed
  qed
qed (use assms in \<open>auto simp: iso15693_3_poller_read_def io_fail_def\<close>)

section \<open>An emulated card\<close>

text \<open>A field in state \<open>s\<close> or \<open>s'\<close> answers the commands that are not addressed as a card \<open>m\<close> does, and goes to \<open>s'\<close>.\<close>

definition vicinity :: "(bytes \<Rightarrow> ('s, bytes) io) \<Rightarrow> iso15693_3_data \<Rightarrow> 's \<Rightarrow> 's \<Rightarrow> bool" where
  "vicinity xc m s s' \<longleftrightarrow> (\<forall>flags cmd data rx s0. s0 \<in> {s, s'} \<longrightarrow> flags \<in> {0x02, 0x26} \<longrightarrow> cmd \<in> {0x01, 0x20, 0x2B, 0x2C} \<longrightarrow>
     length data \<le> 28 \<longrightarrow> iso15693_3_listener_command m cmd data = [iso_framed rx] \<longrightarrow>
     xc (iso_framed (flags # cmd # data)) s0 = (Inr (iso_framed rx), s'))"

lemma iso15693_answers:
  assumes "vicinity xc m s s'" "s0 = s \<or> s0 = s'" "flags = 0x02 \<or> flags = 0x26" "cmd \<in> {0x01, 0x20, 0x2B, 0x2C}" "length data \<le> 28"
    "iso15693_3_listener_command m cmd data = [iso_framed rx]" "rx \<noteq> []"
  shows "iso15693_3_poller_send_frame xc (flags # cmd # data) s0 = (Inr rx, s')"
proof -
  have "xc (iso_framed (flags # cmd # data)) s0 = (Inr (iso_framed rx), s')" using assms unfolding vicinity_def by blast
  then show ?thesis using assms(5,7)
    by (simp add: iso15693_3_poller_send_frame_def iso15693_3_crc_append_eq io_bind_def io_return_def)
qed

lemma uid_reversed_twice:
  assumes "length uid = 8"
  shows "map (\<lambda>i. (0 # x # iso15693_3_append_uid_reversed uid) ! (9 - i)) [0..<8] = uid"
proof (rule nth_equalityI)
  fix i assume "i < length (map (\<lambda>i. (0 # x # iso15693_3_append_uid_reversed uid) ! (9 - i)) [0..<8])"
  then have i: "i < 8" by simp
  then have "9 - i = Suc (Suc (7 - i))" "[0..<8] ! (7 - i) = 7 - i" using nth_upt [of 0 "7 - i" 8] by simp_all
  with i assms show "map (\<lambda>i. (0 # x # iso15693_3_append_uid_reversed uid) ! (9 - i)) [0..<8] ! i = uid ! i"
    by (simp add: iso15693_3_append_uid_reversed_def del: upt_rec_numeral)
qed (simp add: assms)

lemma iso15693_inventory_reads:
  assumes "vicinity xc m s s'" "iso15693_room m"
  shows "iso15693_3_poller_inventory xc (d, s) = (Inr (), (d\<lparr>iv_dsfid := iv_dsfid m, iv_uid := iv_uid m\<rparr>, s'))"
proof -
  let ?rx = "0 # iv_dsfid m # iso15693_3_append_uid_reversed (iv_uid m)"
  have l: "length ?rx = 10" by (simp add: iso15693_3_append_uid_reversed_def)
  then have "iso15693_3_listener_command m 0x01 [] = [iso_framed ?rx]"
    by (simp add: iso15693_3_listener_command_def iso15693_3_listener_handle_inventory_def iso15693_3_listener_send_eq del: upt_rec_numeral)
  from iso15693_answers [OF assms(1) _ _ _ _ this, of s "0x26"]
  have "iso15693_3_poller_send_frame xc [0x26, 0x01] s = (Inr ?rx, s')" by simp
  moreover have "iso15693_3_inventory_response_parse ?rx = Inr (iv_uid m, iv_dsfid m)"
    using l uid_reversed_twice [of "iv_uid m" "iv_dsfid m"] assms(2)
    by (simp add: iso15693_3_inventory_response_parse_def iso15693_3_error_response_parse_def iso15693_room_def del: upt_rec_numeral)
  ultimately show ?thesis by (simp add: iso15693_3_poller_inventory_def io_bind_def on_tag_def on_out_def)
qed

lemma word_size_field: "1 \<le> k \<Longrightarrow> k \<le> 4 \<Longrightarrow> unat ((((of_nat k - 1) AND 0x1F) AND 0x1F) + 1 :: u8) = k"
proof -
  assume "1 \<le> k" "k \<le> 4"
  then consider "k = 1" | "k = 2" | "k = 3" | "k = 4" by linarith
  then show ?thesis by cases simp_all
qed

lemma unat_of_nat_pred: "0 < n \<Longrightarrow> n \<le> 256 \<Longrightarrow> unat (of_nat n - 1 :: u8) = n - 1"
  by (cases n) (simp_all add: unat_of_nat)

lemma iso15693_sysinfo_reads:
  assumes "vicinity xc m s s'" "iso15693_good m"
  shows "iso15693_3_poller_get_system_info xc (d, s') = (Inr (), (d\<lparr>iv_dsfid := iv_dsfid m, iv_afi := iv_afi m,
    iv_block_count := iv_block_count m, iv_block_size := iv_block_size m, iv_ic_ref := iv_ic_ref m\<rparr>, s'))"
proof -
  let ?rx = "[0, iso15693_3_listener_sysinfo_flags, iv_dsfid m, iv_afi m, of_nat (iv_block_count m) - 1,
       (of_nat (iv_block_size m) - 1) AND 0x1F, iv_ic_ref m]"
  have g: "\<not> iso15693_3_geometry_bad (iv_block_count m) (iv_block_size m)" using assms(2) by (simp add: iso15693_good_def)
  then have n: "0 < iv_block_count m" "iv_block_count m \<le> 128" "1 \<le> iv_block_size m" "iv_block_size m \<le> 4"
    by (simp_all add: iso15693_3_geometry_bad_def)
  have "iso15693_3_listener_command m 0x2B [] = [iso_framed ?rx]"
    by (simp add: iso15693_3_listener_command_def iso15693_3_listener_handle_get_sys_info_def iso15693_3_listener_send_eq)
  from iso15693_answers [OF assms(1) _ _ _ _ this, of s' "0x02"]
  have 1: "iso15693_3_poller_send_frame xc [0x02, 0x2B] s' = (Inr ?rx, s')" by simp
  have f: "iso15693_3_listener_sysinfo_flags AND 1 \<noteq> 0" "iso15693_3_listener_sysinfo_flags AND 0x10 \<noteq> 0"
    "iso15693_3_listener_sysinfo_flags AND 0x40 \<noteq> 0" "iso15693_3_listener_sysinfo_flags AND 0x80 \<noteq> 0"
    by (simp_all add: iso15693_3_listener_sysinfo_flags_def)
  have "iso15693_3_system_info_response_parse ?rx d = (Inr (), d\<lparr>iv_dsfid := iv_dsfid m, iv_afi := iv_afi m,
      iv_block_count := iv_block_count m, iv_block_size := iv_block_size m, iv_ic_ref := iv_ic_ref m\<rparr>)"
    using f g n word_size_field [OF n(3,4)] unat_of_nat_pred [OF n(1)]
    by (simp add: iso15693_3_system_info_response_parse_def iso15693_3_error_response_parse_def iso15693_3_info_field_def
        io_bind_def sub_bytes_def)
  with 1 show ?thesis by (simp add: iso15693_3_poller_get_system_info_def io_bind_def on_tag_def)
qed

lemma iso15693_block_reads:
  assumes "vicinity xc m s s'" "iso15693_good m" "b < iv_block_count m"
  shows "iso15693_3_poller_read_block xc (of_nat b) (iv_block_size m) s' =
    (Inr (sub_bytes (b * iv_block_size m) (iv_block_size m) (iv_block_data m)), s')"
proof -
  let ?k = "iv_block_size m" and ?n = "iv_block_count m"
  let ?b = "sub_bytes (b * ?k) ?k (iv_block_data m)"
  have g: "\<not> iso15693_3_geometry_bad ?n ?k" and l: "length (iv_block_data m) = 512" using assms(2)
    by (simp_all add: iso15693_good_def iso15693_room_def)
  then have n: "?n \<le> 128" "1 \<le> ?k" "?k \<le> 4" by (simp_all add: iso15693_3_geometry_bad_def)
  have "Suc b * ?k \<le> ?n * ?k" using assms(3) by (intro mult_right_mono) auto
  then have lb: "length ?b = ?k" using geometry_product [OF g] l by (intro length_sub_bytes) simp
  have u: "unat (of_nat b :: u8) = b" using assms(3) n by (simp add: unat_of_nat)
  have "iso15693_3_listener_command m 0x20 [of_nat b] = [iso_framed (0 # ?b)]"
    using u lb n assms(3) by (simp add: iso15693_3_listener_command_def iso15693_3_listener_handle_read_block_def iso15693_3_listener_send_eq)
  from iso15693_answers [OF assms(1) _ _ _ _ this, of s' "0x02"]
  have "iso15693_3_poller_send_frame xc [0x02, 0x20, of_nat b] s' = (Inr (0 # ?b), s')" by simp
  moreover have "iso15693_3_read_block_response_parse (0 # ?b) ?k = Inr ?b"
    using lb n by (simp add: iso15693_3_read_block_response_parse_def iso15693_3_error_response_parse_def sub_bytes_def [of "Suc 0"])
  ultimately show ?thesis by (simp add: iso15693_3_poller_read_block_def io_bind_def io_return_def)
qed

lemma memcpy_at_grow:
  assumes "a + k \<le> length D"
  shows "memcpy_at (take a D @ replicate n z) a (sub_bytes a k D) = take (a + k) D @ replicate (n - k) z"
  using assms by (simp add: memcpy_at_def sub_bytes_def take_add min_absorb2)

lemma iso15693_blocks_read:
  assumes "vicinity xc m s s'" "iso15693_good m" "k \<le> iv_block_count m"
    "iv_block_data d = take (k * iv_block_size m) (iv_block_data m) @ replicate (512 - k * iv_block_size m) 0"
  shows "iso15693_3_read_blocks xc (iv_block_size m) [k..<iv_block_count m] (d, s') =
    (Inr (), (d\<lparr>iv_block_data := take (iv_block_count m * iv_block_size m) (iv_block_data m) @
       replicate (512 - iv_block_count m * iv_block_size m) 0\<rparr>, s'))"
  using assms(3,4)
proof (induction "iv_block_count m - k" arbitrary: k d)
  case 0
  then show ?case by (simp add: io_return_def)
next
  case (Suc n)
  let ?sz = "iv_block_size m"
  have k: "k < iv_block_count m" using Suc.hyps(2) by simp
  then have up: "[k..<iv_block_count m] = k # [Suc k..<iv_block_count m]" by (simp add: upt_conv_Cons)
  have "Suc k * ?sz \<le> iv_block_count m * ?sz" using k by (intro mult_right_mono) auto
  then have le: "k * ?sz + ?sz \<le> length (iv_block_data m)"
    using assms(2) geometry_product by (fastforce simp: iso15693_good_def iso15693_room_def)
  let ?d = "d\<lparr>iv_block_data := memcpy_at (iv_block_data d) (k * ?sz) (sub_bytes (k * ?sz) ?sz (iv_block_data m))\<rparr>"
  have "iv_block_data ?d = take (Suc k * ?sz) (iv_block_data m) @ replicate (512 - Suc k * ?sz) 0"
    using Suc.prems(2) memcpy_at_grow [OF le, of "512 - k * ?sz" 0] by (simp add: add.commute)
  with Suc.hyps(1) [of "Suc k" ?d] Suc.hyps(2) k iso15693_block_reads [OF assms(1,2) k] show ?case
    unfolding up by (simp add: io_case_def on_tag_def io_bind_simps)
qed

text \<open>The security bytes of the first 32 blocks are read; the second request is refused.\<close>

lemma iso15693_security_answer:
  assumes "vicinity xc m s s'" "iso15693_good m" "0 < b" "b \<le> 32" "b \<le> iv_block_count m"
  shows "iso15693_3_poller_send_frame xc [0x02, 0x2C, 0, of_nat b - 1] s' = (Inr (0 # take b (iv_block_security m)), s')"
proof -
  have l: "length (iv_block_security m) = 128" "iv_block_count m \<le> 128" using assms(2)
    by (simp_all add: iso15693_good_def iso15693_room_def iso15693_3_geometry_bad_def)
  have u: "unat (of_nat b - 1 :: u8) = b - 1" using assms(3,4) by (intro unat_of_nat_pred) simp_all
  have lt: "b - 1 < iv_block_count m" using assms(3,5) by simp
  have "map ((!) (iv_block_security m)) [0..<b] = take b (iv_block_security m)"
    using l assms(5) by (intro nth_equalityI) simp_all
  then have "iso15693_3_listener_command m 0x2C [0, of_nat b - 1] = [iso_framed (0 # take b (iv_block_security m))]"
    using assms(3-5) u l lt by (simp add: iso15693_3_listener_command_def iso15693_3_listener_handle_get_blocks_security_def
        iso15693_3_listener_send_eq del: upt_Suc)
  from iso15693_answers [OF assms(1) _ _ _ _ this, of s' "0x02"] show ?thesis by simp
qed

lemma iso15693_security_refused:
  assumes "vicinity xc m s s'" "0 < b" "b \<le> 32"
  shows "iso15693_3_poller_send_frame xc [0x02, 0x2C, 32, of_nat b - 1] s' = (Inr [0x01, 0x10], s')"
proof -
  have "unat (of_nat b - 1 :: u8) = b - 1" using assms(2,3) by (intro unat_of_nat_pred) simp_all
  then have "(of_nat b - 1 :: u8) < 32" using assms(2,3) by (simp add: word_less_nat_alt)
  then have "iso15693_3_listener_command m 0x2C [32, of_nat b - 1] = [iso_framed [0x01, 0x10]]"
    by (simp add: iso15693_3_listener_command_def iso15693_3_listener_handle_get_blocks_security_def iso15693_3_listener_send_eq)
  from iso15693_answers [OF assms(1) _ _ _ _ this, of s' "0x02"] show ?thesis by simp
qed

lemma iso15693_security_parse:
  "length x = n \<Longrightarrow> 0 < n \<Longrightarrow> iso15693_3_get_block_security_response_parse (0 # x) n = Inr x"
  "iso15693_3_get_block_security_response_parse [0x01, 0x10] n = Inl EIO"
  by (auto simp: iso15693_3_get_block_security_response_parse_def iso15693_3_error_response_parse_def sub_bytes_def)

lemma iso15693_security_reads:
  assumes "vicinity xc m s s'" "iso15693_good m" "iv_block_count m \<le> 32" "iv_block_count d = iv_block_count m"
  shows "iso15693_3_poller_get_blocks_security xc (d, s') =
    (Inr (), (d\<lparr>iv_block_security := memcpy_at (iv_block_security d) 0 (take (iv_block_count m) (iv_block_security m))\<rparr>, s'))"
proof -
  let ?n = "iv_block_count m"
  have n: "0 < ?n" "length (take ?n (iv_block_security m)) = ?n" using assms(2,3)
    by (simp_all add: iso15693_good_def iso15693_room_def iso15693_3_geometry_bad_def)
  have "iso15693_3_get_block_security_response_parse (0 # take ?n (iv_block_security m)) ?n = Inr (take ?n (iv_block_security m))"
    using n by (intro iso15693_security_parse)
  with iso15693_security_answer [OF assms(1,2) n(1) assms(3) order_refl] assms(3,4) n(1) show ?thesis
    by (simp add: iso15693_3_poller_get_blocks_security_def iso15693_3_security_from.simps [of xc ?n 0]
        iso15693_3_security_from.simps [of xc ?n 32] io_bind_def on_tag_def on_out_def io_return_def Let_def)
qed

lemma iso15693_security_fails:
  assumes "vicinity xc m s s'" "iso15693_good m" "32 < iv_block_count m" "iv_block_count d = iv_block_count m"
  shows "\<exists>d'. iso15693_3_poller_get_blocks_security xc (d, s') = (Inl EIO, (d', s'))"
proof -
  let ?n = "iv_block_count m"
  let ?b = "if 32 < ?n - 32 then 32 else ?n - 32"
  have n: "?n \<le> 128" "length (take 32 (iv_block_security m)) = 32" using assms(2)
    by (simp_all add: iso15693_good_def iso15693_room_def iso15693_3_geometry_bad_def)
  have 1: "iso15693_3_poller_send_frame xc [0x02, 0x2C, 0, 31] s' = (Inr (0 # take 32 (iv_block_security m)), s')"
    using iso15693_security_answer [OF assms(1,2), of 32] assms(3) by simp
  have 2: "iso15693_3_poller_send_frame xc [0x02, 0x2C, 32, of_nat ?b - 1] s' = (Inr [0x01, 0x10], s')"
    using iso15693_security_refused [OF assms(1), of ?b] assms(3) by simp
  have p: "iso15693_3_get_block_security_response_parse (0 # take 32 (iv_block_security m)) 32 = Inr (take 32 (iv_block_security m))"
    using n(2) by (intro iso15693_security_parse) simp_all
  have "iso15693_3_security_from xc ?n 32 (d', s') = (Inl EIO, (d', s'))" for d'
    using assms(3) 2 unfolding iso15693_3_security_from.simps [of xc ?n 32] Let_def
    by (simp add: io_bind_def on_tag_def iso15693_security_parse(2) io_fail_def del: One_nat_def)
  with assms(3,4) n(1) 1 p show ?thesis
    by (simp add: iso15693_3_poller_get_blocks_security_def iso15693_3_security_from.simps [of xc ?n 0]
        io_bind_def on_tag_def on_out_def)
qed

text \<open>What the reader has of a card: the lock bytes are not on the wire.\<close>

definition iso15693_seen :: "iso15693_3_data \<Rightarrow> iso15693_3_data" where
  "iso15693_seen m = m\<lparr>iv_lock_dsfid := 0, iv_lock_afi := 0,
     iv_block_data := take (iv_block_count m * iv_block_size m) (iv_block_data m) @ replicate (512 - iv_block_count m * iv_block_size m) 0,
     iv_block_security := take (iv_block_count m) (iv_block_security m) @ replicate (128 - iv_block_count m) 0\<rparr>"

lemma iso15693_reads_vicinity:
  assumes "vicinity (iso15693_3_xc hal session) m s s'" "iso15693_good m" "iso15693_3_poller_session_valid session"
  shows "if iv_block_count m \<le> 32 then iso15693_3_poller_read hal session (d0, s) = (Inr (), (iso15693_seen m, s'))
    else \<exists>d. iso15693_3_poller_read hal session (d0, s) = (Inl EIO, (d, s'))"
proof -
  let ?xc = "iso15693_3_xc hal session" and ?n = "iv_block_count m" and ?k = "iv_block_size m"
  let ?d2 = "iso15693_3_data_reset\<lparr>iv_dsfid := iv_dsfid m, iv_uid := iv_uid m, iv_afi := iv_afi m, iv_block_count := ?n,
    iv_block_size := ?k, iv_ic_ref := iv_ic_ref m\<rparr>"
  let ?d3 = "?d2\<lparr>iv_block_data := take (?n * ?k) (iv_block_data m) @ replicate (512 - ?n * ?k) 0\<rparr>"
  have n: "0 < ?n" "0 < ?k" "iso15693_room m" using assms(2) by (simp_all add: iso15693_good_def iso15693_3_geometry_bad_def)
  have 1: "iso15693_3_poller_inventory ?xc (iso15693_3_data_reset, s) =
      (Inr (), (iso15693_3_data_reset\<lparr>iv_dsfid := iv_dsfid m, iv_uid := iv_uid m\<rparr>, s'))"
    by (rule iso15693_inventory_reads [OF assms(1) n(3)])
  have 2: "iso15693_3_optional (iso15693_3_poller_get_system_info ?xc)
      (iso15693_3_data_reset\<lparr>iv_dsfid := iv_dsfid m, iv_uid := iv_uid m\<rparr>, s') = (Inr (), (?d2, s'))"
    using iso15693_sysinfo_reads [OF assms(1,2)] by (simp add: iso15693_optional_eval)
  have 3: "iso15693_3_read_blocks ?xc ?k [0..<?n] (?d2, s') = (Inr (), (?d3, s'))"
    using iso15693_blocks_read [OF assms(1,2), of 0 ?d2] by (simp add: iso15693_3_data_reset_def)
  have mem: "iso15693_3_read_memory ?xc (?d2, s') = iso15693_3_optional (iso15693_3_poller_get_blocks_security ?xc) (?d3, s')"
    using n 3 by (simp add: iso15693_3_read_memory_def io_bind_Inr)
  show ?thesis
  proof (cases "?n \<le> 32")
    case True
    from iso15693_security_reads [OF assms(1,2) True, of ?d3] n
    have "iso15693_3_poller_get_blocks_security ?xc (?d3, s') = (Inr (), (iso15693_seen m, s'))"
      by (simp add: iso15693_seen_def iso15693_3_data_reset_def memcpy_at_0 iso15693_room_def)
    with 1 2 mem True show ?thesis by (simp add: iso15693_poller_read_eval [OF assms(3)] iso15693_optional_eval)
  next
    case False
    then obtain d' where "iso15693_3_poller_get_blocks_security ?xc (?d3, s') = (Inl EIO, (d', s'))"
      using iso15693_security_fails [OF assms(1,2), of ?d3] by auto
    with 1 2 mem False show ?thesis by (simp add: iso15693_poller_read_eval [OF assms(3)] iso15693_optional_eval)
  qed
qed

section \<open>The emulated ISO 15693-3 card\<close>

abbreviation (input) iso15693_field :: "bytes \<Rightarrow> nat \<Rightarrow> (iso15693_3_listener, bytes) io" where
  "iso15693_field \<equiv> tag_loop iso15693_3_listener_on_tag_cmd"

lemma iso15693_listener_frame:
  assumes "il_initialized s" "flags = 0x02 \<or> flags = 0x26" "length data \<le> 28"
  shows "iso15693_3_listener_on_tag_cmd (Some (iso_framed (flags # cmd # data))) s = (s, iso15693_3_listener_command (il_model s) cmd data)"
  using assms by (auto simp: iso15693_3_listener_on_tag_cmd_def Let_def)

lemma iso15693_field_vicinity:
  assumes "rs_active ses" "il_initialized s"
  shows "vicinity (iso15693_3_xc iso15693_field (Some ses)) (il_model s) s s"
  using iso15693_listener_frame [OF assms(2)] assms(1) by (auto simp: vicinity_def iso15693_3_xc_def tag_loop_def)

lemma iso15693_seen_card: "iso15693_good m \<Longrightarrow> iso15693_card (iso15693_seen m)"
  using geometry_product [of "iv_block_count m" "iv_block_size m"]
  by (simp add: iso15693_card_def iso15693_good_def iso15693_room_def iso15693_seen_def iso15693_3_geometry_bad_def)

lemma iso15693_seen_compare: "iso15693_good m \<Longrightarrow> iso15693_3_compare (Some m) (Some (iso15693_seen m)) = Inr ()"
  using geometry_product [of "iv_block_count m" "iv_block_size m"]
  by (simp add: iso15693_good_def iso15693_room_def iso15693_3_compare_def iso15693_seen_def iso15693_3_geometry_bad_def)

text \<open>C30. The ISO 15693-3 reader in front of an emulated card.  A card of up to 32 blocks is read completely: the record compares equal to
  the card, and it can be stored and loaded into an emulated card.  A card of more than 32 blocks is never read: the reader asks for the
  security bytes of the second 32 blocks with a first block and a count, the emulated card takes the count for the last block, and the
  reading fails with \<open>EIO\<close>.\<close>

theorem iso15693_3_poller_reads_card:
  assumes "rs_active ses" "il_initialized s" "iso15693_good (il_model s)" "il_initialized s0"
  shows "if iv_block_count (il_model s) \<le> 32
    then \<exists>d blob. iso15693_3_poller_read iso15693_field (Some ses) (d0, s) = (Inr (), (d, s)) \<and>
      iso15693_3_compare (Some (il_model s)) (Some d) = Inr () \<and>
      iso15693_3_serialize (Some d) (Some 657) = Inr blob \<and> iso15693_3_listener_deserialize (Some blob) s0 = (Inr (), s0\<lparr>il_model := d\<rparr>)
    else \<exists>d. iso15693_3_poller_read iso15693_field (Some ses) (d0, s) = (Inl EIO, (d, s))"
proof -
  let ?d = "iso15693_seen (il_model s)"
  have v: "iso15693_3_poller_session_valid (Some ses)" using assms(1) by (simp add: iso15693_3_poller_session_valid_def)
  have card: "iso15693_card ?d" by (rule iso15693_seen_card [OF assms(3)])
  then have good: "iso15693_good ?d" by (simp add: iso15693_card_def)
  then have "iv_block_count ?d * iv_block_size ?d \<le> 512" "iv_block_count ?d \<le> 128"
    using geometry_product by (simp_all add: iso15693_good_def iso15693_3_geometry_bad_def)
  then have "iso15693_3_serialize (Some ?d) (Some 657) = Inr (iso15693_blob ?d)" by (intro iso15693_serialize_blob good) simp
  moreover have "iso15693_3_listener_deserialize (Some (iso15693_blob ?d)) s0 = (Inr (), s0\<lparr>il_model := ?d\<rparr>)"
    using iso15693_deserialize_blob [OF card, of "[]" "il_model s0"] assms(4) by (simp add: iso15693_3_listener_deserialize_def)
  ultimately show ?thesis
    using iso15693_reads_vicinity [OF iso15693_field_vicinity [OF assms(1,2)] assms(3) v, of d0] iso15693_seen_compare [OF assms(3)]
    by (cases "iv_block_count (il_model s) \<le> 32") auto
qed

definition sample_iso15693 :: "nat \<Rightarrow> iso15693_3_listener" where
  "sample_iso15693 n = \<lparr>il_model = iso15693_3_data_reset\<lparr>iv_uid := [0xE0, 4, 1, 8, 0x49, 0xD0, 0xDC, 0x81], iv_dsfid := 1, iv_afi := 0x3D,
     iv_ic_ref := 1, iv_lock_afi := 1, iv_block_count := n, iv_block_size := 4, iv_block_data := replicate 512 9\<rparr>, il_initialized = True\<rparr>"

lemma sample_iso15693_good: "0 < n \<Longrightarrow> n \<le> 128 \<Longrightarrow> il_initialized (sample_iso15693 n) \<and> iso15693_good (il_model (sample_iso15693 n)) \<and>
    iv_block_count (il_model (sample_iso15693 n)) = n"
  by (simp add: sample_iso15693_def iso15693_good_def iso15693_room_def iso15693_3_data_reset_def iso15693_3_geometry_bad_def)

theorem iso15693_3_poller_reads_card_witness:
  "(\<exists>d. iso15693_3_poller_read iso15693_field (Some (nfc_reader_session_zero\<lparr>rs_active := True\<rparr>)) (iso15693_3_data_reset, sample_iso15693 28) =
      (Inr (), (d, sample_iso15693 28)) \<and> iso15693_3_compare (Some (il_model (sample_iso15693 28))) (Some d) = Inr ()) \<and>
   (\<exists>d. iso15693_3_poller_read iso15693_field (Some (nfc_reader_session_zero\<lparr>rs_active := True\<rparr>)) (iso15693_3_data_reset, sample_iso15693 80) =
      (Inl EIO, (d, sample_iso15693 80)))"
proof -
  let ?ses = "nfc_reader_session_zero\<lparr>rs_active := True\<rparr>"
  have r: "rs_active ?ses" by simp
  from iso15693_3_poller_reads_card [OF r, of "sample_iso15693 28" "sample_iso15693 28" iso15693_3_data_reset] sample_iso15693_good [of 28]
  have "\<exists>d. iso15693_3_poller_read iso15693_field (Some ?ses) (iso15693_3_data_reset, sample_iso15693 28) =
      (Inr (), (d, sample_iso15693 28)) \<and> iso15693_3_compare (Some (il_model (sample_iso15693 28))) (Some d) = Inr ()" by auto
  moreover from iso15693_3_poller_reads_card [OF r, of "sample_iso15693 80" "sample_iso15693 80" iso15693_3_data_reset] sample_iso15693_good [of 80]
  have "\<exists>d. iso15693_3_poller_read iso15693_field (Some ?ses) (iso15693_3_data_reset, sample_iso15693 80) =
      (Inl EIO, (d, sample_iso15693 80))" by auto
  ultimately show ?thesis by blast
qed

end
