(* ===== verification/Slix_Loopback.thy ===== *)
theory Slix_Loopback
  imports Slix Iso15693_Loopback
begin

text \<open>
  SLIX: the encoding gives the card back; the reader keeps its record within its arrays in front of any tag; what it reads of an
  emulated card; and the password exchange.
\<close>

section \<open>Well-formed cards and their encoding\<close>

definition slix_room :: "slix_data \<Rightarrow> bool" where
  "slix_room d \<longleftrightarrow> iso15693_room (sx_parent d) \<and> length (sx_passwords d) = 5 \<and> list_all (\<lambda>p. length p = 4) (sx_passwords d) \<and>
     length (sx_signature d) = 32"

definition slix_card :: "slix_data \<Rightarrow> bool" where
  "slix_card d \<longleftrightarrow> slix_room d \<and> iso15693_card (sx_parent d) \<and> sx_type d = slix_type_from_uid (iv_uid (sx_parent d))"

lemma slix_reset_room: "slix_room slix_data_reset"
  using iso15693_reset_room by (simp add: slix_room_def slix_data_reset_def list_all_iff)

lemma slix_serialize_deserialize:
  assumes "slix_card d" "718 \<le> n"
  shows "\<exists>blob. slix_serialize (Some d) (Some n) = Inr blob \<and> slix_deserialize (Some blob) d0 = (Inr (), d)"
proof -
  let ?p = "sx_parent d"
  let ?N = "iv_block_count ?p * iv_block_size ?p + iv_block_count ?p"
  let ?b = "iso15693_blob ?p"
  let ?tail = "[0x53, 0x4C, 1, sx_capabilities d] @ concat (sx_passwords d) @ sx_signature d
    @ [sx_privacy_mode d, sx_protection_pointer d, sx_protection_condition d, sx_lock_eas d, sx_lock_ppl d]"
  from assms have card: "iso15693_card ?p" and ty: "sx_type d = slix_type_from_uid (iv_uid ?p)"
    and l: "length (sx_passwords d) = 5" "list_all (\<lambda>p. length p = 4) (sx_passwords d)" "length (sx_signature d) = 32"
    by (simp_all add: slix_card_def slix_room_def)
  then have good: "iso15693_good ?p" by (simp add: iso15693_card_def)
  then have N: "?N \<le> 640" using geometry_product [of "iv_block_count ?p" "iv_block_size ?p"]
    by (simp add: iso15693_good_def iso15693_3_geometry_bad_def)
  have lb: "length ?b = 17 + ?N" using iso15693_blob_length [OF good] by simp
  have lc: "length (concat (sx_passwords d)) = 20" using length_concat_eq [OF l(2)] l(1) by simp
  have lt: "length ?tail = 61" using lc l(3) by simp
  have "iso15693_3_serialize (Some ?p) (Some n) = Inr ?b" using assms(2) N by (intro iso15693_serialize_blob good) simp
  moreover have "map (take 4) (sx_passwords d) = sx_passwords d" using l(2) by (simp add: list_all_iff map_idI)
  ultimately have ser: "slix_serialize (Some d) (Some n) = Inr (?b @ ?tail)"
    using assms(2) N lb l by (simp add: slix_serialize_def)
  have i: "(?b @ ?tail) ! (17 + ?N + k) = ?tail ! k" for k using lb by (simp add: nth_append)
  have sub: "sub_bytes (17 + ?N + k) j (?b @ ?tail) = sub_bytes k j ?tail" for k j using lb by (simp add: sub_bytes_def)
  have pw: "map (\<lambda>k. sub_bytes (17 + ?N + (4 + k * 4)) 4 (?b @ ?tail)) [0..<5] = sx_passwords d"
    using sub_bytes_rows [OF l(2), of 4 "[0x53, 0x4C, 1, sx_capabilities d]"] l(1) unfolding sub by (simp del: upt_rec_numeral)
  have sg: "sub_bytes 24 32 ?tail = sx_signature d" using lc l(3) by (simp add: sub_bytes_def)
  have t: "?tail ! 0 = 0x53" "?tail ! 1 = 0x4C" "?tail ! 2 = 1" "?tail ! 3 = sx_capabilities d" "?tail ! 56 = sx_privacy_mode d"
    "?tail ! 57 = sx_protection_pointer d" "?tail ! 58 = sx_protection_condition d" "?tail ! 59 = sx_lock_eas d"
    "?tail ! 60 = sx_lock_ppl d"
    using lc l(3) by (simp_all add: nth_append nth_Cons')
  have "slix_deserialize (Some (?b @ ?tail)) d0 = (Inr (), d)"
    using iso15693_deserialize_blob [OF card, of ?tail] lb lt i [of 0] i [of 1] i [of 2] i [of 3] i [of 56] i [of 57] i [of 58] i [of 59] i [of 60]
      t pw sub [of 24 32] sg ty
    by (simp add: slix_deserialize_def Let_def slix_data_reset_def add.assoc del: append.simps)
  with ser show ?thesis by blast
qed

section \<open>Any tag\<close>

lemma slix_transceive_spends:
  assumes "\<And>tx. spends f 1 (xc tx)" shows "spends f 1 (slix_poller_transceive_crc xc tx)"
  using iso15693_frame_spends [of f xc tx, OF assms] by (simp add: slix_poller_transceive_crc_def iso15693_3_poller_send_frame_def)

lemma slix_extras_keep:
  "keeps slix_room (slix_poller_read_sysinfo xc)" "keeps slix_room (slix_poller_read_signature xc)"
proof -
  have s: "slix_room (d\<lparr>sx_signature := memcpy_at (sx_signature d) 0 (take 32 rx)\<rparr>)" if "slix_room d" for d rx
    using that by (auto simp: slix_room_def length_memcpy_at)
  have p: "slix_room (d\<lparr>sx_protection_pointer := a, sx_protection_condition := b\<rparr>)" if "slix_room d" for d a b
    using that by (simp add: slix_room_def)
  show "keeps slix_room (slix_poller_read_sysinfo xc)"
  proof (rule keepsI)
    fix d t assume d: "slix_room d"
    show "slix_room (fst (snd (slix_poller_read_sysinfo xc (d, t))))"
      using d p unfolding slix_poller_read_sysinfo_def
      by (auto simp: io_case_def on_tag_def on_out_def io_return_def split: option.split prod.split sum.split)
  qed
  show "keeps slix_room (slix_poller_read_signature xc)"
  proof (rule keepsI)
    fix d t assume d: "slix_room d"
    show "slix_room (fst (snd (slix_poller_read_signature xc (d, t))))"
      using d s unfolding slix_poller_read_signature_def
      by (auto simp: io_case_def on_tag_def on_out_def io_return_def split: option.split prod.split sum.split)
  qed
qed

lemma slix_extras_spend:
  assumes "\<And>tx. spends f 1 (xc tx)"
  shows "spends (\<lambda>dt. f (snd dt)) 1 (slix_poller_read_sysinfo xc)" "spends (\<lambda>dt. f (snd dt)) 1 (slix_poller_read_signature xc)"
proof -
  have x: "f t' \<le> f t + 1" if "slix_poller_transceive_crc xc tx t = (r, t')" for tx t r t'
    by (rule spendsD [OF slix_transceive_spends [of f xc, OF assms] that])
  show "spends (\<lambda>dt. f (snd dt)) 1 (slix_poller_read_sysinfo xc)" "spends (\<lambda>dt. f (snd dt)) 1 (slix_poller_read_signature xc)"
    unfolding spends_def slix_poller_read_sysinfo_def slix_poller_read_signature_def
    using x by (auto simp: io_case_def on_tag_def on_out_def io_return_def split: option.split prod.split sum.split)
qed

text \<open>C33. The SLIX reader, and the ISO 15693-3 reader it starts with, in front of any tag: the reading ends after at most 136 exchanges,
  and no answer makes it write outside the arrays of its record; success means a recognised SLIX and a geometry that fits.\<close>

theorem slix_poller_read_any_tag:
  assumes "slix_poller_read (counted hal) session (d0, (t, 0)) = (r, (d, (t', n)))" "slix_room d0"
  shows "n \<le> 136 \<and> slix_room d \<and>
    (r = Inr () \<longrightarrow> sx_type d \<noteq> SLIX_TYPE_UNKNOWN \<and> (iv_block_count (sx_parent d) = 0 \<or> iso15693_good (sx_parent d)))"
proof (cases session)
  case (Some ses)
  let ?xc = "iso15693_3_xc (counted hal) session"
  have sp: "spends snd 1 (?xc tx)" for tx unfolding iso15693_3_xc_def by (rule spends_transceive)
  obtain r1 p t1 c1 where 1: "iso15693_3_poller_read (counted hal) session (sx_parent slix_data_reset, (t, 0)) = (r1, (p, (t1, c1)))"
    by (metis surj_pair)
  have p: "iso15693_room p" "c1 \<le> 134" "r1 = Inr () \<longrightarrow> iv_block_count p = 0 \<or> iso15693_good p"
    using iso15693_poller_read_any_tag [OF 1] iso15693_reset_room by (simp_all add: slix_data_reset_def)
  let ?d = "slix_data_reset\<lparr>sx_parent := p, sx_type := slix_type_from_uid (iv_uid p)\<rparr>"
  have room: "slix_room ?d" "slix_room (slix_data_reset\<lparr>sx_parent := p\<rparr>)" using p(1) slix_reset_room by (simp_all add: slix_room_def)
  obtain r2 d2 t2 where 2: "slix_poller_read_sysinfo ?xc (?d, (t1, c1)) = (r2, (d2, t2))" by (metis surj_pair)
  obtain r3 d3 t3 where 3: "slix_poller_read_signature ?xc (d2, t2) = (r3, (d3, t3))" by (metis surj_pair)
  have k: "slix_room d2" "slix_room d3"
    using keepsD [OF slix_extras_keep(1), of "(?d, (t1, c1))" ?xc] keepsD [OF slix_extras_keep(2), of "(d2, t2)" ?xc] room 2 3 by simp_all
  have c: "snd t2 \<le> 135" "snd t3 \<le> 136"
    using spendsD [OF slix_extras_spend(1) [of snd ?xc, OF sp] 2] spendsD [OF slix_extras_spend(2) [of snd ?xc, OF sp] 3] p(2) by simp_all
  have f: "sx_type d2 = sx_type ?d \<and> sx_parent d2 = p" "sx_type d3 = sx_type d2 \<and> sx_parent d3 = sx_parent d2"
    using 2 3 unfolding slix_poller_read_sysinfo_def slix_poller_read_signature_def
    by (auto simp: io_case_def on_tag_def on_out_def io_return_def split: option.splits prod.splits sum.splits if_splits)
  show ?thesis
    using assms(1) Some 1 2 3 p room k c f
    by (cases r1; cases r2) (auto simp: slix_poller_read_def Let_def io_bind_def split: if_splits)
qed (use assms in \<open>auto simp: slix_poller_read_def\<close>)

section \<open>The emulated card\<close>

abbreviation (input) slix_field :: "bytes \<Rightarrow> nat \<Rightarrow> (slix_listener, bytes) io" where
  "slix_field \<equiv> tag_loop slix_listener_on_tag_cmd"

text \<open>The card after a command of the parent.\<close>

definition slix_touched :: "slix_listener \<Rightarrow> slix_listener" where
  "slix_touched s = s\<lparr>sl_parent := (sl_parent s)\<lparr>il_model := sx_parent (sl_model s), il_initialized := True\<rparr>\<rparr>"

lemma slix_parent_frame:
  assumes "sl_initialized s" "sx_privacy_mode (sl_model s) = 0" "flags = 0x02 \<or> flags = 0x26" "cmd < 0xA0" "length data \<le> 28"
  shows "slix_listener_on_tag_cmd (Some (iso_framed (flags # cmd # data))) s =
    (slix_touched s, iso15693_3_listener_command (sx_parent (sl_model s)) cmd data)"
  using assms iso15693_listener_frame [of "(sl_parent s)\<lparr>il_model := sx_parent (sl_model s), il_initialized := True\<rparr>" flags data cmd]
  by (auto simp: slix_listener_on_tag_cmd_def Let_def slix_listener_is_slix_custom_def iso15693_3_listener_init_def slix_touched_def)

lemma slix_field_vicinity:
  assumes "rs_active ses" "sl_initialized s" "sx_privacy_mode (sl_model s) = 0"
  shows "vicinity (iso15693_3_xc slix_field (Some ses)) (sx_parent (sl_model s)) s (slix_touched s)"
proof -
  have t: "slix_touched (slix_touched s) = slix_touched s" "sl_model (slix_touched s) = sl_model s" "sl_initialized (slix_touched s)"
    using assms(2) by (simp_all add: slix_touched_def)
  show ?thesis
    using slix_parent_frame [OF assms(2,3)] slix_parent_frame [of "slix_touched s"] t assms
    by (auto simp: vicinity_def iso15693_3_xc_def tag_loop_def)
qed

text \<open>A command of the manufacturer, not addressed or with any identity.\<close>

lemma slix_custom_frame:
  assumes "sl_initialized s" "0xA0 \<le> cmd" "cmd < 0xC0" "length data \<le> 20" "length uid = 8"
  shows "slix_listener_on_tag_cmd (Some (iso_framed (0x22 # cmd # 0x04 # uid @ data))) s =
      slix_listener_handle_custom (0x22 # cmd # 0x04 # uid @ data) True s"
    "slix_listener_on_tag_cmd (Some (iso_framed (0x02 # cmd # 0x04 # data))) s =
      slix_listener_handle_custom (0x02 # cmd # 0x04 # data) False s"
  using assms by (simp_all add: slix_listener_on_tag_cmd_def Let_def slix_listener_is_slix_custom_def)

lemma slix_listener_send_eq: "length p \<le> 254 \<Longrightarrow> slix_listener_send p = [iso_framed p]"
  by (simp add: slix_listener_send_def iso15693_3_crc_append_eq)

lemma slix_request:
  assumes "slix_listener_on_tag_cmd (Some (iso_framed tx)) s = (s', [iso_framed rx])" "rs_active ses" "length tx \<le> 30" "rx \<noteq> []"
  shows "slix_poller_transceive_crc (iso15693_3_xc slix_field (Some ses)) tx s = (Inr rx, s')"
    "slix_poller_transceive (iso15693_3_xc slix_field (Some ses)) tx s = (Inr rx, s')"
  using assms by (simp_all add: slix_poller_transceive_crc_def slix_poller_transceive_def iso15693_3_crc_append_eq iso15693_3_xc_def
      tag_loop_def io_bind_def io_return_def)

lemma slix_uid_request:
  "slix_poller_prepare_request (Some uid) cmd False 32 = Some (0x22 # cmd # 0x04 # iso15693_3_append_uid_reversed uid)"
  "length (iso15693_3_append_uid_reversed uid) = 8"
  by (simp_all add: slix_poller_prepare_request_def iso15693_3_append_uid_reversed_def del: upt_rec_numeral)

lemma slix_sysinfo_reads:
  assumes "rs_active ses" "sl_initialized s" "sx_type d = SLIX_TYPE_SLIX2"
  shows "slix_poller_read_sysinfo (iso15693_3_xc slix_field (Some ses)) (d, s) =
    (Inr (), (d\<lparr>sx_protection_pointer := sx_protection_pointer (sl_model s), sx_protection_condition := sx_protection_condition (sl_model s)\<rparr>, s))"
proof -
  let ?u = "iso15693_3_append_uid_reversed (iv_uid (sx_parent d))"
  obtain x where "slix_listener_handle_custom (0x22 # 0xAB # 0x04 # ?u) True s =
      (s, [iso_framed (0 # sx_protection_pointer (sl_model s) # sx_protection_condition (sl_model s) # x)])"
    by (simp add: slix_listener_handle_custom_def slix_uid_request(2) slix_listener_handle_get_nxp_sysinfo_def slix_listener_send_eq Let_def)
  with slix_custom_frame(1) [OF assms(2), of "0xAB" "[]" ?u] slix_request(1) [OF _ assms(1)]
  have "slix_poller_transceive_crc (iso15693_3_xc slix_field (Some ses)) (0x22 # 0xAB # 0x04 # ?u) s =
      (Inr (0 # sx_protection_pointer (sl_model s) # sx_protection_condition (sl_model s) # x), s)"
    by (simp add: slix_uid_request(2))
  then show ?thesis using assms(3)
    by (simp add: slix_poller_read_sysinfo_def slix_type_has_nxp_sysinfo_def slix_uid_request(1) io_case_def on_tag_def on_out_def)
qed

lemma slix_signature_reads:
  assumes "rs_active ses" "sl_initialized s" "sx_type d = SLIX_TYPE_SLIX2" "length (sx_signature d) = 32" "length (sx_signature (sl_model s)) = 32"
  shows "slix_poller_read_signature (iso15693_3_xc slix_field (Some ses)) (d, s) =
    (Inr (), (d\<lparr>sx_signature := 0 # take 31 (sx_signature (sl_model s))\<rparr>, s))"
proof -
  let ?u = "iso15693_3_append_uid_reversed (iv_uid (sx_parent d))"
  have "slix_listener_handle_custom (0x22 # 0xBD # 0x04 # ?u) True s = (s, [iso_framed (0 # sx_signature (sl_model s))])"
    using assms(5) by (simp add: slix_listener_handle_custom_def slix_uid_request(2) slix_listener_handle_read_signature_def slix_listener_send_eq)
  with slix_custom_frame(1) [OF assms(2), of "0xBD" "[]" ?u] slix_request(1) [OF _ assms(1)]
  have "slix_poller_transceive_crc (iso15693_3_xc slix_field (Some ses)) (0x22 # 0xBD # 0x04 # ?u) s = (Inr (0 # sx_signature (sl_model s)), s)"
    by (simp add: slix_uid_request(2))
  moreover have "memcpy_at (sx_signature d) 0 (take 32 (0 # sx_signature (sl_model s))) = 0 # take 31 (sx_signature (sl_model s))"
    using assms(4,5) by (simp add: memcpy_at_0 take_Cons')
  ultimately show ?thesis using assms(3)
    by (simp add: slix_poller_read_signature_def slix_type_has_signature_def slix_uid_request(1) io_case_def on_tag_def on_out_def)
qed

text \<open>C31. The SLIX reader in front of an emulated card of up to 32 blocks: the memory is read completely, and of a SLIX2 the protection
  pointer and condition too.  The signature is not what the card holds: the reader keeps the flags byte of the answer in front of it
  and loses the last byte.\<close>

theorem slix_poller_reads_card:
  assumes "rs_active ses" "sl_initialized s" "sx_privacy_mode (sl_model s) = 0" "slix_room (sl_model s)" "iso15693_good (sx_parent (sl_model s))"
    "iv_block_count (sx_parent (sl_model s)) \<le> 32" "slix_type_from_uid (iv_uid (sx_parent (sl_model s))) = ty" "ty \<noteq> SLIX_TYPE_UNKNOWN"
  shows "\<exists>d. slix_poller_read slix_field (Some ses) (d0, s) = (Inr (), (d, slix_touched s)) \<and> sx_type d = ty \<and>
    iso15693_3_compare (Some (sx_parent (sl_model s))) (Some (sx_parent d)) = Inr () \<and>
    (if ty = SLIX_TYPE_SLIX2
     then sx_protection_pointer d = sx_protection_pointer (sl_model s) \<and> sx_protection_condition d = sx_protection_condition (sl_model s) \<and>
       sx_signature d = 0 # take 31 (sx_signature (sl_model s))
     else sx_signature d = replicate 32 0)"
proof -
  let ?m = "sl_model s" and ?xc = "iso15693_3_xc slix_field (Some ses)"
  let ?p = "iso15693_seen (sx_parent ?m)"
  let ?d = "slix_data_reset\<lparr>sx_parent := ?p, sx_type := ty\<rparr>"
  have v: "iso15693_3_poller_session_valid (Some ses)" using assms(1) by (simp add: iso15693_3_poller_session_valid_def)
  have 1: "iso15693_3_poller_read slix_field (Some ses) (sx_parent slix_data_reset, s) = (Inr (), (?p, slix_touched s))"
    using iso15693_reads_vicinity [OF slix_field_vicinity [OF assms(1-3)] assms(5) v, of "sx_parent slix_data_reset"] assms(6) by simp
  have u: "iv_uid ?p = iv_uid (sx_parent ?m)" by (simp add: iso15693_seen_def)
  have t: "sl_model (slix_touched s) = ?m" "sl_initialized (slix_touched s)" using assms(2) by (simp_all add: slix_touched_def)
  have l: "length (sx_signature ?d) = 32" "length (sx_signature ?m) = 32" using assms(4) by (simp_all add: slix_data_reset_def slix_room_def)
  note c = iso15693_seen_compare [OF assms(5)]
  show ?thesis
  proof (cases "ty = SLIX_TYPE_SLIX2")
    case True
    then show ?thesis using 1 u assms(7,8) t l c slix_sysinfo_reads [OF assms(1) t(2), of ?d]
        slix_signature_reads [OF assms(1) t(2), of "?d\<lparr>sx_protection_pointer := sx_protection_pointer ?m,
          sx_protection_condition := sx_protection_condition ?m\<rparr>"]
      by (simp add: slix_poller_read_def Let_def io_bind_def)
  next
    case False
    then show ?thesis using 1 u assms(7,8) c
      by (simp add: slix_poller_read_def Let_def io_bind_def slix_poller_read_sysinfo_def slix_poller_read_signature_def
          slix_type_has_nxp_sysinfo_def slix_type_has_signature_def) (simp add: slix_data_reset_def)
  qed
qed

section \<open>Passwords\<close>

lemma slix_password_ids:
  assumes "ty < 5" shows "slix_listener_password_type_from_id (push_bit ty 1) = ty"
proof -
  from assms consider "ty = 0" | "ty = 1" | "ty = 2" | "ty = 3" | "ty = 4" by linarith
  moreover have "[0..<5] = [0, 1, 2, 3, 4 :: nat]" by (simp add: upt_rec)
  ultimately show ?thesis by cases (simp_all add: slix_listener_password_type_from_id_def)
qed

lemma slix_set_password_handled:
  assumes "ty < 5" "length pw = 4" "length (sl_password_match s) = 5" "\<And>x. slix_listener_unxor_password x (sl_random s) = x XOR w"
  shows "slix_listener_handle_set_password (push_bit ty 1 # be32_bytes (be32 pw XOR w)) s =
    (if sx_capabilities (sl_model s) = 1 \<or> pw = sx_passwords (sl_model s) ! ty
     then (s\<lparr>sl_password_match := (sl_password_match s)[ty := True], sl_model := (if ty = 2 then (sl_model s)\<lparr>sx_privacy_mode := 0\<rparr> else sl_model s)\<rparr>,
       [iso_framed [0]])
     else (s, []))"
proof -
  have b: "length (be32_bytes x) = 4" for x by (simp add: be32_bytes_def)
  have "slix_listener_read_be32 x = be32 x" for x by (simp add: slix_listener_read_be32_def be32_def)
  then have "slix_listener_unxor_password (slix_listener_read_be32 (be32_bytes (be32 pw XOR w))) (sl_random s) = be32 pw"
    using assms(4) by (simp add: be32_be32_bytes xor.assoc)
  moreover have "[ucast (drop_bit 24 x AND 0xFF), ucast (drop_bit 16 x AND 0xFF), ucast (drop_bit 8 x AND 0xFF), ucast (x AND 0xFF)] = be32_bytes x"
    for x by (simp add: be32_bytes_def)
  ultimately show ?thesis
    using slix_password_ids [OF assms(1)] be32_bytes_be32 [OF assms(2)] assms b
    by (auto simp: slix_listener_handle_set_password_def slix_listener_check_password_def Let_def slix_listener_send_eq)
qed


definition sample_slix :: slix_listener where
  "sample_slix = \<lparr>sl_model = slix_data_reset\<lparr>sx_parent := iso15693_3_data_reset\<lparr>iv_uid := [0xE0, 4, 4, 1, 2, 3, 4, 5], iv_block_count := 2,
       iv_block_size := 4\<rparr>, sx_type := SLIX_TYPE_SLIX2, sx_passwords := replicate 5 [1, 2, 3, 4], sx_signature := replicate 32 7\<rparr>,
     sl_initialized = True, sl_password_match = replicate 5 False, sl_random = 0,
     sl_parent = \<lparr>il_model = iso15693_3_data_reset, il_initialized = False\<rparr>\<rparr>"

lemma sample_slix_facts:
  "sl_initialized sample_slix" "sx_privacy_mode (sl_model sample_slix) = 0" "slix_room (sl_model sample_slix)"
  "iso15693_good (sx_parent (sl_model sample_slix))" "iv_block_count (sx_parent (sl_model sample_slix)) \<le> 32"
  "slix_type_from_uid (iv_uid (sx_parent (sl_model sample_slix))) = SLIX_TYPE_SLIX2" "length (sl_password_match sample_slix) = 5"
  by (simp_all add: sample_slix_def slix_data_reset_def iso15693_3_data_reset_def slix_room_def list_all_iff iso15693_room_def
      iso15693_good_def iso15693_3_geometry_bad_def slix_type_from_uid_def)

theorem slix_poller_reads_card_witness:
  "\<exists>d. slix_poller_read slix_field (Some (nfc_reader_session_zero\<lparr>rs_active := True\<rparr>)) (slix_data_reset, sample_slix) =
     (Inr (), (d, slix_touched sample_slix)) \<and> sx_signature d = 0 # replicate 31 7"
proof -
  have "rs_active (nfc_reader_session_zero\<lparr>rs_active := True\<rparr>)" by simp
  from slix_poller_reads_card [OF this sample_slix_facts(1-6), of slix_data_reset] show ?thesis
    by (auto simp: sample_slix_def)
qed


theorem slix_poller_read_any_tag_witness:
  "slix_poller_read (counted no_tag) (Some (nfc_reader_session_zero\<lparr>rs_active := True\<rparr>)) (slix_data_reset, ((), 0)) =
     (Inl ETIMEDOUT, (slix_data_reset, ((), 1))) \<and> (1 :: nat) \<le> 136"
proof -
  have "slix_poller_read (counted no_tag) (Some (nfc_reader_session_zero\<lparr>rs_active := True\<rparr>)) (slix_data_reset, ((), 0)) =
     (Inl ETIMEDOUT, (slix_data_reset, ((), 1)))"
    by (simp add: slix_poller_read_def iso15693_poller_read_eval iso15693_3_poller_session_valid_def iso15693_3_poller_inventory_def
        iso15693_3_poller_send_frame_def iso15693_3_crc_append_eq iso15693_3_xc_def counted_def no_tag_def io_bind_def io_fail_def
        on_tag_def Let_def) (simp add: slix_data_reset_def)
  with slix_poller_read_any_tag [OF this slix_reset_room] show ?thesis by simp
qed

end
