(* ===== verification/Isodep_Field.thy ===== *)
theory Isodep_Field
  imports Apdu_Assembler Reader_Session
begin

text \<open>
  A field that holds one ISO-DEP card: the framing layer, the router and one service with its handlers.  A handler takes the state of
  its listener to the next one and the responses it sends; \<open>None\<close> is a run of the handler that C leaves undefined.  The two lemmas at the
  end are what the readers of ISO-DEP protocols see of such a field.
\<close>

section \<open>The service\<close>

record 'l isodep_handlers =
  ih_select :: "bytes \<Rightarrow> 'l \<Rightarrow> ('l \<times> bytes list) option"
  ih_apdu :: "nfc_apdu \<Rightarrow> 'l \<Rightarrow> ('l \<times> bytes list) option"
  ih_deselect :: "'l \<Rightarrow> 'l"

definition isodep_run :: "('l \<Rightarrow> ('l \<times> bytes list) option) \<Rightarrow> ('l \<times> bytes list) option \<Rightarrow> ('l \<times> bytes list) option" where
  "isodep_run f w = (case w of None \<Rightarrow> None | Some (l, sent) \<Rightarrow> map_option (\<lambda>(l', r). (l', sent @ r)) (f l))"

definition isodep_service :: "'l isodep_handlers \<Rightarrow> (('l \<times> bytes list) option) nfc_service" where
  "isodep_service h = \<lparr>svc_on_select = Some (\<lambda>aid. isodep_run (ih_select h aid)), svc_on_apdu = Some (\<lambda>a. isodep_run (ih_apdu h a)),
     svc_on_tag_cmd = None, svc_on_deselect = Some (isodep_run (\<lambda>l. Some (ih_deselect h l, []))),
     svc_on_field_off = Some (isodep_run (\<lambda>l. Some (ih_deselect h l, []))),
     svc_serialize = None, svc_deserialize = None, svc_persist_id = 0\<rparr>"

definition isodep_send :: "bytes \<Rightarrow> ('l \<times> bytes list) option \<Rightarrow> unit result \<times> ('l \<times> bytes list) option" where
  "isodep_send b w = (Inr (), map_option (\<lambda>(l, sent). (l, sent @ [b])) w)"

section \<open>The field\<close>

type_synonym 'l isodep = "apdu_assembler \<times> unit aid_router \<times> 'l"

definition isodep_field :: "'l isodep_handlers \<Rightarrow> bytes \<Rightarrow> nat \<Rightarrow> ('l isodep, bytes) io" where
  "isodep_field h tx n srl = (case srl of (s, r, l) \<Rightarrow>
     (case apdu_assembler_on_apdu_handler (\<lambda>_. isodep_service h) isodep_send (Some tx) (s, r, Some (l, [])) of
        ((s', r', w), _) \<Rightarrow> (case w of
          None \<Rightarrow> (Inl (EOther 14), (s', r', l))
        | Some (l', []) \<Rightarrow> (Inl ETIMEDOUT, (s', r', l'))
        | Some (l', b # _) \<Rightarrow> (Inr b, (s', r', l')))))"

definition isodep_up :: "(bytes \<Rightarrow> unit option) \<Rightarrow> unit option \<Rightarrow> 'l isodep \<Rightarrow> bool" where
  "isodep_up aids cur srl \<longleftrightarrow> (case srl of (s, r, l) \<Rightarrow>
     fa_state s = INITIALIZED \<and> router_inv r \<and> rt_state r = INITIALIZED \<and> aid_map r = aids \<and> rt_active r = cur)"

abbreviation (input) isodep_card :: "'l isodep \<Rightarrow> 'l" where "isodep_card srl \<equiv> snd (snd srl)"

lemma isodep_exchange:
  assumes up: "isodep_up aids cur st" and p: "\<And>ext. apdu_parse (Some tx) ext = Inr a"
    and route: "route_spec aids a cur = (Some (), [act])"
    and run: "run_action (\<lambda>_. isodep_service h) isodep_send act (Some (isodep_card st, [])) = Some (l', b # rs)"
  shows "\<exists>st'. isodep_field h tx n st = (Inr b, st') \<and> isodep_up aids (Some ()) st' \<and> isodep_card st' = l'"
proof -
  obtain s r l where st: "st = (s, r, l)" by (cases st)
  from up st have u: "fa_state s = INITIALIZED" "router_inv r" "rt_state r = INITIALIZED" "aid_map r = aids" "rt_active r = cur"
    by (simp_all add: isodep_up_def)
  obtain r' w' where d: "aid_router_dispatch (\<lambda>_. isodep_service h) isodep_send (Some a) (r, Some (l, [])) = (r', w')" by (metis surj_pair)
  from aid_router_dispatch_refines [OF u(2,3) apdu_parse_in_frame [OF p], of "\<lambda>_. isodep_service h" isodep_send "Some (l, [])"] route u d run st
  have r': "rt_active r' = Some ()" "w' = Some (l', b # rs)" "aid_map r' = aids" "rt_state r' = INITIALIZED" by simp_all
  moreover have "router_inv r'" using router_inv_dispatch [OF u(2)] d by (metis fst_conv)
  ultimately show ?thesis
    using d p u st by (simp add: isodep_field_def apdu_assembler_on_apdu_handler_def Let_def isodep_up_def fa_upd_def)
qed

lemma isodep_select:
  assumes "isodep_up aids cur st" "aids aid = Some ()" "aid \<noteq> []" "length aid < 256" "ih_select h aid (isodep_card st) = Some (l', b # rs)"
  shows "\<exists>st'. isodep_field h (apdu_encode 0x00 0xA4 0x04 p2 aid le) n st = (Inr b, st') \<and> isodep_up aids (Some ()) st' \<and> isodep_card st' = l'"
proof (rule isodep_exchange [OF assms(1)])
  let ?a = "\<lparr>apdu_cla = 0, apdu_ins = 0xA4, apdu_p1 = 4, apdu_p2 = p2, apdu_data = Some (aid @ (case le of None \<Rightarrow> [] | Some l \<Rightarrow> [l])),
    apdu_lc = of_nat (length aid), apdu_le = (case le of None \<Rightarrow> 0 | Some l \<Rightarrow> ucast l), apdu_has_le = (le \<noteq> None), apdu_extended = False\<rparr>"
  show "apdu_parse (Some (apdu_encode 0x00 0xA4 0x04 p2 aid le)) ext = Inr ?a" for ext
    using apdu_parse_short_body [OF assms(3,4)] by simp
  have l: "unat (of_nat (length aid) :: u16) = length aid" using assms(4) by (simp add: unat_of_nat)
  then have "apdu_body ?a = aid" by (simp add: apdu_body_def)
  moreover have "(0 :: u16) < of_nat (length aid)" using l assms(3) by (simp add: word_less_nat_alt)
  ultimately show "route_spec aids ?a cur = (Some (), [Act_Select () aid])"
    using assms(2) by (cases cur) (simp_all add: route_spec_def apdu_is_select_by_aid_def)
  show "run_action (\<lambda>_. isodep_service h) isodep_send (Act_Select () aid) (Some (isodep_card st, [])) = Some (l', b # rs)"
    using assms(5) by (simp add: isodep_service_def call_opt_def isodep_run_def)
qed

lemma isodep_command:
  assumes "isodep_up aids (Some ()) st" "\<And>ext. apdu_parse (Some tx) ext = Inr a" "\<not> apdu_is_select_by_aid a"
    "ih_apdu h a (isodep_card st) = Some (l', b # rs)"
  shows "\<exists>st'. isodep_field h tx n st = (Inr b, st') \<and> isodep_up aids (Some ()) st' \<and> isodep_card st' = l'"
  by (rule isodep_exchange [OF assms(1,2), where act = "Act_Deliver () a"])
    (use assms(3,4) in \<open>simp_all add: route_spec_def isodep_service_def call_opt_def isodep_run_def\<close>)

section \<open>Power-up\<close>

text \<open>The framing layer and the router after their \<open>init\<close>, with the identifiers of the service registered.\<close>

definition isodep_boot :: "bytes list \<Rightarrow> 'l \<Rightarrow> 'l isodep" where
  "isodep_boot aids l = (apdu_assembler_boot\<lparr>fa_state := INITIALIZED\<rparr>,
     snd (register_seq (\<lambda>a p. aid_router_register (Some a) (Some p)) (map (\<lambda>a. (a, ())) aids) (snd (aid_router_init aid_router_boot))), l)"

lemma isodep_boot_up:
  assumes "\<forall>a \<in> set aids. a \<noteq> [] \<and> length a \<le> 16" "length aids \<le> CONFIG_NFC_ROUTER_MAX_AIDS"
  shows "\<exists>cur. isodep_up (map_of (map (\<lambda>a. (a, ())) aids)) cur (isodep_boot aids l)"
proof -
  let ?r = "snd (aid_router_init aid_router_boot) :: unit aid_router"
  have r: "router_inv ?r" "rt_state ?r = INITIALIZED" "live_entries ?r = []"
    using router_inv_init [OF router_inv_boot] by (simp_all add: aid_router_init_def aid_router_boot_def live_entries_def)
  moreover have "aid_map ?r = Map.empty" using r(3) by (simp add: aid_map_def)
  ultimately obtain r' where "register_seq (\<lambda>a p. aid_router_register (Some a) (Some p)) (map (\<lambda>a. (a, ())) aids) ?r = (Inr (), r')"
    "router_inv r'" "rt_state r' = INITIALIZED" "aid_map r' = map_of (map (\<lambda>a. (a, ())) aids)"
    using aidreg.register_seq_ok [of ?r "map (\<lambda>a. (a, ())) aids"] assms by (auto simp: fun_eq_iff)
  then show ?thesis by (auto simp: isodep_up_def isodep_boot_def apdu_assembler_boot_def)
qed

end
