(* ===== verification/Emv.thy ===== *)
theory Emv
  imports Isodep_Field
begin

text \<open>
  EMV contactless: the card image with its persistent encoding (\<open>protocols/emv/emv.c\<close>), the emulated card (\<open>emv_listener.c\<close>) and the
  reader (\<open>emv_poller.c\<close>).  Two things of the source show in the types.  A record that is written past an array makes the list longer,
  and an array read out of range makes a handler of the emulated card \<open>None\<close>.  The loop of the reader over the records need not end: it is
  a partial function, and not returning is \<open>None\<close>.
\<close>

section \<open>Card image\<close>

abbreviation (input) CONFIG_NFC_EMV_MAX_RECORDS :: nat where "CONFIG_NFC_EMV_MAX_RECORDS \<equiv> 2"
abbreviation (input) CONFIG_NFC_EMV_RECORD_SIZE :: nat where "CONFIG_NFC_EMV_RECORD_SIZE \<equiv> 64"
abbreviation (input) EMV_FORMAT_VERSION :: u8 where "EMV_FORMAT_VERSION \<equiv> 0x01"
abbreviation (input) EMV_PPSE_AID_LEN :: nat where "EMV_PPSE_AID_LEN \<equiv> 14"
abbreviation (input) EMV_SERVICE_APP_AID_LEN :: nat where "EMV_SERVICE_APP_AID_LEN \<equiv> 7"
abbreviation (input) EMV_PAN_BYTES :: nat where "EMV_PAN_BYTES \<equiv> 8"
abbreviation (input) EMV_EXPIRY_BYTES :: nat where "EMV_EXPIRY_BYTES \<equiv> 3"
abbreviation (input) EMV_NAME_BYTES :: nat where "EMV_NAME_BYTES \<equiv> 26"
abbreviation (input) EMV_TRACK2_MAX_BYTES :: nat where "EMV_TRACK2_MAX_BYTES \<equiv> 19"
abbreviation (input) EMV_AIP_BYTES :: nat where "EMV_AIP_BYTES \<equiv> 2"
abbreviation (input) EMV_AFL_BYTES :: nat where "EMV_AFL_BYTES \<equiv> 4"
abbreviation (input) EMV_APP_AID_MAX_BYTES :: nat where "EMV_APP_AID_MAX_BYTES \<equiv> 16"
abbreviation (input) EMV_TAG_RECORD_TMPL :: u8 where "EMV_TAG_RECORD_TMPL \<equiv> 0x70"
abbreviation (input) EMV_TAG_RESP_TMPL_FMT1 :: u8 where "EMV_TAG_RESP_TMPL_FMT1 \<equiv> 0x80"

definition emv_ppse_aid :: bytes where
  "emv_ppse_aid = [0x32, 0x50, 0x41, 0x59, 0x2E, 0x53, 0x59, 0x53, 0x2E, 0x44, 0x44, 0x46, 0x30, 0x31]"

definition emv_service_app_aid :: bytes where
  "emv_service_app_aid = [0xA0, 0x00, 0x00, 0x00, 0x03, 0x10, 0x10]"

record emv_card_image =
  em_pan :: bytes
  em_pan_len :: u8
  em_expiry :: bytes
  em_name :: bytes
  em_track2 :: bytes
  em_track2_len :: u8
  em_aip :: bytes
  em_afl :: bytes
  em_app_aid :: bytes
  em_app_aid_len :: u8
  em_record_count :: u8
  em_record_len :: bytes
  em_record_data :: "bytes list"

definition emv_card_image_reset :: emv_card_image where
  "emv_card_image_reset = \<lparr>em_pan = replicate EMV_PAN_BYTES 0, em_pan_len = 0, em_expiry = replicate EMV_EXPIRY_BYTES 0,
     em_name = replicate EMV_NAME_BYTES 0, em_track2 = replicate EMV_TRACK2_MAX_BYTES 0, em_track2_len = 0, em_aip = replicate EMV_AIP_BYTES 0,
     em_afl = replicate EMV_AFL_BYTES 0, em_app_aid = replicate EMV_APP_AID_MAX_BYTES 0, em_app_aid_len = 0, em_record_count = 0,
     em_record_len = replicate CONFIG_NFC_EMV_MAX_RECORDS 0,
     em_record_data = replicate CONFIG_NFC_EMV_MAX_RECORDS (replicate CONFIG_NFC_EMV_RECORD_SIZE 0)\<rparr>"

record emv_tlv_writer =
  tw_buf :: bytes
  tw_cap :: nat
  tw_pos :: nat
  tw_error :: bool

definition emv_tlv_init :: "bytes \<Rightarrow> nat \<Rightarrow> emv_tlv_writer" where
  "emv_tlv_init buf cap = \<lparr>tw_buf = buf, tw_cap = cap, tw_pos = 0, tw_error = False\<rparr>"

definition emv_tlv_put_u8 :: "u8 \<Rightarrow> emv_tlv_writer \<Rightarrow> emv_tlv_writer" where
  "emv_tlv_put_u8 v w =
     (if tw_error w \<or> tw_cap w \<le> tw_pos w then w\<lparr>tw_error := True\<rparr>
      else w\<lparr>tw_buf := memcpy_at (tw_buf w) (tw_pos w) [v], tw_pos := tw_pos w + 1\<rparr>)"

definition emv_tlv_put_bytes :: "bytes \<Rightarrow> emv_tlv_writer \<Rightarrow> emv_tlv_writer" where
  "emv_tlv_put_bytes data w = fold emv_tlv_put_u8 data w"

definition emv_tlv_put_len :: "nat \<Rightarrow> emv_tlv_writer \<Rightarrow> emv_tlv_writer" where
  "emv_tlv_put_len len w = emv_tlv_put_u8 (lo8 len) w"

definition emv_tlv_open :: "u8 \<Rightarrow> emv_tlv_writer \<Rightarrow> emv_tlv_writer" where
  "emv_tlv_open tag w = emv_tlv_put_u8 0 (emv_tlv_put_u8 tag w)"

definition emv_tlv_close :: "nat \<Rightarrow> emv_tlv_writer \<Rightarrow> emv_tlv_writer" where
  "emv_tlv_close start w =
     (let len = tw_pos w - start - 1 in
      if tw_error w \<or> 0x7F < len then w\<lparr>tw_error := True\<rparr> else w\<lparr>tw_buf := memcpy_at (tw_buf w) start [lo8 len]\<rparr>)"

definition emv_build_record0 :: "emv_card_image \<Rightarrow> unit result \<times> emv_card_image" where
  "emv_build_record0 img =
     (let w = emv_tlv_open EMV_TAG_RECORD_TMPL (emv_tlv_init (em_record_data img ! 0) CONFIG_NFC_EMV_RECORD_SIZE);
          pan_bytes = min (unat (em_pan_len img) div 2) EMV_PAN_BYTES;
          w = (if 0 < pan_bytes then emv_tlv_put_bytes (take pan_bytes (em_pan img)) (emv_tlv_put_len pan_bytes (emv_tlv_put_u8 0x5A w)) else w);
          w = emv_tlv_close 1 (emv_tlv_put_bytes (take (unat (em_track2_len img)) (em_track2 img))
                (emv_tlv_put_len (unat (em_track2_len img)) (emv_tlv_put_u8 0x57 w)));
          img = img\<lparr>em_record_data := (em_record_data img)[0 := tw_buf w]\<rparr> in
      if tw_error w then (Inl ENOSPC, img)
      else (Inr (), img\<lparr>em_record_len := (em_record_len img)[0 := lo8 (tw_pos w)], em_record_count := 1\<rparr>))"

definition emv_card_image_load_default :: emv_card_image where
  "emv_card_image_load_default =
     (let img = emv_card_image_reset in
      snd (emv_build_record0 (img\<lparr>em_pan := replicate 8 0x99, em_pan_len := 16, em_expiry := [0x99, 0x12, 0x31],
        em_name := [0x54, 0x45, 0x53, 0x54, 0x2F, 0x43, 0x41, 0x52, 0x44] @ replicate 17 0x20,
        em_track2 := memcpy_at (em_track2 img) 0 (replicate 8 0x99 @ [0xD9, 0x12, 0x31, 0, 0, 0, 0, 0x0F]), em_track2_len := 16,
        em_aip := [0, 0], em_afl := [0x08, 0x01, 0x01, 0x00],
        em_app_aid := memcpy_at (em_app_aid img) 0 emv_service_app_aid, em_app_aid_len := 7\<rparr>)))"

definition emv_rebuild_caches :: "emv_card_image \<Rightarrow> unit result" where
  "emv_rebuild_caches img =
     (if em_app_aid_len img = 0 \<or> EMV_APP_AID_MAX_BYTES < unat (em_app_aid_len img) then Inl EBADMSG else Inr ())"

definition emv_serialize :: "emv_card_image option \<Rightarrow> nat option \<Rightarrow> bytes result" where
  "emv_serialize img out = (case (img, out) of
     (Some m, Some out_max) \<Rightarrow>
       let need = 84 + sum_list (map (\<lambda>i. 1 + unat (em_record_len m ! i)) [0..<unat (em_record_count m)]) in
       if out_max < need then Inl ENOSPC
       else Inr ([EMV_FORMAT_VERSION, em_pan_len m] @ take EMV_PAN_BYTES (em_pan m) @ take EMV_EXPIRY_BYTES (em_expiry m)
         @ take EMV_NAME_BYTES (em_name m) @ [em_track2_len m] @ take EMV_TRACK2_MAX_BYTES (em_track2 m) @ take EMV_AIP_BYTES (em_aip m)
         @ take EMV_AFL_BYTES (em_afl m) @ [em_app_aid_len m] @ take EMV_APP_AID_MAX_BYTES (em_app_aid m) @ [em_record_count m]
         @ concat (map (\<lambda>i. em_record_len m ! i # take (unat (em_record_len m ! i)) (em_record_data m ! i)) [0..<unat (em_record_count m)]))
   | _ \<Rightarrow> Inl EINVAL)"

text \<open>The records \<open>is\<close> still to read from offset \<open>offset\<close>; no check keeps a record number or length within the arrays.\<close>

fun emv_read_records :: "bytes \<Rightarrow> nat list \<Rightarrow> nat \<Rightarrow> emv_card_image \<Rightarrow> nat result \<times> emv_card_image" where
  "emv_read_records inp [] offset m = (Inr offset, m)"
| "emv_read_records inp (i # is) offset m =
     (if length inp \<le> offset then (Inl EBADMSG, m)
      else
        let len = inp ! offset; m = m\<lparr>em_record_len := memcpy_at (em_record_len m) i [len]\<rparr> in
        if length inp < offset + 1 + unat len then (Inl EBADMSG, m)
        else
          let row = memcpy_at (if i < length (em_record_data m) then em_record_data m ! i else []) 0 (sub_bytes (offset + 1) (unat len) inp) in
          emv_read_records inp is (offset + 1 + unat len) (m\<lparr>em_record_data := memcpy_at (em_record_data m) i [row]\<rparr>))"

definition emv_deserialize :: "bytes option \<Rightarrow> emv_card_image \<Rightarrow> unit result \<times> emv_card_image" where
  "emv_deserialize inp m = (case inp of
     None \<Rightarrow> (Inl EINVAL, m)
   | Some i \<Rightarrow>
     if length i < 84 then (Inl EINVAL, m)
     else
       let m = emv_card_image_reset in
       if i ! 0 \<noteq> EMV_FORMAT_VERSION then (Inl EBADMSG, m)
       else
         let m = m\<lparr>em_pan_len := i ! 1, em_pan := sub_bytes 2 EMV_PAN_BYTES i, em_expiry := sub_bytes 10 EMV_EXPIRY_BYTES i,
               em_name := sub_bytes 13 EMV_NAME_BYTES i, em_track2_len := i ! 39, em_track2 := sub_bytes 40 EMV_TRACK2_MAX_BYTES i,
               em_aip := sub_bytes 59 EMV_AIP_BYTES i, em_afl := sub_bytes 61 EMV_AFL_BYTES i, em_app_aid_len := i ! 65,
               em_app_aid := sub_bytes 66 EMV_APP_AID_MAX_BYTES i\<rparr> in
         if EMV_APP_AID_MAX_BYTES < unat (em_app_aid_len m) then (Inl EBADMSG, m)
         else
           let m = m\<lparr>em_record_count := i ! 82\<rparr> in
           case emv_read_records i [0..<unat (em_record_count m)] 83 m of
             (Inl e, m) \<Rightarrow> (Inl e, m)
           | (Inr offset, m) \<Rightarrow> if offset = length i then (emv_rebuild_caches m, m) else (Inl EBADMSG, m))"

section \<open>The emulated card\<close>

datatype emv_session_state = EMV_SESSION_IDLE | EMV_SESSION_PPSE_SELECTED | EMV_SESSION_APP_SELECTED | EMV_SESSION_GPO_DONE

abbreviation (input) EMV_INS_GPO :: u8 where "EMV_INS_GPO \<equiv> 0xA8"
abbreviation (input) EMV_INS_READ_RECORD :: u8 where "EMV_INS_READ_RECORD \<equiv> 0xB2"
abbreviation (input) EMV_CLA_GP :: u8 where "EMV_CLA_GP \<equiv> 0x80"

text \<open>The wire buffers with their lengths are byte lists.\<close>

record emv_listener =
  el_image :: emv_card_image
  el_session :: emv_session_state
  el_initialized :: bool
  el_ppse_fci :: bytes
  el_app_fci :: bytes
  el_gpo :: bytes

definition emv_listener_rebuild_wire :: "emv_card_image \<Rightarrow> emv_listener \<Rightarrow> emv_listener" where
  "emv_listener_rebuild_wire img s =
     (let aid = take (unat (em_app_aid_len img)) (em_app_aid img) in
      s\<lparr>el_ppse_fci := [0x6F, 0x1E, 0x84, of_nat EMV_PPSE_AID_LEN] @ emv_ppse_aid
          @ [0xA5, 0x10, 0xBF, 0x0C, 0x0E, 0x61, 0x0C, 0x4F, em_app_aid_len img] @ aid @ [0x87, 0x01, 0x01],
        el_app_fci := [0x6F, 0x12, 0x84, em_app_aid_len img] @ aid
          @ [0xA5, 0x07, 0x50, 0x04, 0x56, 0x49, 0x53, 0x41, 0x87, 0x01, 0x01],
        el_gpo := [EMV_TAG_RESP_TMPL_FMT1, 0x06, em_aip img ! 0, em_aip img ! 1] @ take EMV_AFL_BYTES (em_afl img)\<rparr>)"

definition emv_listener_send :: "bytes \<Rightarrow> nat \<Rightarrow> bytes list" where
  "emv_listener_send data sw =
     (if NFC_TRANSPORT_MAX_RESPONSE_LEN < length data + 2 then [sw_bytes NFC_SW_CONDITIONS_NOT_SAT] else [data @ sw_bytes sw])"

definition emv_listener_on_select :: "bytes \<Rightarrow> emv_listener \<Rightarrow> emv_listener \<times> bytes list" where
  "emv_listener_on_select aid s =
     (if length aid = EMV_PPSE_AID_LEN \<and> aid = emv_ppse_aid then
        (s\<lparr>el_session := EMV_SESSION_PPSE_SELECTED\<rparr>, emv_listener_send (el_ppse_fci s) NFC_SW_OK)
      else if length aid = unat (em_app_aid_len (el_image s)) \<and> aid = take (length aid) (em_app_aid (el_image s)) then
        (s\<lparr>el_session := EMV_SESSION_APP_SELECTED\<rparr>, emv_listener_send (el_app_fci s) NFC_SW_OK)
      else (s\<lparr>el_session := EMV_SESSION_IDLE\<rparr>, emv_listener_send [] NFC_SW_FILE_NOT_FOUND))"

text \<open>The \<open>record_len[rec_no - 1]\<close> bytes at \<open>record_data[rec_no - 1]\<close>, when both lie in the arrays.\<close>

definition emv_record :: "emv_card_image \<Rightarrow> u8 \<Rightarrow> bytes option" where
  "emv_record m rec_no =
     (let i = unat rec_no - 1 in
      if rec_no = 0 \<or> length (em_record_len m) \<le> i \<or> length (em_record_data m) \<le> i then None
      else if length (em_record_data m ! i) < unat (em_record_len m ! i) then None
      else Some (take (unat (em_record_len m ! i)) (em_record_data m ! i)))"

definition emv_listener_on_apdu :: "nfc_apdu option \<Rightarrow> emv_listener \<Rightarrow> (emv_listener \<times> bytes list) option" where
  "emv_listener_on_apdu apdu s = (case apdu of
     None \<Rightarrow> Some (s, emv_listener_send [] NFC_SW_CONDITIONS_NOT_SAT)
   | Some a \<Rightarrow>
     if apdu_cla a = EMV_CLA_GP \<and> apdu_ins a = EMV_INS_GPO then
       if el_session s \<noteq> EMV_SESSION_APP_SELECTED then Some (s, emv_listener_send [] NFC_SW_CONDITIONS_NOT_SAT)
       else Some (s\<lparr>el_session := EMV_SESSION_GPO_DONE\<rparr>, emv_listener_send (el_gpo s) NFC_SW_OK)
     else if apdu_cla a = NFC_CLA_ISO7816 \<and> apdu_ins a = EMV_INS_READ_RECORD then
       if el_session s \<noteq> EMV_SESSION_GPO_DONE then Some (s, emv_listener_send [] NFC_SW_CONDITIONS_NOT_SAT)
       else if apdu_p2 a AND 0x07 \<noteq> 0x04 then Some (s, emv_listener_send [] NFC_SW_WRONG_P1P2)
       else
         let sfi = drop_bit 3 (apdu_p2 a) AND 0x1F; rec_no = apdu_p1 a; afl = em_afl (el_image s) in
         if sfi \<noteq> drop_bit 3 (afl ! 0) \<or> rec_no < afl ! 1 \<or> afl ! 2 < rec_no then Some (s, emv_listener_send [] 0x6A83)
         else map_option (\<lambda>data. (s, emv_listener_send data NFC_SW_OK)) (emv_record (el_image s) rec_no)
     else Some (s, emv_listener_send [] NFC_SW_INS_NOT_SUPPORTED))"

definition emv_listener_on_deselect :: "emv_listener \<Rightarrow> emv_listener" where
  "emv_listener_on_deselect s = s\<lparr>el_session := EMV_SESSION_IDLE\<rparr>"

definition emv_listener_on_field_off :: "emv_listener \<Rightarrow> emv_listener" where
  "emv_listener_on_field_off s = s\<lparr>el_session := EMV_SESSION_IDLE\<rparr>"

definition emv_listener_serialize :: "nat option \<Rightarrow> emv_listener \<Rightarrow> bytes result" where
  "emv_listener_serialize out s = emv_serialize (Some (el_image s)) out"

definition emv_listener_deserialize :: "bytes option \<Rightarrow> emv_listener \<Rightarrow> unit result \<times> emv_listener" where
  "emv_listener_deserialize inp s = (case emv_deserialize inp (el_image s) of
     (Inl e, m) \<Rightarrow> (Inl e, s\<lparr>el_image := m\<rparr>)
   | (Inr _, m) \<Rightarrow> (Inr (), (emv_listener_rebuild_wire m (s\<lparr>el_image := m\<rparr>))\<lparr>el_session := EMV_SESSION_IDLE\<rparr>))"

definition emv_listener_init :: "emv_card_image option \<Rightarrow> emv_listener \<Rightarrow> unit result \<times> emv_listener" where
  "emv_listener_init img s =
     (let m = (case img of Some m \<Rightarrow> m | None \<Rightarrow> emv_card_image_load_default) in
      (Inr (), (emv_listener_rebuild_wire m (s\<lparr>el_image := m\<rparr>))\<lparr>el_session := EMV_SESSION_IDLE, el_initialized := True\<rparr>))"

definition emv_listener_shutdown :: "emv_listener \<Rightarrow> unit result \<times> emv_listener" where
  "emv_listener_shutdown s = (Inr (), s\<lparr>el_session := EMV_SESSION_IDLE, el_initialized := False\<rparr>)"

definition emv_listener_session_state :: "emv_listener \<Rightarrow> emv_session_state" where
  "emv_listener_session_state s = el_session s"

section \<open>The reader\<close>

abbreviation (input) EMV_TAG_AID :: u8 where "EMV_TAG_AID \<equiv> 0x4F"
abbreviation (input) EMV_TAG_PAN :: u8 where "EMV_TAG_PAN \<equiv> 0x5A"
abbreviation (input) EMV_TAG_TRACK2 :: u8 where "EMV_TAG_TRACK2 \<equiv> 0x57"

definition emv_poller_sw_ok :: "bytes \<Rightarrow> unit result" where
  "emv_poller_sw_ok rx =
     (if length rx < 2 then Inl EIO
      else if rx ! (length rx - 2) = 0x90 \<and> rx ! (length rx - 1) = 0x00 then Inr ()
      else Inl EIO)"

definition emv_poller_transceive :: "(bytes \<Rightarrow> nat \<Rightarrow> ('t, bytes) io) \<Rightarrow> nfc_reader_session option \<Rightarrow> bytes \<Rightarrow> ('t, bytes) io" where
  "emv_poller_transceive hal session tx = nfc_reader_session_transceive hal session tx NFC_TRANSPORT_MAX_RESPONSE_LEN"

text \<open>The positions \<open>is\<close> still to look at.\<close>

fun emv_find_aid :: "bytes \<Rightarrow> nat \<Rightarrow> nat list \<Rightarrow> bytes result" where
  "emv_find_aid payload aid_max [] = Inl EBADMSG"
| "emv_find_aid payload aid_max (i # is) =
     (if payload ! i \<noteq> EMV_TAG_AID then emv_find_aid payload aid_max is
      else
        let alen = unat (payload ! (i + 1)) in
        if alen = 0 \<or> aid_max < alen \<or> length payload < i + 2 + alen then emv_find_aid payload aid_max is
        else Inr (sub_bytes (i + 2) alen payload))"

definition emv_poller_parse_ppse_aid :: "bytes \<Rightarrow> nat \<Rightarrow> bytes result" where
  "emv_poller_parse_ppse_aid payload aid_max = emv_find_aid payload aid_max [0..<length payload - 2]"

function emv_record_tlvs :: "bytes \<Rightarrow> nat \<Rightarrow> nat \<Rightarrow> emv_card_image \<Rightarrow> emv_card_image" where
  "emv_record_tlvs data end_pos pos m =
     (if \<not> pos + 2 \<le> end_pos then m
      else
        let tag = data ! pos; tlen = unat (data ! (pos + 1)); pos = pos + 2 in
        if end_pos < pos + tlen then m
        else if tag = EMV_TAG_TRACK2 then
          let n = min tlen EMV_TRACK2_MAX_BYTES in
          emv_record_tlvs data end_pos (pos + tlen)
            (m\<lparr>em_track2_len := of_nat n, em_track2 := memcpy_at (em_track2 m) 0 (sub_bytes pos n data)\<rparr>)
        else if tag = EMV_TAG_PAN then
          let n = min tlen EMV_PAN_BYTES in
          emv_record_tlvs data end_pos (pos + n)
            (m\<lparr>em_pan_len := of_nat (tlen * 2), em_pan := memcpy_at (em_pan m) 0 (sub_bytes pos n data)\<rparr>)
        else emv_record_tlvs data end_pos (pos + tlen) m)"
  by pat_completeness auto
termination
  by (relation "measure (\<lambda>(data, e, p, m). e - p)") auto

declare emv_record_tlvs.simps [simp del]

definition emv_poller_parse_record_tlv :: "bytes \<Rightarrow> emv_card_image \<Rightarrow> emv_card_image" where
  "emv_poller_parse_record_tlv data m =
     (if length data < 2 then m
      else if data ! 0 = EMV_TAG_RECORD_TMPL then
        emv_record_tlvs data (if unat (data ! 1) < length data - 2 then 2 + unat (data ! 1) else length data) 2 m
      else emv_record_tlvs data (length data) 0 m)"

text \<open>A command with its status word checked.\<close>

definition emv_poller_command :: "(bytes \<Rightarrow> ('t, bytes) io) \<Rightarrow> bytes \<Rightarrow> ('t, bytes) io" where
  "emv_poller_command xc tx = io_bind (xc tx) (\<lambda>rx. case emv_poller_sw_ok rx of Inl e \<Rightarrow> io_fail e | Inr _ \<Rightarrow> io_return rx)"

definition emv_poller_detect ::
  "(bytes \<Rightarrow> nat \<Rightarrow> ('t, bytes) io) \<Rightarrow> nfc_reader_session option \<Rightarrow> ('t, unit) io" where
  "emv_poller_detect hal session =
     (if (case session of None \<Rightarrow> True | Some s \<Rightarrow> \<not> rs_active s) then io_fail EINVAL
      else io_case (emv_poller_transceive hal session ([0x00, 0xA4, 0x04, 0x00, of_nat EMV_PPSE_AID_LEN] @ emv_ppse_aid))
        (\<lambda>_. io_fail ENOTSUP) (\<lambda>rx. case emv_poller_sw_ok rx of Inl e \<Rightarrow> io_fail e | Inr _ \<Rightarrow> io_return ()))"

text \<open>The selection of the application and its processing options.\<close>

definition emv_poller_select :: "(bytes \<Rightarrow> ('t, bytes) io) \<Rightarrow> (emv_card_image \<times> 't, unit) io" where
  "emv_poller_select xc =
     io_bind (on_tag (emv_poller_command xc ([0x00, 0xA4, 0x04, 0x00, of_nat EMV_PPSE_AID_LEN] @ emv_ppse_aid))) (\<lambda>rx.
     case emv_poller_parse_ppse_aid (take (length rx - 2) rx) EMV_APP_AID_MAX_BYTES of
       Inl e \<Rightarrow> io_fail e
     | Inr app_aid \<Rightarrow>
         io_bind (on_out (\<lambda>m. m\<lparr>em_app_aid_len := lo8 (length app_aid), em_app_aid := memcpy_at (em_app_aid m) 0 app_aid\<rparr>)) (\<lambda>_.
         io_bind (on_tag (emv_poller_command xc ([0x00, 0xA4, 0x04, 0x00, lo8 (length app_aid)] @ app_aid))) (\<lambda>_.
         io_bind (on_tag (emv_poller_command xc [0x80, 0xA8, 0x00, 0x00, 0x02, 0x83, 0x00, 0x00])) (\<lambda>rx.
         on_out (\<lambda>m. if 8 \<le> length rx then m\<lparr>em_aip := sub_bytes 2 EMV_AIP_BYTES rx, em_afl := sub_bytes 4 EMV_AFL_BYTES rx\<rparr> else m)))))"

definition emv_poller_keep_record :: "nat \<Rightarrow> bytes \<Rightarrow> emv_card_image \<Rightarrow> emv_card_image" where
  "emv_poller_keep_record i payload m =
     emv_poller_parse_record_tlv payload (m\<lparr>em_record_len := memcpy_at (em_record_len m) i [lo8 (length payload)],
       em_record_data := memcpy_at (em_record_data m) i [memcpy_at (em_record_data m ! i) 0 payload]\<rparr>)"

text \<open>The loop over the records of the file: \<open>rec\<close> is eight bits wide and wraps.\<close>

partial_function (option) emv_poller_records ::
  "(bytes \<Rightarrow> ('t, bytes) io) \<Rightarrow> u8 \<Rightarrow> u8 \<Rightarrow> u8 \<Rightarrow> nat \<Rightarrow> emv_card_image \<Rightarrow> 't \<Rightarrow> (nat result \<times> emv_card_image \<times> 't) option" where
  "emv_poller_records xc sfi last_rec rec_no record_idx m t =
     (if \<not> (rec_no \<le> last_rec \<and> record_idx < CONFIG_NFC_EMV_MAX_RECORDS) then Some (Inr record_idx, (m, t))
      else case emv_poller_command xc [0x00, 0xB2, rec_no, push_bit 3 sfi OR 0x04, 0x00] t of
        (Inl e, t) \<Rightarrow> Some (Inl e, (m, t))
      | (Inr rx, t) \<Rightarrow>
          let payload = take (length rx - 2) rx in
          if 0 < length payload \<and> length payload \<le> CONFIG_NFC_EMV_RECORD_SIZE
          then emv_poller_records xc sfi last_rec (rec_no + 1) (record_idx + 1) (emv_poller_keep_record record_idx payload m) t
          else emv_poller_records xc sfi last_rec (rec_no + 1) record_idx m t)"

definition emv_poller_read ::
  "(bytes \<Rightarrow> nat \<Rightarrow> ('t, bytes) io) \<Rightarrow> nfc_reader_session option \<Rightarrow> emv_card_image \<times> 't \<Rightarrow> (unit result \<times> emv_card_image \<times> 't) option" where
  "emv_poller_read hal session mt =
     (if session = None then Some (Inl EINVAL, mt)
      else
        let xc = emv_poller_transceive hal session in
        case emv_poller_select xc (emv_card_image_reset, snd mt) of
          (Inl e, mt) \<Rightarrow> Some (Inl e, mt)
        | (Inr _, (m, t)) \<Rightarrow>
            (case emv_poller_records xc (drop_bit 3 (em_afl m ! 0)) (em_afl m ! 2) (em_afl m ! 1) 0 m t of
               None \<Rightarrow> None
             | Some (Inl e, mt) \<Rightarrow> Some (Inl e, mt)
             | Some (Inr n, (m, t)) \<Rightarrow> Some (Inr (), (m\<lparr>em_record_count := of_nat n\<rparr>, t))))"

end
