(* ===== verification/Emv_Loopback.thy ===== *)
theory Emv_Loopback
  imports Emv Isodep_Field Reader_Loop
begin

text \<open>
  EMV: when the emulated card reads its records within the arrays and when loading a stored card stays within them; that the reader keeps
  its image well formed whatever the card answers, and when it ends; and the reader in front of the emulated card.
\<close>

section \<open>Well-formed images\<close>

definition emv_room :: "emv_card_image \<Rightarrow> bool" where
  "emv_room m \<longleftrightarrow> length (em_pan m) = 8 \<and> length (em_expiry m) = 3 \<and> length (em_name m) = 26 \<and> length (em_track2 m) = 19 \<and>
     length (em_aip m) = 2 \<and> length (em_afl m) = 4 \<and> length (em_app_aid m) = 16 \<and> unat (em_app_aid_len m) \<le> 16 \<and>
     unat (em_track2_len m) \<le> 19 \<and> length (em_record_len m) = 2 \<and> length (em_record_data m) = 2 \<and>
     (\<forall>row \<in> set (em_record_data m). length row = 64) \<and> (\<forall>n \<in> set (em_record_len m). unat n \<le> 64)"

lemma emv_reset_room: "emv_room emv_card_image_reset"
  by (simp add: emv_room_def emv_card_image_reset_def)

lemma emv_record_defined:
  assumes "emv_room m" shows "emv_record m rec_no = None \<longleftrightarrow> rec_no \<noteq> 1 \<and> rec_no \<noteq> 2"
proof -
  have r: "rec_no = 0 \<or> 2 \<le> unat rec_no - 1 \<longleftrightarrow> rec_no \<noteq> 1 \<and> rec_no \<noteq> 2"
  proof -
    have "rec_no = x \<longleftrightarrow> unat rec_no = unat x" for x by (metis unsigned_word_eqI)
    from this [of 0] this [of 1] this [of 2]
    have "rec_no = 0 \<longleftrightarrow> unat rec_no = 0" "rec_no = 1 \<longleftrightarrow> unat rec_no = 1" "rec_no = 2 \<longleftrightarrow> unat rec_no = 2" by simp_all
    then show ?thesis by linarith
  qed
  have l: "length (em_record_len m) = 2" "length (em_record_data m) = 2" using assms by (simp_all add: emv_room_def)
  have "unat (em_record_len m ! i) \<le> length (em_record_data m ! i)" if "i < 2" for i
    using assms that by (simp add: emv_room_def)
  then have "\<not> length (em_record_data m ! i) < unat (em_record_len m ! i)" if "i < 2" for i using that by (simp add: not_less)
  from this [of "unat rec_no - 1"] show ?thesis using l r by (auto simp: emv_record_def Let_def)
qed

text \<open>C37. When the emulated EMV card stays within its arrays.  A command leaves them exactly if it reads a record that the file locator of
  the image announces and the image has no room for, any but the first two.  So an image whose locator starts at record 1 or 2 and ends
  at record 2 or before is served safely, and one that was read from a card with more records is not.\<close>

theorem emv_listener_record_bounds:
  assumes "emv_room (el_image s)"
  shows "emv_listener_on_apdu (Some a) s = None \<longleftrightarrow>
    el_session s = EMV_SESSION_GPO_DONE \<and> apdu_cla a = 0x00 \<and> apdu_ins a = 0xB2 \<and> apdu_p2 a AND 0x07 = 0x04 \<and>
    drop_bit 3 (apdu_p2 a) AND 0x1F = drop_bit 3 (em_afl (el_image s) ! 0) \<and>
    em_afl (el_image s) ! 1 \<le> apdu_p1 a \<and> apdu_p1 a \<le> em_afl (el_image s) ! 2 \<and> apdu_p1 a \<noteq> 1 \<and> apdu_p1 a \<noteq> 2"
proof (cases "apdu_cla a = 0x00 \<and> apdu_ins a = 0xB2 \<and> el_session s = EMV_SESSION_GPO_DONE \<and> apdu_p2 a AND 0x07 = 0x04")
  case True
  then show ?thesis
    using emv_record_defined [OF assms, of "apdu_p1 a"] by (simp add: emv_listener_on_apdu_def Let_def not_less) (meson leD leI)
qed (auto simp: emv_listener_on_apdu_def)

theorem emv_listener_record_bounds_witness:
  "emv_room emv_card_image_load_default \<and>
   emv_listener_on_apdu (Some \<lparr>apdu_cla = 0x00, apdu_ins = 0xB2, apdu_p1 = 1, apdu_p2 = 0x0C, apdu_data = None, apdu_lc = 0, apdu_le = 0,
     apdu_has_le = True, apdu_extended = False\<rparr>)
     \<lparr>el_image = emv_card_image_load_default, el_session = EMV_SESSION_GPO_DONE, el_initialized = True, el_ppse_fci = [], el_app_fci = [],
      el_gpo = []\<rparr> \<noteq> None"
proof -
  have "emv_room emv_card_image_load_default" by code_simp
  with emv_listener_record_bounds [of "\<lparr>el_image = emv_card_image_load_default, el_session = EMV_SESSION_GPO_DONE, el_initialized = True,
      el_ppse_fci = [], el_app_fci = [], el_gpo = []\<rparr>"]
  show ?thesis by simp
qed

section \<open>Stored cards\<close>

text \<open>Loading a stored card whose records fit keeps the image well formed; a card with a record of 100 bytes is accepted and does not fit.\<close>

definition emv_overlong :: bytes where
  "emv_overlong = [1, 0] @ replicate 63 0 @ [7] @ emv_service_app_aid @ replicate 9 0 @ [1, 100] @ replicate 100 0x55"

lemma emv_deserialize_overflows:
  "\<exists>m. emv_deserialize (Some emv_overlong) emv_card_image_reset = (Inr (), m) \<and> length (em_record_data m ! 0) = 100 \<and> \<not> emv_room m"
proof -
  have r: "replicate 100 (0x55 :: u8) = replicate 64 0x55 @ replicate 36 0x55" by (simp add: replicate_add [symmetric])
  show ?thesis
    unfolding emv_overlong_def emv_deserialize_def emv_card_image_reset_def emv_rebuild_caches_def emv_room_def emv_service_app_aid_def
    by (simp add: sub_bytes_def memcpy_at_def Let_def nth_append)
qed

section \<open>Any card\<close>

lemma emv_record_tlvs_fields:
  "em_record_len (emv_record_tlvs data e p m) = em_record_len m \<and> em_record_data (emv_record_tlvs data e p m) = em_record_data m \<and>
   em_afl (emv_record_tlvs data e p m) = em_afl m \<and> em_aip (emv_record_tlvs data e p m) = em_aip m \<and>
   em_app_aid (emv_record_tlvs data e p m) = em_app_aid m \<and> em_app_aid_len (emv_record_tlvs data e p m) = em_app_aid_len m \<and>
   em_expiry (emv_record_tlvs data e p m) = em_expiry m \<and> em_name (emv_record_tlvs data e p m) = em_name m"
proof (induction data e p m rule: emv_record_tlvs.induct)
  case (1 data e p m)
  then show ?case by (simp add: emv_record_tlvs.simps [of data e p m] Let_def)
qed

lemma emv_room_upd:
  "emv_room m \<Longrightarrow> length x = 19 \<Longrightarrow> unat n \<le> 19 \<Longrightarrow> emv_room (m\<lparr>em_track2_len := n, em_track2 := x\<rparr>)"
  "emv_room m \<Longrightarrow> length y = 8 \<Longrightarrow> emv_room (m\<lparr>em_pan_len := k, em_pan := y\<rparr>)"
  by (simp_all add: emv_room_def)

lemma emv_record_tlvs_room:
  "emv_room m \<Longrightarrow> e \<le> length data \<Longrightarrow> emv_room (emv_record_tlvs data e p m)"
proof (induction data e p m rule: emv_record_tlvs.induct)
  case (1 data e p m)
  let ?n = "unat (data ! (p + 1))"
  have l: "length (em_track2 m) = 19" "length (em_pan m) = 8" using 1 by (simp_all add: emv_room_def)
  have sub: "length (sub_bytes (p + 2) (min ?n k) data) = min ?n k" if "p + 2 + ?n \<le> e" for k
    using that 1 by (intro length_sub_bytes) simp
  have t: "emv_room (m\<lparr>em_track2_len := of_nat (min ?n 19), em_track2 := memcpy_at (em_track2 m) 0 (sub_bytes (p + 2) (min ?n 19) data)\<rparr>)"
    "emv_room (m\<lparr>em_pan_len := x, em_pan := memcpy_at (em_pan m) 0 (sub_bytes (p + 2) (min ?n 8) data)\<rparr>)" if "p + 2 + ?n \<le> e" for x
    using 1 l sub [OF that] by (intro emv_room_upd; simp add: length_memcpy_at unat_of_nat)+
  show ?case
  proof (cases "p + 2 \<le> e \<and> p + 2 + ?n \<le> e")
    case True
    with 1 t show ?thesis
      unfolding emv_record_tlvs.simps [of data e p m] Let_def by (auto simp: not_less)
  qed (use 1 in \<open>auto simp: emv_record_tlvs.simps [of data e p m] Let_def\<close>)
qed

lemma emv_parse_record_room:
  "emv_room m \<Longrightarrow> emv_room (emv_poller_parse_record_tlv data m)"
  using emv_record_tlvs_room by (auto simp: emv_poller_parse_record_tlv_def)

lemma emv_keep_record_room:
  assumes "emv_room m" "i < 2" "length payload \<le> 64"
  shows "emv_room (emv_poller_keep_record i payload m)"
proof -
  have "length (memcpy_at (em_record_data m ! i) 0 payload) = 64" "unat (lo8 (length payload)) \<le> 64"
    using assms by (simp_all add: emv_room_def length_memcpy_at unat_lo8)
  then show ?thesis unfolding emv_poller_keep_record_def
    using assms by (intro emv_parse_record_room) (auto simp: emv_room_def memcpy_at_def dest: in_set_takeD in_set_dropD)
qed

lemma emv_records_room:
  assumes "emv_poller_records xc sfi l k i m t = Some y" "emv_room m" "i \<le> 2"
  shows "emv_room (fst (snd y)) \<and> (\<forall>n. fst y = Inr n \<longrightarrow> n \<le> 2)"
proof -
  have "emv_room m \<longrightarrow> i \<le> 2 \<longrightarrow> emv_room (fst (snd y)) \<and> (\<forall>n. fst y = Inr n \<longrightarrow> n \<le> 2)"
  proof (rule emv_poller_records.raw_induct [where P = "\<lambda>xc sfi l k i m t y. emv_room m \<longrightarrow> i \<le> 2 \<longrightarrow>
        emv_room (fst (snd y)) \<and> (\<forall>n. fst y = Inr n \<longrightarrow> n \<le> 2)", OF _ assms(1)], intro impI)
    fix f and xc :: "bytes \<Rightarrow> ('a, bytes) io" and sfi l k i m t y
    assume IH: "\<And>xc sfi l k i m t y. f xc sfi l k i m t = Some y \<Longrightarrow> emv_room m \<longrightarrow> i \<le> 2 \<longrightarrow>
        emv_room (fst (snd y)) \<and> (\<forall>n. fst y = Inr n \<longrightarrow> n \<le> 2)"
      and body: "(if \<not> (k \<le> l \<and> i < 2) then Some (Inr i, m, t)
        else case emv_poller_command xc [0, 178, k, push_bit 3 sfi OR 4, 0] t of (Inl e, t) \<Rightarrow> Some (Inl e, m, t)
          | (Inr rx, t) \<Rightarrow> let payload = take (length rx - 2) rx in
              if 0 < length payload \<and> length payload \<le> 64
              then f xc sfi l (k + 1) (i + 1) (emv_poller_keep_record i payload m) t else f xc sfi l (k + 1) i m t) = Some y"
      and m: "emv_room m" and i: "i \<le> 2"
    obtain r t1 where c: "emv_poller_command xc [0, 178, k, push_bit 3 sfi OR 4, 0] t = (r, t1)" by (metis surj_pair)
    show "emv_room (fst (snd y)) \<and> (\<forall>n. fst y = Inr n \<longrightarrow> n \<le> 2)"
    proof (cases "k \<le> l \<and> i < 2")
      case True
      show ?thesis
      proof (cases r)
        case (Inr rx)
        let ?p = "take (length rx - 2) rx"
        have b: "(if 0 < length ?p \<and> length ?p \<le> 64 then f xc sfi l (k + 1) (i + 1) (emv_poller_keep_record i ?p m) t1
            else f xc sfi l (k + 1) i m t1) = Some y"
          using body True unfolding c Inr Let_def prod.case sum.case by (simp only: simp_thms if_False)
        show ?thesis
        proof (cases "0 < length ?p \<and> length ?p \<le> 64")
          case t: True
          have "emv_room (emv_poller_keep_record i ?p m)" using t True by (intro emv_keep_record_room [OF m]) blast+
          moreover have "i + 1 \<le> 2" using True by linarith
          ultimately show ?thesis using IH [OF b [unfolded if_P [OF t]]] by blast
        next
          case t: False
          show ?thesis using IH [OF b [unfolded if_not_P [OF t]]] m i by blast
        qed
      next
        case (Inl e)
        have "Some (Inl e, m, t1) = Some y" using body True unfolding c Inl prod.case sum.case by (simp only: simp_thms if_False)
        then show ?thesis using m by auto
      qed
    next
      case False
      then have "Some (Inr i, m, t) = Some y" using body by (simp only: simp_thms if_True)
      then show ?thesis using m i by auto
    qed
  qed
  then show ?thesis using assms(2,3) by simp
qed

lemma emv_find_aid_length: "emv_find_aid payload n is = Inr aid \<Longrightarrow> length aid \<le> n"
  by (induction "is") (auto simp: Let_def length_sub_bytes not_less split: if_splits)

lemma emv_select_keeps: "keeps emv_room (emv_poller_select xc)"
proof -
  have aid: "emv_room (m\<lparr>em_app_aid_len := lo8 (length a), em_app_aid := memcpy_at (em_app_aid m) 0 a\<rparr>)"
    if "emv_room m" "length a \<le> 16" for m a
    using that by (simp add: emv_room_def length_memcpy_at unat_lo8)
  have gpo: "emv_room (if 8 \<le> length rx then m\<lparr>em_aip := sub_bytes 2 2 rx, em_afl := sub_bytes 4 4 rx\<rparr> else m)" if "emv_room m" for m rx
    using that by (simp add: emv_room_def length_sub_bytes)
  show ?thesis
    unfolding emv_poller_select_def
    by (intro keeps_bind keeps_basic, split sum.split)
      (auto intro!: keeps_bind keeps_out aid gpo emv_find_aid_length simp: emv_poller_parse_ppse_aid_def)
qed

lemma emv_poller_read_any_card:
  assumes "emv_poller_read hal session (m0, t) = Some (r, (m, t'))" "emv_room m0"
  shows "emv_room m \<and> (r = Inr () \<longrightarrow> unat (em_record_count m) \<le> 2)"
proof (cases session)
  case (Some s)
  let ?xc = "emv_poller_transceive hal session"
  obtain r1 m1 t1 where 1: "emv_poller_select ?xc (emv_card_image_reset, t) = (r1, (m1, t1))" by (metis surj_pair)
  have m1: "emv_room m1" using keepsD [OF emv_select_keeps, of "(emv_card_image_reset, t)" ?xc] emv_reset_room 1 by simp
  show ?thesis
  proof (cases r1)
    case (Inr u)
    obtain y where 2: "emv_poller_records ?xc (drop_bit 3 (em_afl m1 ! 0)) (em_afl m1 ! 2) (em_afl m1 ! 1) 0 m1 t1 = Some y"
      using assms(1) Some 1 Inr by (auto simp: emv_poller_read_def Let_def split: option.splits)
    obtain r2 m2 t2 where y: "y = (r2, (m2, t2))" by (cases y)
    have c: "emv_room (m2\<lparr>em_record_count := x\<rparr>) \<longleftrightarrow> emv_room m2" for x by (simp add: emv_room_def)
    from emv_records_room [OF 2 m1] y have "emv_room m2" "\<And>n. r2 = Inr n \<Longrightarrow> n \<le> 2" by simp_all
    then show ?thesis using assms(1) Some 1 2 Inr y c
      by (cases r2) (auto simp: emv_poller_read_def Let_def unat_of_nat)
  qed (use assms(1) Some 1 m1 in \<open>auto simp: emv_poller_read_def Let_def\<close>)
qed (use assms in \<open>auto simp: emv_poller_read_def\<close>)

section \<open>The loop over the records\<close>

lemma emv_records_end:
  assumes "l \<noteq> 0xFF" shows "\<exists>y. emv_poller_records xc sfi l k i m t = Some y"
proof (induction "unat l + 1 - unat k" arbitrary: k i m t rule: less_induct)
  case less
  show ?case
  proof (cases "k \<le> l \<and> i < 2")
    case True
    have "unat l \<noteq> unat (0xFF :: u8)" using assms by (metis unsigned_word_eqI)
    then have "unat l < 255" using unat_u8_lt [of l] by (simp del: unat_u8_lt)
    then have "unat (k + 1) = unat k + 1" using True by (simp add: word_le_nat_alt unat_word_ariths)
    then have "unat l + 1 - unat (k + 1) < unat l + 1 - unat k" using True by (auto simp: word_le_nat_alt)
    note ih = less [OF this]
    obtain r t1 where c: "emv_poller_command xc [0, 178, k, push_bit 3 sfi OR 4, 0] t = (r, t1)" by (metis surj_pair)
    show ?thesis using True c ih unfolding emv_poller_records.simps [of xc sfi l k i m t]
      by (cases r) (simp_all add: Let_def)
  qed (simp add: emv_poller_records.simps [of xc sfi l k i m t])
qed

text \<open>A card whose last record is 255 and that answers every request for a record with the status alone.\<close>

lemma emv_records_endless:
  assumes "\<And>tx. xc tx t = (Inr [0x90, 0x00], t)"
  shows "emv_poller_records xc sfi 0xFF k 0 m t = None"
proof (rule ccontr)
  assume "\<not> ?thesis"
  then obtain y where y: "emv_poller_records xc sfi 0xFF k 0 m t = Some y" by auto
  have "(\<forall>tx. xc tx t = (Inr [0x90, 0x00], t)) \<longrightarrow> (0xFF :: u8) = 0xFF \<longrightarrow> (0 :: nat) = 0 \<longrightarrow> False"
  proof (rule emv_poller_records.raw_induct [where P = "\<lambda>xc sfi l k i m t y. (\<forall>tx. xc tx t = (Inr [0x90, 0x00], t)) \<longrightarrow> l = 0xFF \<longrightarrow> i = 0 \<longrightarrow> False",
        OF _ y], intro impI)
    fix f and xc :: "bytes \<Rightarrow> ('a, bytes) io" and sfi l k i m t y
    assume IH: "\<And>xc sfi l k i m t y. f xc sfi l k i m t = Some y \<Longrightarrow> (\<forall>tx. xc tx t = (Inr [0x90, 0x00], t)) \<longrightarrow> l = 0xFF \<longrightarrow> i = 0 \<longrightarrow> False"
      and body: "(if \<not> (k \<le> l \<and> i < 2) then Some (Inr i, m, t)
        else case emv_poller_command xc [0, 178, k, push_bit 3 sfi OR 4, 0] t of (Inl e, t) \<Rightarrow> Some (Inl e, m, t)
          | (Inr rx, t) \<Rightarrow> let payload = take (length rx - 2) rx in
              if 0 < length payload \<and> length payload \<le> 64
              then f xc sfi l (k + 1) (i + 1) (emv_poller_keep_record i payload m) t else f xc sfi l (k + 1) i m t) = Some y"
      and h: "\<forall>tx. xc tx t = (Inr [0x90, 0x00], t)" "l = 0xFF" "i = 0"
    have "k \<le> 0xFF" using unat_u8_lt [of k] by (simp add: word_le_nat_alt del: unat_u8_lt)
    then have "f xc sfi l (k + 1) i m t = Some y"
      using body h by (simp add: emv_poller_command_def io_bind_def emv_poller_sw_ok_def io_return_def)
    from IH [OF this] h show False by simp
  qed
  with assms show False by blast
qed

text \<open>C36. When the EMV reader ends.  If it does not return, the card has announced 255 as its last record: the eight-bit record number never
  passes it.  With such a card the reader indeed hangs when every answer is a bare status, because only a record that it keeps counts
  towards the bound on records.\<close>

theorem emv_poller_read_ends:
  assumes "emv_poller_read hal session (m0, t) = None"
  shows "\<exists>m t'. emv_poller_select (emv_poller_transceive hal session) (emv_card_image_reset, t) = (Inr (), (m, t')) \<and> em_afl m ! 2 = 0xFF"
proof -
  let ?xc = "emv_poller_transceive hal session"
  obtain r m t' where 1: "emv_poller_select ?xc (emv_card_image_reset, t) = (r, (m, t'))" by (metis surj_pair)
  with assms have r: "r = Inr ()" by (cases r) (auto simp: emv_poller_read_def Let_def split: if_splits)
  have "em_afl m ! 2 = 0xFF"
  proof (rule ccontr)
    assume "em_afl m ! 2 \<noteq> 0xFF"
    then obtain y where "emv_poller_records ?xc (drop_bit 3 (em_afl m ! 0)) (em_afl m ! 2) (em_afl m ! 1) 0 m t' = Some y"
      using emv_records_end [of "em_afl m ! 2" ?xc "drop_bit 3 (em_afl m ! 0)" "em_afl m ! 1" 0 m t'] by metis
    with assms 1 r show False
      by (cases y) (auto simp: emv_poller_read_def Let_def split: if_splits sum.splits)
  qed
  with 1 r show ?thesis by blast
qed

text \<open>A card that makes the reader hang: one byte of state tells a selected card.\<close>

definition emv_stuck_card :: "bytes \<Rightarrow> nat \<Rightarrow> (bool, bytes) io" where
  "emv_stuck_card tx n s =
     (if s then (Inr [0x90, 0x00], s)
      else if tx ! 1 = 0xA8 then (Inr [0x80, 0x06, 0x00, 0x00, 0x08, 0x01, 0xFF, 0x00, 0x90, 0x00], True)
      else (Inr [0x4F, 0x01, 0xA0, 0x90, 0x00], s))"

theorem emv_poller_read_ends_witness:
  "emv_poller_read emv_stuck_card (Some (nfc_reader_session_zero\<lparr>rs_active := True\<rparr>)) (emv_card_image_reset, False) = None \<and>
   (\<exists>m t'. emv_poller_select (emv_poller_transceive emv_stuck_card (Some (nfc_reader_session_zero\<lparr>rs_active := True\<rparr>)))
      (emv_card_image_reset, False) = (Inr (), (m, t')) \<and> em_afl m ! 2 = 0xFF)"
proof -
  let ?ses = "Some (nfc_reader_session_zero\<lparr>rs_active := True\<rparr>)"
  let ?xc = "emv_poller_transceive emv_stuck_card ?ses"
  let ?m = "emv_card_image_reset\<lparr>em_app_aid_len := 1, em_app_aid := memcpy_at (replicate 16 0) 0 [0xA0],
    em_aip := [0x00, 0x00], em_afl := [0x08, 0x01, 0xFF, 0x00]\<rparr>"
  have x: "?xc tx s = emv_stuck_card tx 255 s" for tx s by (simp add: emv_poller_transceive_def)
  have p: "emv_poller_parse_ppse_aid [0x4F, 0x01, 0xA0] 16 = Inr [0xA0]"
    by (simp add: emv_poller_parse_ppse_aid_def sub_bytes_def)
  have c: "emv_poller_command ?xc tx s = emv_stuck_card tx 255 s" for tx s
    by (auto simp: emv_poller_command_def x io_bind_def emv_stuck_card_def emv_poller_sw_ok_def io_return_def)
  have 1: "emv_poller_select ?xc (emv_card_image_reset, False) = (Inr (), (?m, True))"
    by (simp add: emv_poller_select_def io_bind_def on_tag_def on_out_def c emv_stuck_card_def p lo8_def sub_bytes_def)
      (simp add: emv_card_image_reset_def)
  have "emv_poller_records ?xc (drop_bit 3 (em_afl ?m ! 0)) (em_afl ?m ! 2) (em_afl ?m ! 1) 0 ?m True = None"
    using emv_records_endless [of ?xc True] x by (simp add: emv_stuck_card_def)
  with 1 have "emv_poller_read emv_stuck_card ?ses (emv_card_image_reset, False) = None" by (simp add: emv_poller_read_def Let_def)
  with emv_poller_read_ends [OF this] show ?thesis by blast
qed

section \<open>The reader in front of the emulated card\<close>

definition emv_handlers :: "emv_listener isodep_handlers" where
  "emv_handlers = \<lparr>ih_select = (\<lambda>aid s. Some (emv_listener_on_select aid s)), ih_apdu = (\<lambda>a. emv_listener_on_apdu (Some a)),
     ih_deselect = emv_listener_on_deselect\<rparr>"

abbreviation (input) emv_aid :: "emv_card_image \<Rightarrow> bytes" where
  "emv_aid m \<equiv> take (unat (em_app_aid_len m)) (em_app_aid m)"

text \<open>A card with an application and one or two records, from record 1 on.\<close>

definition emv_card :: "emv_card_image \<Rightarrow> nat \<Rightarrow> bool" where
  "emv_card m n \<longleftrightarrow> emv_room m \<and> 0 < em_app_aid_len m \<and> emv_aid m \<noteq> emv_ppse_aid \<and> 0 < n \<and> n \<le> 2 \<and>
     em_afl m ! 1 = 1 \<and> em_afl m ! 2 = of_nat n \<and> (\<forall>i < n. 0 < unat (em_record_len m ! i))"

text \<open>The emulated card is ready with \<open>m\<close>.\<close>

definition emv_ready :: "emv_card_image \<Rightarrow> emv_session_state \<Rightarrow> emv_listener \<Rightarrow> bool" where
  "emv_ready m ss s \<longleftrightarrow> el_image s = m \<and> el_session s = ss \<and> el_ppse_fci s = el_ppse_fci (emv_listener_rebuild_wire m s) \<and>
     el_app_fci s = el_app_fci (emv_listener_rebuild_wire m s) \<and> el_gpo s = el_gpo (emv_listener_rebuild_wire m s)"

lemma emv_loaded_ready:
  "emv_ready m EMV_SESSION_IDLE (snd (emv_listener_init (Some m) s))"
  by (simp add: emv_ready_def emv_listener_init_def emv_listener_rebuild_wire_def Let_def)

lemma emv_find_aid_skip:
  "k \<le> n \<Longrightarrow> (\<And>i. i < k \<Longrightarrow> payload ! i \<noteq> 0x4F) \<Longrightarrow> emv_find_aid payload x [0..<n] = emv_find_aid payload x [k..<n]"
proof (induction k)
  case (Suc k)
  then have "[k..<n] = k # [Suc k..<n]" by (simp add: upt_conv_Cons)
  with Suc show ?case by simp
qed simp

lemma emv_ppse_parses:
  assumes "0 < length aid" "length aid \<le> 16" "unat al = length aid"
  shows "emv_poller_parse_ppse_aid ([0x6F, 0x1E, 0x84, 14] @ emv_ppse_aid @
      [0xA5, 0x10, 0xBF, 0x0C, 0x0E, 0x61, 0x0C, 0x4F, al] @ aid @ [0x87, 0x01, 0x01]) 16 = Inr aid"
    (is "emv_poller_parse_ppse_aid ?p 16 = _")
proof -
  let ?pre = "[0x6F, 0x1E, 0x84, 14] @ emv_ppse_aid @ [0xA5, 0x10, 0xBF, 0x0C, 0x0E, 0x61, 0x0C] :: bytes"
  have p: "?p = ?pre @ [0x4F, al] @ aid @ [0x87, 0x01, 0x01]" by simp
  have l: "length ?pre = 25" by (simp add: emv_ppse_aid_def)
  have "\<forall>x \<in> set ?pre. x \<noteq> 0x4F" by (simp add: emv_ppse_aid_def)
  then have no: "?p ! i \<noteq> 0x4F" if "i < 25" for i
    unfolding p nth_append [of ?pre] l using that l nth_mem [of i ?pre] by (simp only: if_True) blast
  have n: "length ?p - 2 = 28 + length aid" using l unfolding p by simp
  have at: "?p ! 25 = 0x4F" "?p ! 26 = al" "sub_bytes 27 (length aid) ?p = aid" "length ?p = 30 + length aid"
    using l unfolding p by (simp_all add: nth_append sub_bytes_def del: append_Cons)
  have "[25..<28 + length aid] = 25 # [26..<28 + length aid]" by (simp add: upt_conv_Cons)
  then have "emv_find_aid ?p 16 [25..<28 + length aid] = Inr aid" using at assms by (simp add: Let_def)
  then show ?thesis unfolding emv_poller_parse_ppse_aid_def n using emv_find_aid_skip [of 25 "28 + length aid" ?p 16] no by simp
qed

lemma emv_command_ok:
  "xc tx t = (Inr (data @ [0x90, 0x00]), t') \<Longrightarrow> emv_poller_command xc tx t = (Inr (data @ [0x90, 0x00]), t')"
  by (simp add: emv_poller_command_def io_bind_def emv_poller_sw_ok_def io_return_def nth_append)

lemma emv_records_step:
  assumes "k \<le> l" "i < 2" "xc [0x00, 0xB2, k, push_bit 3 sfi OR 0x04, 0x00] t = (Inr (p @ [0x90, 0x00]), t')" "0 < length p" "length p \<le> 64"
  shows "emv_poller_records xc sfi l k i m t = emv_poller_records xc sfi l (k + 1) (i + 1) (emv_poller_keep_record i p m) t'"
  using assms(1,2,4,5) emv_command_ok [of xc, OF assms(3)] by (simp add: emv_poller_records.simps [of xc sfi l k i m t] Let_def)

lemma emv_rec_no:
  fixes k :: u8
  assumes "unat k = i + 1" "n \<le> 2"
  shows "k \<noteq> 0" "1 \<le> k" "k \<le> of_nat n \<longleftrightarrow> i < n" "i < n \<Longrightarrow> unat (k + 1) = i + 2"
  using assms by (auto simp: word_le_nat_alt unat_of_nat unat_word_ariths)

lemma emv_sfi:
  "(push_bit 3 (drop_bit 3 x) OR 0x04) AND 0x07 = (0x04 :: u8)"
  "drop_bit 3 (push_bit 3 (drop_bit 3 x) OR 0x04) AND 0x1F = (drop_bit 3 x :: u8)"
proof -
  have j: "j < 8 \<Longrightarrow> j = 0 \<or> j = 1 \<or> j = 2 \<or> j = 3 \<or> j = 4 \<or> j = 5 \<or> j = 6 \<or> j = 7" for j :: nat by presburger
  show "(push_bit 3 (drop_bit 3 x) OR 0x04) AND 0x07 = (0x04 :: u8)"
    by (rule u8_bits_eqI) (drule j, elim disjE; simp add: bit_simps)
  show "drop_bit 3 (push_bit 3 (drop_bit 3 x) OR 0x04) AND 0x1F = (drop_bit 3 x :: u8)"
    by (rule u8_bits_eqI) (drule j, elim disjE; auto simp: bit_simps dest: bit_imp_le_length)
qed

abbreviation (input) emv_rec :: "emv_card_image \<Rightarrow> nat \<Rightarrow> bytes" where
  "emv_rec m i \<equiv> take (unat (em_record_len m ! i)) (em_record_data m ! i)"

lemma emv_rec_room:
  assumes "emv_card m n" "i < n" shows "0 < length (emv_rec m i) \<and> length (emv_rec m i) \<le> 64 \<and> length (emv_rec m i) = unat (em_record_len m ! i) \<and>
    unat (em_record_len m ! i) \<le> 64"
proof -
  have "i < length (em_record_len m)" "i < length (em_record_data m)" using assms by (simp_all add: emv_card_def emv_room_def)
  with assms have "unat (em_record_len m ! i) \<le> 64" "length (em_record_data m ! i) = 64" by (simp_all add: emv_card_def emv_room_def)
  with assms show ?thesis by (simp add: emv_card_def)
qed

lemma emv_read_record:
  assumes c: "emv_card m n" and i: "i < n" and k: "unat k = i + 1" and up: "isodep_up aids (Some ()) st"
    and rd: "emv_ready m EMV_SESSION_GPO_DONE (isodep_card st)"
  shows "\<exists>st'. isodep_field emv_handlers [0x00, 0xB2, k, push_bit 3 (drop_bit 3 (em_afl m ! 0)) OR 0x04, 0x00] mx st =
      (Inr (emv_rec m i @ [0x90, 0x00]), st') \<and> isodep_up aids (Some ()) st' \<and> isodep_card st' = isodep_card st"
proof -
  let ?p2 = "push_bit 3 (drop_bit 3 (em_afl m ! 0)) OR 0x04 :: u8" and ?s = "isodep_card st"
  let ?a = "\<lparr>apdu_cla = 0x00, apdu_ins = 0xB2, apdu_p1 = k, apdu_p2 = ?p2, apdu_data = None, apdu_lc = 0, apdu_le = 0,
    apdu_has_le = True, apdu_extended = False\<rparr>"
  have n: "n \<le> 2" and afl: "em_afl m ! 1 = 1" "em_afl m ! 2 = of_nat n" and room: "emv_room m" using c by (simp_all add: emv_card_def)
  note r = emv_rec_no [OF k n]
  have le: "1 \<le> k" "k \<le> of_nat n" using r i by blast+
  have "apdu_parse (Some [0x00, 0xB2, k, ?p2, 0x00]) ext = Inr ?a" for ext
    using apdu_parse_no_body [of 0 "0xB2" k ?p2 "Some 0" ext] by (simp add: apdu_encode_def)
  moreover have l: "length (em_record_len m) = 2" "length (em_record_data m) = 2" "length (em_record_data m ! i) = 64"
    using room i n by (simp_all add: emv_room_def)
  have "emv_record m k = Some (emv_rec m i)"
    using r(1) k i n l emv_rec_room [OF c i] by (simp add: emv_record_def Let_def)
  then have "emv_listener_on_apdu (Some ?a) ?s = Some (?s, [emv_rec m i @ [0x90, 0x00]])"
    using rd le r(1) afl emv_rec_room [OF c i] emv_sfi [of "em_afl m ! 0"]
    by (simp add: emv_listener_on_apdu_def emv_ready_def Let_def emv_listener_send_def sw_bytes_def hi8_def lo8_def not_less)
  ultimately show ?thesis
    by (intro isodep_command [OF up, where a = ?a]) (simp_all add: emv_handlers_def apdu_is_select_by_aid_def)
qed

lemma emv_read_records_card:
  assumes c: "emv_card m n" and x: "\<And>tx st. xc tx st = isodep_field emv_handlers tx mx st"
    and "i \<le> n" "unat k = i + 1" "isodep_up aids (Some ()) st" "emv_ready m EMV_SESSION_GPO_DONE (isodep_card st)"
  shows "\<exists>st'. emv_poller_records xc (drop_bit 3 (em_afl m ! 0)) (of_nat n) k i img st =
    Some (Inr n, (fold (\<lambda>j. emv_poller_keep_record j (emv_rec m j)) [i..<n] img, st'))"
  using assms(3-)
proof (induction "n - i" arbitrary: i k img st)
  case 0
  then show ?case using emv_rec_no [of k i n] c by (cases st) (simp add: emv_poller_records.simps emv_card_def)
next
  case (Suc d)
  then have i: "i < n" by simp
  have n: "n \<le> 2" using c by (simp add: emv_card_def)
  from emv_read_record [OF c i Suc.prems(2-4), of mx] obtain st1 where 1:
    "xc [0x00, 0xB2, k, push_bit 3 (drop_bit 3 (em_afl m ! 0)) OR 0x04, 0x00] st = (Inr (emv_rec m i @ [0x90, 0x00]), st1)"
    "isodep_up aids (Some ()) st1" "isodep_card st1 = isodep_card st" using x by metis
  note r = emv_rec_no [OF Suc.prems(2) n]
  have "d = n - (i + 1)" "i + 1 \<le> n" "unat (k + 1) = i + 1 + 1" "emv_ready m EMV_SESSION_GPO_DONE (isodep_card st1)"
    using Suc.hyps(2) Suc.prems(4) i r(4) 1(3) by simp_all
  from Suc.hyps(1) [OF this(1-3) 1(2) this(4), of "emv_poller_keep_record i (emv_rec m i) img"]
  obtain st' where "emv_poller_records xc (drop_bit 3 (em_afl m ! 0)) (of_nat n) (k + 1) (i + 1) (emv_poller_keep_record i (emv_rec m i) img) st1 =
    Some (Inr n, (fold (\<lambda>j. emv_poller_keep_record j (emv_rec m j)) [i + 1..<n] (emv_poller_keep_record i (emv_rec m i) img), st'))" by blast
  moreover have "[i..<n] = i # [i + 1..<n]" using i by (simp add: upt_conv_Cons)
  moreover have "k \<le> of_nat n" "i < 2" using r i n by simp_all
  note emv_records_step [of k _ i xc, OF this 1(1)]
  ultimately show ?case using emv_rec_room [OF c i] by (intro exI [of _ st']) simp
qed

lemma emv_select_steps:
  assumes "xc ([0x00, 0xA4, 0x04, 0x00, 14] @ emv_ppse_aid) t = (Inr (fci @ [0x90, 0x00]), t1)"
    "emv_poller_parse_ppse_aid fci 16 = Inr aid"
    "xc ([0x00, 0xA4, 0x04, 0x00, lo8 (length aid)] @ aid) t1 = (Inr (app @ [0x90, 0x00]), t2)"
    "xc [0x80, 0xA8, 0x00, 0x00, 0x02, 0x83, 0x00, 0x00] t2 = (Inr (gpo @ [0x90, 0x00]), t3)" "length gpo = 8"
  shows "emv_poller_select xc (m, t) = (Inr (), (m\<lparr>em_app_aid_len := lo8 (length aid), em_app_aid := memcpy_at (em_app_aid m) 0 aid,
    em_aip := sub_bytes 2 2 gpo, em_afl := sub_bytes 4 4 gpo\<rparr>, t3))"
  using emv_command_ok [of xc, OF assms(1)] emv_command_ok [of xc, OF assms(3)] emv_command_ok [of xc, OF assms(4)] assms(2,5)
  by (simp add: emv_poller_select_def io_bind_def on_tag_def on_out_def sub_bytes_def)

lemma emv_select_card:
  assumes c: "emv_card m n" and x: "xc = (\<lambda>tx. isodep_field emv_handlers tx mx)"
    and aids: "aids emv_ppse_aid = Some ()" "aids (emv_aid m) = Some ()"
    and up: "isodep_up aids cur st" and rd: "emv_ready m ss (isodep_card st)"
  shows "\<exists>st'. emv_poller_select xc (emv_card_image_reset, st) =
      (Inr (), (emv_card_image_reset\<lparr>em_app_aid_len := em_app_aid_len m, em_app_aid := memcpy_at (replicate 16 0) 0 (emv_aid m),
         em_aip := em_aip m, em_afl := em_afl m\<rparr>, st')) \<and> isodep_up aids (Some ()) st' \<and> emv_ready m EMV_SESSION_GPO_DONE (isodep_card st')"
proof -
  let ?s = "isodep_card st" and ?aid = "emv_aid m"
  let ?s1 = "?s\<lparr>el_session := EMV_SESSION_PPSE_SELECTED\<rparr>" and ?s2 = "?s\<lparr>el_session := EMV_SESSION_APP_SELECTED\<rparr>"
  let ?s3 = "?s\<lparr>el_session := EMV_SESSION_GPO_DONE\<rparr>"
  have room: "emv_room m" "0 < em_app_aid_len m" "?aid \<noteq> emv_ppse_aid" using c by (simp_all add: emv_card_def)
  have l: "length ?aid = unat (em_app_aid_len m)" "length ?aid \<le> 16" using room(1) by (simp_all add: emv_room_def)
  have ne: "?aid \<noteq> []" "0 < length ?aid" using l room(2) by (auto simp: word_less_nat_alt)
  have lp: "length emv_ppse_aid = 14" "emv_ppse_aid \<noteq> []" by (simp_all add: emv_ppse_aid_def)
  have im: "el_image ?s = m" and fci: "el_ppse_fci ?s = [0x6F, 0x1E, 0x84, 14] @ emv_ppse_aid @
      [0xA5, 0x10, 0xBF, 0x0C, 0x0E, 0x61, 0x0C, 0x4F, em_app_aid_len m] @ ?aid @ [0x87, 0x01, 0x01]"
    and app: "el_app_fci ?s = [0x6F, 0x12, 0x84, em_app_aid_len m] @ ?aid @ [0xA5, 0x07, 0x50, 0x04, 0x56, 0x49, 0x53, 0x41, 0x87, 0x01, 0x01]"
    and gpo: "el_gpo ?s = [0x80, 0x06, em_aip m ! 0, em_aip m ! 1] @ take 4 (em_afl m)"
    using rd by (simp_all add: emv_ready_def emv_listener_rebuild_wire_def Let_def)
  have "emv_listener_on_select emv_ppse_aid ?s = (?s1, [el_ppse_fci ?s @ [0x90, 0x00]])"
    using lp l by (simp add: emv_listener_on_select_def emv_listener_send_def fci sw_bytes_def hi8_def lo8_def)
  then obtain st1 where 1: "isodep_field emv_handlers (apdu_encode 0x00 0xA4 0x04 0x00 emv_ppse_aid None) mx st = (Inr (el_ppse_fci ?s @ [0x90, 0x00]), st1)"
    "isodep_up aids (Some ()) st1" "isodep_card st1 = ?s1"
    using isodep_select [OF up aids(1), where h = emv_handlers and n = mx] lp by (fastforce simp: emv_handlers_def)
  have "emv_listener_on_select ?aid (isodep_card st1) = (?s2, [el_app_fci ?s @ [0x90, 0x00]])"
    using room(3) l im by (simp add: 1(3) emv_listener_on_select_def emv_listener_send_def app sw_bytes_def hi8_def lo8_def)
  then obtain st2 where 2: "isodep_field emv_handlers (apdu_encode 0x00 0xA4 0x04 0x00 ?aid None) mx st1 = (Inr (el_app_fci ?s @ [0x90, 0x00]), st2)"
    "isodep_up aids (Some ()) st2" "isodep_card st2 = ?s2"
    using isodep_select [OF 1(2) aids(2) ne(1), where h = emv_handlers and n = mx] l(2) by (fastforce simp: emv_handlers_def)
  obtain a where a: "\<And>ext. apdu_parse (Some (apdu_encode 0x80 0xA8 0x00 0x00 [0x83, 0x00] (Some 0))) ext = Inr a"
    "apdu_cla a = 0x80" "apdu_ins a = 0xA8" using apdu_parse_short_body [of "[0x83, 0x00]" "0x80" "0xA8" 0 0 "Some 0"] by simp
  have "emv_listener_on_apdu (Some a) (isodep_card st2) = Some (?s3, [el_gpo ?s @ [0x90, 0x00]])"
    using a by (simp add: 2(3) emv_listener_on_apdu_def emv_listener_send_def gpo sw_bytes_def hi8_def lo8_def)
  then obtain st3 where 3: "isodep_field emv_handlers (apdu_encode 0x80 0xA8 0x00 0x00 [0x83, 0x00] (Some 0)) mx st2 = (Inr (el_gpo ?s @ [0x90, 0x00]), st3)"
    "isodep_up aids (Some ()) st3" "isodep_card st3 = ?s3"
    using isodep_command [OF 2(2) a(1), where h = emv_handlers and n = mx] a(2) by (fastforce simp: emv_handlers_def apdu_is_select_by_aid_def)
  have enc: "apdu_encode 0x00 0xA4 0x04 0x00 emv_ppse_aid None = [0x00, 0xA4, 0x04, 0x00, 14] @ emv_ppse_aid"
    "apdu_encode 0x00 0xA4 0x04 0x00 ?aid None = [0x00, 0xA4, 0x04, 0x00, lo8 (length ?aid)] @ ?aid"
    "apdu_encode 0x80 0xA8 0x00 0x00 [0x83, 0x00] (Some 0) = [0x80, 0xA8, 0x00, 0x00, 0x02, 0x83, 0x00, 0x00]"
    using ne lp by (simp_all add: apdu_encode_def lo8_def)
  have pp: "emv_poller_parse_ppse_aid (el_ppse_fci ?s) 16 = Inr ?aid" unfolding fci using ne l by (intro emv_ppse_parses) simp_all
  have "length (em_aip m) = 2" "length (em_afl m) = 4" using room(1) by (simp_all add: emv_room_def)
  then have g: "length (el_gpo ?s) = 8" "sub_bytes 2 2 (el_gpo ?s) = em_aip m" "sub_bytes 4 4 (el_gpo ?s) = em_afl m"
    by (auto simp: gpo sub_bytes_def length_Suc_conv numeral_eq_Suc)
  have "lo8 (length ?aid) = em_app_aid_len m" by (simp only: l(1)) (simp add: lo8_def)
  with emv_select_steps [of xc st _ st1 ?aid _ st2 _ st3 emv_card_image_reset, unfolded x, OF 1(1) [unfolded enc] pp 2(1) [unfolded enc] 3(1) [unfolded enc] g(1)]
    g(2,3) 3(2,3) rd show ?thesis
    by (intro exI [of _ st3]) (simp add: x emv_ready_def emv_card_image_reset_def emv_listener_rebuild_wire_def Let_def)
qed

lemma emv_keep_record_fields:
  "em_record_len (emv_poller_keep_record i p m) = memcpy_at (em_record_len m) i [lo8 (length p)]"
  "em_record_data (emv_poller_keep_record i p m) = memcpy_at (em_record_data m) i [memcpy_at (em_record_data m ! i) 0 p]"
  "em_afl (emv_poller_keep_record i p m) = em_afl m" "em_aip (emv_poller_keep_record i p m) = em_aip m"
  "em_app_aid (emv_poller_keep_record i p m) = em_app_aid m" "em_app_aid_len (emv_poller_keep_record i p m) = em_app_aid_len m"
  by (simp_all add: emv_poller_keep_record_def emv_poller_parse_record_tlv_def emv_record_tlvs_fields)

lemma emv_kept_records:
  assumes "emv_card m n" "em_record_len img = replicate 2 0" "em_record_data img = replicate 2 (replicate 64 0)" "i < n"
  shows "em_record_len (fold (\<lambda>j. emv_poller_keep_record j (emv_rec m j)) [0..<n] img) ! i = em_record_len m ! i \<and>
    emv_rec (fold (\<lambda>j. emv_poller_keep_record j (emv_rec m j)) [0..<n] img) i = emv_rec m i"
proof -
  have r: "lo8 (length (emv_rec m j)) = em_record_len m ! j" "length (emv_rec m j) \<le> 64" "length (emv_rec m j) = unat (em_record_len m ! j)" if "j < n" for j
    using emv_rec_room [OF assms(1) that] by (auto simp: lo8_def simp del: length_take)
  have t: "take (length p) (memcpy_at (replicate 64 0) 0 p) = p" if "length p \<le> 64" for p :: bytes using that by (simp add: memcpy_at_def)
  have u: "memcpy_at xs i [x] = xs[i := x]" if "i < length xs" for xs :: "'x list" and i x
    using that by (simp add: memcpy_at_def upd_conv_take_nth_drop)
  have "n = 1 \<or> n = 2" using assms(1) by (auto simp: emv_card_def)
  then consider "n = 1" "i = 0" | "n = 2" "i = 0" | "n = 2" "i = 1" using assms(4) by fastforce
  then show ?thesis
  proof cases
    case 1
    with r [of 0] t [of "emv_rec m 0"] show ?thesis
      by (simp add: emv_keep_record_fields assms(2,3) u numeral_2_eq_2 del: length_take)
  next
    case 2
    with r [of 0] t [of "emv_rec m 0"] show ?thesis
      by (simp add: emv_keep_record_fields assms(2,3) u numeral_2_eq_2 del: length_take)
  next
    case 3
    with r [of 1] t [of "emv_rec m 1"] show ?thesis
      by (simp add: emv_keep_record_fields assms(2,3) u numeral_2_eq_2 del: length_take)
  qed
qed

lemma emv_fold_fields:
  "em_afl (fold (\<lambda>j. emv_poller_keep_record j (f j)) js img) = em_afl img \<and> em_aip (fold (\<lambda>j. emv_poller_keep_record j (f j)) js img) = em_aip img \<and>
   em_app_aid (fold (\<lambda>j. emv_poller_keep_record j (f j)) js img) = em_app_aid img \<and>
   em_app_aid_len (fold (\<lambda>j. emv_poller_keep_record j (f j)) js img) = em_app_aid_len img"
  by (induction js arbitrary: img) (simp_all add: emv_keep_record_fields)

text \<open>C35. An emulated EMV card can be read.  Through the assembler and the router, with the payment environment and the application
  registered, the reader comes back with the application identifier, the interchange profile, the file locator and the records of the
  card, one or two of them, each with its length.\<close>

theorem emv_poller_reads_card:
  assumes "rs_active ses" "emv_card m n" "aids emv_ppse_aid = Some ()" "aids (take (unat (em_app_aid_len m)) (em_app_aid m)) = Some ()"
    "isodep_up aids cur st" "emv_ready m ss (isodep_card st)"
  shows "\<exists>img st'. emv_poller_read (isodep_field emv_handlers) (Some ses) (m0, st) = Some (Inr (), (img, st')) \<and>
    em_app_aid_len img = em_app_aid_len m \<and>
    take (unat (em_app_aid_len m)) (em_app_aid img) = take (unat (em_app_aid_len m)) (em_app_aid m) \<and>
    em_aip img = em_aip m \<and> em_afl img = em_afl m \<and> em_record_count img = of_nat n \<and>
    (\<forall>i < n. em_record_len img ! i = em_record_len m ! i \<and>
      take (unat (em_record_len img ! i)) (em_record_data img ! i) = take (unat (em_record_len m ! i)) (em_record_data m ! i))"
proof -
  let ?xc = "emv_poller_transceive (isodep_field emv_handlers) (Some ses)"
  let ?img = "emv_card_image_reset\<lparr>em_app_aid_len := em_app_aid_len m, em_app_aid := memcpy_at (replicate 16 0) 0 (emv_aid m),
    em_aip := em_aip m, em_afl := em_afl m\<rparr>"
  let ?out = "fold (\<lambda>j. emv_poller_keep_record j (emv_rec m j)) [0..<n] ?img"
  have x: "?xc = (\<lambda>tx. isodep_field emv_handlers tx NFC_TRANSPORT_MAX_RESPONSE_LEN)" using assms(1) by (simp add: emv_poller_transceive_def fun_eq_iff)
  from emv_select_card [OF assms(2) x assms(3-6)] obtain st1 where 1: "emv_poller_select ?xc (emv_card_image_reset, st) = (Inr (), (?img, st1))"
    "isodep_up aids (Some ()) st1" "emv_ready m EMV_SESSION_GPO_DONE (isodep_card st1)" by blast
  have afl: "em_afl m ! 1 = 1" "em_afl m ! 2 = of_nat n" "em_afl ?img = em_afl m" using assms(2) by (simp_all add: emv_card_def)
  have "?xc tx s = isodep_field emv_handlers tx NFC_TRANSPORT_MAX_RESPONSE_LEN s" for tx s by (simp only: x)
  from emv_read_records_card [of m n ?xc, OF assms(2) this _ _ 1(2,3), of 0 1 ?img] obtain st2 where
    2: "emv_poller_records ?xc (drop_bit 3 (em_afl m ! 0)) (of_nat n) 1 0 ?img st1 = Some (Inr n, (?out, st2))" by auto
  define out where "out = ?out"
  have "emv_poller_read (isodep_field emv_handlers) (Some ses) (m0, st) = Some (Inr (), (out\<lparr>em_record_count := of_nat n\<rparr>, st2))"
    using 1(1) 2 afl by (simp add: emv_poller_read_def Let_def out_def)
  moreover have "unat (em_app_aid_len m) \<le> 16" "length (em_app_aid m) = 16" using assms(2) by (simp_all add: emv_card_def emv_room_def)
  then have "take (unat (em_app_aid_len m)) (memcpy_at (replicate 16 0) 0 (emv_aid m)) = emv_aid m" by (simp add: memcpy_at_def)
  moreover have "em_record_len out ! i = em_record_len m ! i \<and> take (unat (em_record_len m ! i)) (em_record_data out ! i) = emv_rec m i" if "i < n" for i
  proof -
    have "em_record_len out ! i = em_record_len m ! i \<and> emv_rec out i = emv_rec m i"
      unfolding out_def by (rule emv_kept_records [OF assms(2) _ _ that]) (simp_all add: emv_card_image_reset_def)
    then show ?thesis by metis
  qed
  moreover have "em_afl out = em_afl m" "em_aip out = em_aip m" "em_app_aid_len out = em_app_aid_len m"
    "em_app_aid out = memcpy_at (replicate 16 0) 0 (emv_aid m)"
    using emv_fold_fields [of "emv_rec m" "[0..<n]" ?img] by (simp_all add: out_def)
  ultimately show ?thesis by (intro exI [of _ "out\<lparr>em_record_count := of_nat n\<rparr>"] exI [of _ st2]) simp
qed

theorem emv_poller_reads_card_witness:
  "\<exists>img st'. emv_poller_read (isodep_field emv_handlers) (Some (nfc_reader_session_zero\<lparr>rs_active := True\<rparr>))
      (emv_card_image_reset, isodep_boot [emv_ppse_aid, emv_service_app_aid]
        (snd (emv_listener_init None \<lparr>el_image = emv_card_image_reset, el_session = EMV_SESSION_IDLE, el_initialized = False,
           el_ppse_fci = [], el_app_fci = [], el_gpo = []\<rparr>))) = Some (Inr (), (img, st')) \<and>
    em_record_count img = 1 \<and> em_record_len img ! 0 = em_record_len emv_card_image_load_default ! 0"
proof -
  let ?m = "emv_card_image_load_default" and ?ses = "nfc_reader_session_zero\<lparr>rs_active := True\<rparr>"
  let ?l = "\<lparr>el_image = emv_card_image_reset, el_session = EMV_SESSION_IDLE, el_initialized = False, el_ppse_fci = [], el_app_fci = [], el_gpo = []\<rparr>"
  let ?aids = "map_of (map (\<lambda>a. (a, ())) [emv_ppse_aid, emv_service_app_aid])"
  have c: "emv_card ?m 1" "take (unat (em_app_aid_len ?m)) (em_app_aid ?m) = emv_service_app_aid" by code_simp+
  have i: "emv_listener_init None ?l = emv_listener_init (Some ?m) ?l" by (simp add: emv_listener_init_def)
  let ?st = "isodep_boot [emv_ppse_aid, emv_service_app_aid] (snd (emv_listener_init (Some ?m) ?l))"
  obtain cur where up: "isodep_up ?aids cur ?st"
    using isodep_boot_up [of "[emv_ppse_aid, emv_service_app_aid]" "snd (emv_listener_init (Some ?m) ?l)"]
    by (auto simp: emv_ppse_aid_def emv_service_app_aid_def CONFIG_NFC_ROUTER_MAX_AIDS_def)
  have rd: "emv_ready ?m EMV_SESSION_IDLE (isodep_card ?st)" using emv_loaded_ready [of ?m ?l] by (simp add: isodep_boot_def)
  have aids: "?aids emv_ppse_aid = Some ()" "?aids (take (unat (em_app_aid_len ?m)) (em_app_aid ?m)) = Some ()" unfolding c(2) by simp_all
  have "rs_active ?ses" by simp
  from emv_poller_reads_card [OF this c(1) aids up rd, of emv_card_image_reset] obtain img st' where
    "emv_poller_read (isodep_field emv_handlers) (Some ?ses) (emv_card_image_reset, ?st) = Some (Inr (), (img, st'))"
    "em_record_count img = of_nat 1" "em_record_len img ! 0 = em_record_len ?m ! 0" using zero_less_one by blast
  then show ?thesis unfolding i by (intro exI [of _ img] exI [of _ st'] conjI) simp_all
qed

end
