(* ===== verification/Spec2Isabelle.thy ===== *)
theory Spec2Isabelle
  imports Listen_Loopback Classic_Loopback Ultralight_Loopback Ultralight_T4 Felica_Loopback Slix_Loopback Emv_Loopback
begin

text \<open>
  Verification of a portable NFC stack.
\<close>

end
